(* ===== verification/Prelude.thy ===== *)
theory Prelude
  imports Main "HOL-Library.Word" "HOL-Library.Char_ord" "HOL-Library.List_Lexorder"
    "HOL-Library.Multiset"
begin

text \<open>
  What every component of the development shares: the machine integers of the Rust code, its
  \<open>Result\<close> type and the outcome of code that may panic, the operations on \<open>String\<close> of the
  Rust standard library that the repository uses, and the lemma collections and generic lemmas
  that drive the proofs. A \<open>String\<close> is its list of bytes, as \<open>len\<close> and the ordering of
  \<open>str\<close> read it.
\<close>

section \<open>Lemma collections\<close>

named_theorems sql_simps \<open>execution of the SQL statements on the premint table\<close>
named_theorems rule_simps \<open>evaluation of single rules\<close>
named_theorems tree_simps \<open>shape of the nodes of the synchronisation tree\<close>

section \<open>Results and panics\<close>

type_synonym ('a, 'e) result = "'e + 'a"

abbreviation Ok :: "'a \<Rightarrow> ('a, 'e) result" where
  "Ok \<equiv> Inr"

abbreviation Err :: "'e \<Rightarrow> ('a, 'e) result" where
  "Err \<equiv> Inl"

fun is_ok :: "('a, 'e) result \<Rightarrow> bool" where
  "is_ok (Inr _) = True"
| "is_ok (Inl _) = False"

abbreviation is_error :: "('a, 'e) result \<Rightarrow> bool" where
  "is_error r \<equiv> \<not> is_ok r"

lemma is_ok_iff: "is_ok r \<longleftrightarrow> (\<exists>x. r = Ok x)"
  by (cases r) auto

fun map_err :: "('e \<Rightarrow> 'f) \<Rightarrow> ('a, 'e) result \<Rightarrow> ('a, 'f) result" where
  "map_err f (Inl e) = Inl (f e)"
| "map_err f (Inr x) = Inr x"

fun ok :: "('a, 'e) result \<Rightarrow> 'a option" where
  "ok (Inr x) = Some x"
| "ok (Inl _) = None"

text \<open>An operation returns, or it panics and unwinds its task.\<close>

datatype 'a outcome = Returns 'a | Panic

section \<open>Machine integers\<close>

type_synonym u8 = "8 word"
type_synonym u32 = "32 word"
type_synonym u64 = "64 word"
type_synonym u96 = "96 word"
type_synonym u256 = "256 word"
type_synonym bytes = "u8 list"

text \<open>
  \<open>x as i64\<close> keeps the 64 bits and reads them as two's complement; \<open>x as u64\<close> of a
  32-bit value extends it with zeros.
\<close>

definition as_i64 :: "u64 \<Rightarrow> int" where
  "as_i64 w = sint w"

definition u32_as_u64 :: "u32 \<Rightarrow> u64" where
  "u32_as_u64 w = ucast w"

lemma as_i64_alt: "as_i64 w = (if uint w < 2 ^ 63 then uint w else uint w - 2 ^ 64)"
proof -
  let ?k = "uint w"
  have b: "0 \<le> ?k" "?k < 2 ^ 64" using unsigned_less [of w, where 'a = int] by simp_all
  have bit: "bit ?k 63 \<longleftrightarrow> \<not> ?k < 2 ^ 63"
  proof (cases "?k < 2 ^ 63")
    case False
    with b have "?k div 2 ^ 63 = 1"
      by (intro int_div_pos_eq [where r = "?k - 2 ^ 63"]) simp_all
    with False show ?thesis by (simp add: bit_iff_odd)
  next
    case True
    with b have "?k div 2 ^ 63 = 0" by (intro div_pos_pos_trivial) simp_all
    with True show ?thesis by (simp add: bit_iff_odd)
  qed
  have "as_i64 w = take_bit 64 ?k - 2 ^ 64 * of_bool (bit ?k 63)"
    by (simp add: as_i64_def sint_uint signed_take_bit_eq_take_bit_minus)
  also have "take_bit 64 ?k = ?k" using b by (simp add: take_bit_int_eq_self)
  finally show ?thesis by (simp add: bit)
qed

lemma wrap_inj:
  fixes x y :: int
  assumes "0 \<le> x" "x < 2 ^ 64" "0 \<le> y" "y < 2 ^ 64"
  shows "(if x < 2 ^ 63 then x else x - 2 ^ 64) = (if y < 2 ^ 63 then y else y - 2 ^ 64) \<longleftrightarrow> x = y"
  using assms by auto

lemma as_i64_inj [simp]: "as_i64 a = as_i64 b \<longleftrightarrow> a = b"
  unfolding as_i64_alt word_uint_eq_iff
  using unsigned_less [of a, where 'a = int] unsigned_less [of b, where 'a = int]
  by (intro wrap_inj) simp_all

lemma as_i64_less: "uint a < 2 ^ 63 \<Longrightarrow> uint b < 2 ^ 63 \<Longrightarrow> as_i64 a < as_i64 b \<longleftrightarrow> a < b"
  by (simp add: as_i64_alt word_less_alt)

lemma uint_u32_as_u64: "uint (u32_as_u64 w) = uint w"
proof -
  have "uint w < 2 ^ 32" using unsigned_less [of w, where 'a = int] by simp
  then show ?thesis by (simp add: u32_as_u64_def unsigned_ucast_eq take_bit_int_eq_self)
qed

lemma u32_as_u64_less [simp]: "u32_as_u64 a < u32_as_u64 b \<longleftrightarrow> a < b"
  by (simp add: word_less_alt uint_u32_as_u64)

lemma as_i64_u32 [simp]: "as_i64 (u32_as_u64 w) = uint w"
proof -
  have "uint w < 2 ^ 32" using unsigned_less [of w, where 'a = int] by simp
  then show ?thesis by (simp add: as_i64_alt uint_u32_as_u64)
qed

section \<open>Decimal formatting\<close>

definition digit_char :: "nat \<Rightarrow> char" where
  "digit_char d = ''0123456789'' ! d"

text \<open>\<open>format!("\{:?\}", n)\<close> and \<open>n.to_string()\<close> of an unsigned integer.\<close>

fun dec_digits :: "nat \<Rightarrow> string" where
  "dec_digits n =
     (if n < 10 then [digit_char n] else dec_digits (n div 10) @ [digit_char (n mod 10)])"

declare dec_digits.simps [simp del]

definition undec :: "string \<Rightarrow> nat" where
  "undec s = foldl (\<lambda>a c. 10 * a + (of_char c - 48)) 0 s"

lemma less_10_cases: "(n::nat) < 10 \<longleftrightarrow> n \<in> {0, 1, 2, 3, 4, 5, 6, 7, 8, 9}"
  by auto

lemma of_char_digit: "n < 10 \<Longrightarrow> of_char (digit_char n) = 48 + n"
  by (auto simp: digit_char_def less_10_cases)

lemma digit_char_set: "d < 10 \<Longrightarrow> digit_char d \<in> set ''0123456789''"
  by (auto simp: digit_char_def less_10_cases)

lemma undec_dec_digits [simp]: "undec (dec_digits n) = n"
proof (induction n rule: dec_digits.induct)
  case (1 n)
  then show ?case by (subst dec_digits.simps) (auto simp: undec_def of_char_digit)
qed

lemma dec_digits_inj [simp]: "dec_digits m = dec_digits n \<longleftrightarrow> m = n"
  by (metis undec_dec_digits)

lemma dec_digits_set: "set (dec_digits n) \<subseteq> set ''0123456789''"
proof (induction n rule: dec_digits.induct)
  case (1 n)
  show ?case
  proof (cases "n < 10")
    case True
    then show ?thesis using digit_char_set [of n] by (subst dec_digits.simps) simp
  next
    case False
    with 1 digit_char_set [of "n mod 10"] show ?thesis by (subst dec_digits.simps) simp
  qed
qed

lemma dec_digits_no_char: "c \<notin> set ''0123456789'' \<Longrightarrow> c \<notin> set (dec_digits n)"
  using dec_digits_set [of n] by blast

definition show_u64 :: "u64 \<Rightarrow> string" where
  "show_u64 w = dec_digits (unat w)"

definition show_u32 :: "u32 \<Rightarrow> string" where
  "show_u32 w = dec_digits (unat w)"

lemma show_u64_inj [simp]: "show_u64 a = show_u64 b \<longleftrightarrow> a = b"
  by (simp add: show_u64_def word_unat_eq_iff)

lemma show_u32_inj [simp]: "show_u32 a = show_u32 b \<longleftrightarrow> a = b"
  by (simp add: show_u32_def word_unat_eq_iff)

lemma show_no_colon [simp]: "CHR '':'' \<notin> set (show_u64 a)" "CHR '':'' \<notin> set (show_u32 b)"
  by (simp_all add: show_u64_def show_u32_def dec_digits_no_char)

section \<open>Operations on strings\<close>

definition starts_with :: "string \<Rightarrow> string \<Rightarrow> bool" where
  "starts_with s p \<longleftrightarrow> take (length p) s = p"

lemma starts_with_append [simp]: "starts_with (p @ s) p"
  by (simp add: starts_with_def)

text \<open>\<open>s.split(c)\<close>: the pieces between the separators, at least one, possibly empty.\<close>

fun split_on :: "char \<Rightarrow> string \<Rightarrow> string list" where
  "split_on c [] = [[]]"
| "split_on c (x # xs) =
     (if x = c then [] # split_on c xs
      else (case split_on c xs of [] \<Rightarrow> [[x]] | y # ys \<Rightarrow> (x # y) # ys))"

lemma split_on_not_Nil [simp]: "split_on c s \<noteq> []"
  by (cases s) (auto split: list.splits)

lemma split_on_no_sep: "c \<notin> set s \<Longrightarrow> split_on c s = [s]"
  by (induction s) auto

lemma split_on_append: "c \<notin> set s \<Longrightarrow> split_on c (s @ c # t) = s # split_on c t"
  by (induction s) auto

text \<open>The parts of \<open>a:b\<close> with no \<open>:\<close> in \<open>a\<close> and \<open>a'\<close> are determined by the whole.\<close>

lemma append_sep_inject:
  "c \<notin> set a \<Longrightarrow> c \<notin> set a' \<Longrightarrow> a @ c # b = a' @ c # b' \<longleftrightarrow> a = a' \<and> b = b'"
proof (induction a arbitrary: a')
  case Nil
  then show ?case by (cases a') auto
next
  case (Cons x xs)
  then show ?case by (cases a') auto
qed

text \<open>\<open>s.to_lowercase()\<close> on ASCII letters.\<close>

definition lower_char :: "char \<Rightarrow> char" where
  "lower_char c =
     (let n = (of_char c :: nat) in if 65 \<le> n \<and> n \<le> 90 then char_of (n + 32) else c)"

definition to_lowercase :: "string \<Rightarrow> string" where
  "to_lowercase s = map lower_char s"

lemma to_lowercase_idem: "to_lowercase (to_lowercase s) = to_lowercase s"
  by (induction s) (auto simp: to_lowercase_def lower_char_def Let_def)

section \<open>Sorted lists and filters\<close>

lemma filter_mset_list: "mset (filter P xs) = filter_mset P (mset xs)"
  by (rule mset_filter)

lemma distinct_map_unique:
  "distinct (map f xs) \<Longrightarrow> x \<in> set xs \<Longrightarrow> y \<in> set xs \<Longrightarrow> f x = f y \<Longrightarrow> x = y"
  by (auto simp: distinct_map inj_on_def)

lemma filter_key_singleton:
  "distinct (map f xs) \<Longrightarrow> x \<in> set xs \<Longrightarrow> filter (\<lambda>y. f y = f x) xs = [x]"
  by (induction xs) (auto simp: filter_empty_conv image_iff)

lemma mset_singleton_iff: "mset xs = {#x#} \<longleftrightarrow> xs = [x]"
  by (metis mset_single_iff_right mset.simps)

lemma map_filter_set: "c \<in> set (List.map_filter f xs) \<longleftrightarrow> (\<exists>a\<in>set xs. f a = Some c)"
  by (induction xs) (auto simp: map_filter_simps split: option.splits)

section \<open>Joining and parsing\<close>

text \<open>\<open>parts.join(sep)\<close>\<close>

fun join_with :: "string \<Rightarrow> string list \<Rightarrow> string" where
  "join_with sep [] = []"
| "join_with sep [s] = s"
| "join_with sep (s # t # ts) = s @ sep @ join_with sep (t # ts)"

lemma split_join:
  "ss \<noteq> [] \<Longrightarrow> (\<forall>s\<in>set ss. c \<notin> set s) \<Longrightarrow> split_on c (join_with [c] ss) = ss"
  by (induction "[c]" ss rule: join_with.induct) (simp_all add: split_on_no_sep split_on_append)

lemma split_on_parts: "s \<in> set (split_on c t) \<Longrightarrow> c \<notin> set s"
  by (induction t arbitrary: s) (fastforce split: if_splits list.splits)+

text \<open>
  \<open>s.parse()\<close> into an unsigned integer of at most \<open>bound\<close> values: an optional plus sign and at
  least one digit; no spaces.
\<close>

definition parse_dec :: "nat \<Rightarrow> string \<Rightarrow> nat option" where
  "parse_dec bound s =
     (let digits = (case s of [] \<Rightarrow> [] | c # cs \<Rightarrow> if c = CHR ''+'' then cs else s)
      in if digits \<noteq> [] \<and> set digits \<subseteq> set ''0123456789'' \<and> undec digits < bound
         then Some (undec digits) else None)"

definition parse_u64 :: "string \<Rightarrow> u64 option" where
  "parse_u64 s = map_option word_of_nat (parse_dec (2 ^ 64) s)"

definition parse_u32 :: "string \<Rightarrow> u32 option" where
  "parse_u32 s = map_option word_of_nat (parse_dec (2 ^ 32) s)"

definition parse_bool :: "string \<Rightarrow> bool option" where
  "parse_bool s =
     (if s = ''true'' then Some True else if s = ''false'' then Some False else None)"

lemma dec_digits_not_Nil [simp]: "dec_digits n \<noteq> []"
  by (subst dec_digits.simps) simp

lemma parse_dec_digits: "n < b \<Longrightarrow> parse_dec b (dec_digits n) = Some n"
proof -
  assume n: "n < b"
  obtain c cs where c: "dec_digits n = c # cs" by (cases "dec_digits n") auto
  have "c \<in> set ''0123456789''" using dec_digits_set [of n] c by simp
  then have "c \<noteq> CHR ''+''" by auto
  then have "parse_dec b (dec_digits n) =
    (if dec_digits n \<noteq> [] \<and> set (dec_digits n) \<subseteq> set ''0123456789'' \<and> undec (dec_digits n) < b
     then Some (undec (dec_digits n)) else None)"
    by (simp only: parse_dec_def c list.case Let_def if_False)
  with n show ?thesis by (simp only: undec_dec_digits dec_digits_set dec_digits_not_Nil if_True simp_thms)
qed

lemma parse_show_u64 [simp]: "parse_u64 (show_u64 w) = Some w"
  using unsigned_less [of w, where 'a = nat] by (simp add: parse_u64_def show_u64_def parse_dec_digits)

end
