(* ===== verification/Data.thy ===== *)
theory Data
  imports Prelude
begin

text \<open>
  The data of the node: the premint types and their metadata (\<open>src/types.rs\<close>), the structs of
  the Zora contracts (\<open>src/premints/zora_premint\<close>), the inclusion claims, the records of the
  chain client the code reads, and the values of the rules engine and of its error reports
  (\<open>src/rules.rs\<close>).
\<close>

section \<open>Addresses, hashes and the Zora contract structs\<close>

type_synonym address = "160 word"
type_synonym b256 = "256 word"

record contract_config =
  contractAdmin :: address
  contractURI :: string
  contractName :: string

record v2_token_config =
  v2_tokenURI :: string
  v2_maxSupply :: u256
  v2_maxTokensPerAddress :: u64
  v2_pricePerToken :: u96
  v2_mintStart :: u64
  v2_mintDuration :: u64
  v2_royaltyBPS :: u32
  v2_payoutRecipient :: address
  v2_fixedPriceMinter :: address
  v2_createReferral :: address

record erc20_token_config =
  e1_tokenURI :: string
  e1_maxSupply :: u256
  e1_maxTokensPerAddress :: u64
  e1_pricePerToken :: u96
  e1_mintStart :: u64
  e1_mintDuration :: u64
  e1_royaltyMintSchedule :: u32
  e1_royaltyBPS :: u32
  e1_royaltyRecipient :: address
  e1_fixedPriceMinter :: address

record 'tc creator_attribution =
  tokenConfig :: 'tc
  ca_uid :: u32
  ca_version :: u32
  ca_deleted :: bool

text \<open>
  The macro \<open>implement_zora_premint_traits!\<close> declares this struct once for each contract
  namespace; the namespaces differ in their token configuration.
\<close>

record 'tc zora_premint =
  zp_collection_address :: address
  zp_chain_id :: u64
  zp_collection :: contract_config
  zp_premint :: "'tc creator_attribution"
  zp_signature :: string

type_synonym v2 = "v2_token_config zora_premint"
type_synonym erc20v1 = "erc20_token_config zora_premint"

record eip712_domain =
  dom_name :: string
  dom_version :: string
  dom_chain_id :: u256
  dom_verifying_contract :: address

text \<open>The fields of the event \<open>PremintedV2\<close> that the code reads.\<close>

record preminted_event =
  ev_contractAddress :: address
  ev_uid :: u32

section \<open>Premints, metadata and claims\<close>

record simple_premint =
  sp_version :: u64
  sp_chain_id :: u64
  sp_sender :: address
  sp_token_id :: u64
  sp_media :: string

datatype premint_types =
    Simple simple_premint
  | ZoraV2 v2
  | ZoraERC20V1 erc20v1

datatype premint_name = PremintName (name_of: string)

record premint_metadata =
  md_id :: string
  md_version :: u64
  md_kind :: premint_name
  md_signer :: address
  md_chain_id :: u64
  md_collection_address :: address
  md_token_id :: u256
  md_uri :: string

record inclusion_claim =
  cl_premint_id :: string
  cl_chain_id :: u64
  cl_tx_hash :: b256
  cl_log_index :: u64
  cl_kind :: string

type_synonym peer_id = string

record peer_inclusion_claim =
  pc_claim :: inclusion_claim
  pc_from_peer_id :: peer_id

section \<open>What the chain client returns\<close>

record chain_log =
  log_address :: address
  log_topics :: "b256 list"
  log_data :: bytes
  log_block_number :: "u64 option"
  log_transaction_hash :: "b256 option"
  log_log_index :: "u64 option"

record receipt =
  rc_transaction_hash :: b256
  rc_logs :: "chain_log list"

record log_filter =
  flt_address :: address
  flt_event :: string
  flt_from_block :: "u64 option"

text \<open>A provider is a handle on the web socket connection to an RPC url.\<close>

datatype provider = WsProvider string

text \<open>The view functions of the contracts that the code calls, with their arguments.\<close>

datatype sol_call =
    IsAuthorizedToCreatePremint address address address
  | PremintStatus address u32
  | SupportedPremintSignatureVersions address
  | IsTrustedNode "string list"
  | GetContractAddress contract_config

section \<open>Addresses and state of the network\<close>

text \<open>The components of a multiaddress the code looks at; the others by their text.\<close>

datatype protocol = P2p peer_id | P2pCircuit | OtherProtocol string

type_synonym multiaddr = "protocol list"

datatype nat_status = NatPublic multiaddr | NatPrivate | NatUnknown

text \<open>Of the \<open>NetworkInfo\<close>, the number of connected peers.\<close>

record network_state =
  nst_local_peer_id :: peer_id
  nst_num_peers :: nat
  nst_dht_peers :: "multiaddr list list"
  nst_gossipsub_peers :: "peer_id list"
  nst_external_addresses :: "multiaddr list"
  nst_providing :: "string list"
  nst_listeners :: "multiaddr list"
  nst_nat_status :: nat_status

record mintpool_node_info =
  ni_peer_id :: peer_id
  ni_addr :: "multiaddr list"

section \<open>Evaluations and reports\<close>

datatype evaluation = Accept | Ignore string | Reject string

datatype sqlx_error = RowNotFound | SqlxOther string

text \<open>
  \<open>eyre::Report\<close>: an error that can be asked for the error it was made from. A
  \<open>wrap_err\<close> keeps the wrapped report; the results of a rules evaluation are an error of
  their own.
\<close>

datatype report =
    Sqlx sqlx_error
  | Serde string
  | Eyre string
  | Context string report
  | Validation "rule_result list"
and rule_result =
    RuleResult (rule_name: string) (rr_result: "report + evaluation")

type_synonym results = "rule_result list"

text \<open>\<open>report.downcast_ref\<close> sees through the contexts added by \<open>wrap_err\<close>.\<close>

fun downcast_sqlx :: "report \<Rightarrow> sqlx_error option" where
  "downcast_sqlx (Sqlx e) = Some e"
| "downcast_sqlx (Context _ r) = downcast_sqlx r"
| "downcast_sqlx _ = None"

fun downcast_results :: "report \<Rightarrow> results option" where
  "downcast_results (Validation rs) = Some rs"
| "downcast_results (Context _ r) = downcast_results r"
| "downcast_results _ = None"

section \<open>Default values\<close>

text \<open>The \<open>Default\<close> implementations, derived and written out.\<close>

definition contract_config_default :: contract_config where
  "contract_config_default = \<lparr>contractAdmin = 0, contractURI = [], contractName = []\<rparr>"

definition v2_token_config_default :: v2_token_config where
  "v2_token_config_default =
     \<lparr>v2_tokenURI = [], v2_maxSupply = 0, v2_maxTokensPerAddress = 0, v2_pricePerToken = 0,
      v2_mintStart = 0, v2_mintDuration = 0, v2_royaltyBPS = 0, v2_payoutRecipient = 0,
      v2_fixedPriceMinter = 0, v2_createReferral = 0\<rparr>"

definition erc20_token_config_default :: erc20_token_config where
  "erc20_token_config_default =
     \<lparr>e1_tokenURI = [], e1_maxSupply = 0, e1_maxTokensPerAddress = 0, e1_pricePerToken = 0,
      e1_mintStart = 0, e1_mintDuration = 0, e1_royaltyMintSchedule = 0, e1_royaltyBPS = 0,
      e1_royaltyRecipient = 0, e1_fixedPriceMinter = 0\<rparr>"

definition creator_attribution_default :: "'tc \<Rightarrow> 'tc creator_attribution" where
  "creator_attribution_default tc =
     \<lparr>tokenConfig = tc, ca_uid = 0, ca_version = 0, ca_deleted = False\<rparr>"

definition zora_premint_default :: "'tc \<Rightarrow> 'tc zora_premint" where
  "zora_premint_default tc =
     \<lparr>zp_collection_address = 0, zp_chain_id = 0, zp_collection = contract_config_default,
      zp_premint = creator_attribution_default tc, zp_signature = []\<rparr>"

definition v2_default :: v2 where
  "v2_default = zora_premint_default v2_token_config_default"

definition erc20v1_default :: erc20v1 where
  "erc20v1_default = zora_premint_default erc20_token_config_default"

definition simple_premint_default :: simple_premint where
  "simple_premint_default =
     \<lparr>sp_version = 0, sp_chain_id = 0, sp_sender = 0, sp_token_id = 0, sp_media = []\<rparr>"

lemmas default_defs = contract_config_default_def v2_token_config_default_def
  erc20_token_config_default_def creator_attribution_default_def zora_premint_default_def
  v2_default_def erc20v1_default_def simple_premint_default_def

end
