(* ===== verification/External.thy ===== *)
theory External
  imports Data
begin

text \<open>
  The third party code the node calls, as one record of functions that the model's definitions
  take as an argument: the formatting of \<open>alloy\<close> addresses and numbers, \<open>serde_json\<close> on the
  premint types, \<open>chrono\<close>, signature recovery, ABI encoding, the RPC provider, and the process
  environment. The documented behaviour a property relies on is a named hypothesis below.
\<close>

record ext =
  addr_debug :: "address \<Rightarrow> string"
  addr_checksum :: "address \<Rightarrow> string"
  u256_text :: "u256 \<Rightarrow> string"
  sqlx_text :: "sqlx_error \<Rightarrow> string"
  premint_to_json :: "premint_types \<Rightarrow> (string, string) result"
  premint_from_json :: "string \<Rightarrow> (premint_types, string) result"
  time_text :: "int \<Rightarrow> string"
  time_min :: int
  sig_from_str :: "string \<Rightarrow> (bytes, string) result"
  sig_recover :: "bytes \<Rightarrow> b256 \<Rightarrow> (address, string) result"
  eip712_hash_v2 :: "v2_token_config creator_attribution \<Rightarrow> eip712_domain \<Rightarrow> b256"
  eip712_hash_erc20 :: "erc20_token_config creator_attribution \<Rightarrow> eip712_domain \<Rightarrow> b256"
  abi_encode :: "sol_call \<Rightarrow> bytes"
  decode_authorized :: "bytes \<Rightarrow> (bool, string) result"
  decode_status :: "bytes \<Rightarrow> (bool \<times> u256, string) result"
  decode_versions :: "bytes \<Rightarrow> (string list, string) result"
  decode_trusted :: "bytes \<Rightarrow> (bool list, string) result"
  decode_event_v2 :: "b256 list \<Rightarrow> bytes \<Rightarrow> (preminted_event, string) result"
  decode_event_erc20 :: "b256 list \<Rightarrow> bytes \<Rightarrow> (preminted_event, string) result"
  eth_call :: "provider \<Rightarrow> address \<Rightarrow> bytes \<Rightarrow> (bytes, string) result"
  receipt_of :: "provider \<Rightarrow> b256 \<Rightarrow> (receipt option, string) result"
  get_logs :: "provider \<Rightarrow> log_filter \<Rightarrow> (chain_log list, string) result"
  subscribe_logs :: "provider \<Rightarrow> log_filter \<Rightarrow> (chain_log list, string) result"
  decode_node_added :: "b256 list \<Rightarrow> bytes \<Rightarrow> (string, string) result"
  parse_peer_id :: "string \<Rightarrow> peer_id option"
  env_var :: "string \<Rightarrow> string option"
  ws_connect :: "string \<Rightarrow> (provider, string) result"

section \<open>Documented behaviour\<close>

text \<open>
  The debug form of an address is \<open>0x\<close> and forty hexadecimal digits: it tells addresses
  apart and has no colon. The checksummed form tells them apart as well.
\<close>

definition addr_text_ok :: "ext \<Rightarrow> bool" where
  "addr_text_ok x \<longleftrightarrow> inj (addr_debug x) \<and> (\<forall>a. CHR '':'' \<notin> set (addr_debug x a))"

definition checksum_ok :: "ext \<Rightarrow> bool" where
  "checksum_ok x \<longleftrightarrow> inj (addr_checksum x)"

text \<open>The derived serialisation of a premint succeeds and the derived parser inverts it.\<close>

definition serde_ok :: "ext \<Rightarrow> bool" where
  "serde_ok x \<longleftrightarrow> (\<forall>p. \<exists>s. premint_to_json x p = Ok s \<and> premint_from_json x s = Ok p)"

lemma addr_debug_eq: "addr_text_ok x \<Longrightarrow> addr_debug x a = addr_debug x b \<longleftrightarrow> a = b"
  by (auto simp: addr_text_ok_def inj_eq)

lemma addr_debug_no_colon: "addr_text_ok x \<Longrightarrow> CHR '':'' \<notin> set (addr_debug x a)"
  by (simp add: addr_text_ok_def)

lemma addr_checksum_eq: "checksum_ok x \<Longrightarrow> addr_checksum x a = addr_checksum x b \<longleftrightarrow> a = b"
  by (auto simp: checksum_ok_def inj_eq)

lemma serde_okE:
  assumes "serde_ok x"
  obtains s where "premint_to_json x p = Ok s" "premint_from_json x s = Ok p"
  using assms unfolding serde_ok_def by blast

end
