(* ===== verification/Samples.thy ===== *)
theory Samples
  imports External
begin

text \<open>
  A concrete instance of the third party functions, in which the hypotheses of
  \<open>External\<close> hold. The witnesses of the properties are evaluated in it. Its serialisation
  writes the fields of a premint as a list of numbers, in decimal, each followed by a comma.
\<close>

section \<open>Lists of numbers as text\<close>

definition pack :: "nat list \<Rightarrow> string" where
  "pack ns = concat (map (\<lambda>n. dec_digits n @ [CHR '','']) ns)"

definition unpack :: "string \<Rightarrow> nat list" where
  "unpack s = map undec (butlast (split_on (CHR '','') s))"

lemma unpack_pack [simp]: "unpack (pack ns) = ns"
proof (induction ns)
  case Nil
  then show ?case by (simp add: pack_def unpack_def)
next
  case (Cons n ns)
  have "split_on (CHR '','') (pack (n # ns)) = dec_digits n # split_on (CHR '','') (pack ns)"
    by (simp add: pack_def split_on_append dec_digits_no_char)
  with Cons.IH show ?case by (simp add: unpack_def)
qed

section \<open>A reader and a writer for each field type\<close>

fun get_nat :: "nat list \<Rightarrow> nat \<times> nat list" where
  "get_nat [] = (0, [])"
| "get_nat (n # ns) = (n, ns)"

definition put_word :: "'l::len word \<Rightarrow> nat list" where
  "put_word w = [unat w]"

definition get_word :: "nat list \<Rightarrow> 'l::len word \<times> nat list" where
  "get_word ns = (let (n, r) = get_nat ns in (of_nat n, r))"

definition put_str :: "string \<Rightarrow> nat list" where
  "put_str s = length s # map of_char s"

definition get_str :: "nat list \<Rightarrow> string \<times> nat list" where
  "get_str ns = (let (n, r) = get_nat ns in (map char_of (take n r), drop n r))"

lemma get_word_put [simp]: "get_word (put_word w @ r) = (w, r)"
  by (simp add: get_word_def put_word_def)

lemma get_str_put [simp]: "get_str (put_str s @ r) = (s, r)"
  by (simp add: get_str_def put_str_def comp_def)

definition put_config :: "contract_config \<Rightarrow> nat list" where
  "put_config c = put_word (contractAdmin c) @ put_str (contractURI c) @ put_str (contractName c)"

definition get_config :: "nat list \<Rightarrow> contract_config \<times> nat list" where
  "get_config ns =
     (let (a, ns) = get_word ns; (u, ns) = get_str ns; (n, ns) = get_str ns
      in (\<lparr>contractAdmin = a, contractURI = u, contractName = n\<rparr>, ns))"

lemma get_config_put [simp]: "get_config (put_config c @ r) = (c, r)"
  by (simp add: get_config_def put_config_def)

definition put_v2tc :: "v2_token_config \<Rightarrow> nat list" where
  "put_v2tc t =
     put_str (v2_tokenURI t) @ put_word (v2_maxSupply t) @ put_word (v2_maxTokensPerAddress t) @
     put_word (v2_pricePerToken t) @ put_word (v2_mintStart t) @ put_word (v2_mintDuration t) @
     put_word (v2_royaltyBPS t) @ put_word (v2_payoutRecipient t) @
     put_word (v2_fixedPriceMinter t) @ put_word (v2_createReferral t)"

definition get_v2tc :: "nat list \<Rightarrow> v2_token_config \<times> nat list" where
  "get_v2tc ns =
     (let (u, ns) = get_str ns; (a, ns) = get_word ns; (b, ns) = get_word ns;
          (c, ns) = get_word ns; (d, ns) = get_word ns; (e, ns) = get_word ns;
          (f, ns) = get_word ns; (g, ns) = get_word ns; (h, ns) = get_word ns;
          (i, ns) = get_word ns
      in (\<lparr>v2_tokenURI = u, v2_maxSupply = a, v2_maxTokensPerAddress = b,
           v2_pricePerToken = c, v2_mintStart = d, v2_mintDuration = e, v2_royaltyBPS = f,
           v2_payoutRecipient = g, v2_fixedPriceMinter = h, v2_createReferral = i\<rparr>, ns))"

lemma get_v2tc_put [simp]: "get_v2tc (put_v2tc t @ r) = (t, r)"
  by (simp add: get_v2tc_def put_v2tc_def)

definition put_e1tc :: "erc20_token_config \<Rightarrow> nat list" where
  "put_e1tc t =
     put_str (e1_tokenURI t) @ put_word (e1_maxSupply t) @ put_word (e1_maxTokensPerAddress t) @
     put_word (e1_pricePerToken t) @ put_word (e1_mintStart t) @ put_word (e1_mintDuration t) @
     put_word (e1_royaltyMintSchedule t) @ put_word (e1_royaltyBPS t) @
     put_word (e1_royaltyRecipient t) @ put_word (e1_fixedPriceMinter t)"

definition get_e1tc :: "nat list \<Rightarrow> erc20_token_config \<times> nat list" where
  "get_e1tc ns =
     (let (u, ns) = get_str ns; (a, ns) = get_word ns; (b, ns) = get_word ns;
          (c, ns) = get_word ns; (d, ns) = get_word ns; (e, ns) = get_word ns;
          (f, ns) = get_word ns; (g, ns) = get_word ns; (h, ns) = get_word ns;
          (i, ns) = get_word ns
      in (\<lparr>e1_tokenURI = u, e1_maxSupply = a, e1_maxTokensPerAddress = b,
           e1_pricePerToken = c, e1_mintStart = d, e1_mintDuration = e,
           e1_royaltyMintSchedule = f, e1_royaltyBPS = g, e1_royaltyRecipient = h,
           e1_fixedPriceMinter = i\<rparr>, ns))"

lemma get_e1tc_put [simp]: "get_e1tc (put_e1tc t @ r) = (t, r)"
  by (simp add: get_e1tc_def put_e1tc_def)

definition put_zora :: "('tc \<Rightarrow> nat list) \<Rightarrow> 'tc zora_premint \<Rightarrow> nat list" where
  "put_zora put_tc p =
     put_word (zp_collection_address p) @ put_word (zp_chain_id p) @
     put_config (zp_collection p) @ put_tc (tokenConfig (zp_premint p)) @
     put_word (ca_uid (zp_premint p)) @ put_word (ca_version (zp_premint p)) @
     (if ca_deleted (zp_premint p) then 1 else 0) # put_str (zp_signature p)"

definition get_zora ::
  "(nat list \<Rightarrow> 'tc \<times> nat list) \<Rightarrow> nat list \<Rightarrow> 'tc zora_premint \<times> nat list" where
  "get_zora get_tc ns =
     (let (a, ns) = get_word ns; (c, ns) = get_word ns; (cfg, ns) = get_config ns;
          (t, ns) = get_tc ns; (u, ns) = get_word ns; (v, ns) = get_word ns;
          (d, ns) = get_nat ns; (s, ns) = get_str ns
      in (\<lparr>zp_collection_address = a, zp_chain_id = c, zp_collection = cfg,
           zp_premint = \<lparr>tokenConfig = t, ca_uid = u, ca_version = v, ca_deleted = (d = 1)\<rparr>,
           zp_signature = s\<rparr>, ns))"

lemma get_zora_put:
  assumes "\<And>t r. get_tc (put_tc t @ r) = (t, r)"
  shows "get_zora get_tc (put_zora put_tc p @ r) = (p, r)"
  using assms by (simp add: get_zora_def put_zora_def)

definition put_simple :: "simple_premint \<Rightarrow> nat list" where
  "put_simple p =
     put_word (sp_version p) @ put_word (sp_chain_id p) @ put_word (sp_sender p) @
     put_word (sp_token_id p) @ put_str (sp_media p)"

definition get_simple :: "nat list \<Rightarrow> simple_premint \<times> nat list" where
  "get_simple ns =
     (let (v, ns) = get_word ns; (c, ns) = get_word ns; (a, ns) = get_word ns;
          (t, ns) = get_word ns; (m, ns) = get_str ns
      in (\<lparr>sp_version = v, sp_chain_id = c, sp_sender = a, sp_token_id = t, sp_media = m\<rparr>, ns))"

lemma get_simple_put [simp]: "get_simple (put_simple p @ r) = (p, r)"
  by (simp add: get_simple_def put_simple_def)

section \<open>Premints as text\<close>

fun sample_to_json :: "premint_types \<Rightarrow> (string, string) result" where
  "sample_to_json (Simple p) = Ok (pack (0 # put_simple p))"
| "sample_to_json (ZoraV2 p) = Ok (pack (1 # put_zora put_v2tc p))"
| "sample_to_json (ZoraERC20V1 p) = Ok (pack (2 # put_zora put_e1tc p))"

definition sample_from_json :: "string \<Rightarrow> (premint_types, string) result" where
  "sample_from_json s =
     (case unpack s of
        [] \<Rightarrow> Err ''no variant''
      | n # ns \<Rightarrow>
          if n = 0 then Ok (Simple (fst (get_simple ns)))
          else if n = 1 then Ok (ZoraV2 (fst (get_zora get_v2tc ns)))
          else if n = 2 then Ok (ZoraERC20V1 (fst (get_zora get_e1tc ns)))
          else Err ''unknown variant'')"

lemma sample_json_round_trip: "\<exists>s. sample_to_json p = Ok s \<and> sample_from_json s = Ok p"
  using get_simple_put [where r = "[]"] get_zora_put [of get_v2tc put_v2tc _ "[]"]
    get_zora_put [of get_e1tc put_e1tc _ "[]"]
  by (cases p) (simp_all add: sample_from_json_def)

section \<open>The instance\<close>

text \<open>
  A signature is valid text when it is not empty, and recovers to the code of its first
  character; a log decodes to the contract in its second topic and the uid in its first byte of
  data; the chain holds one transaction, with one mint.
\<close>

definition sample_event :: "b256 list \<Rightarrow> bytes \<Rightarrow> (preminted_event, string) result" where
  "sample_event ts d =
     (case ts of
        (_ # c # _) \<Rightarrow>
          (case d of
             [] \<Rightarrow> Err ''no data''
           | b # _ \<Rightarrow> Ok \<lparr>ev_contractAddress = ucast c, ev_uid = ucast b\<rparr>)
      | _ \<Rightarrow> Err ''no topics'')"

definition sample_log :: chain_log where
  "sample_log =
     \<lparr>log_address = 0x7777773606e7e46C8Ba8B98C08f5cD218e31d340, log_topics = [1, 9],
      log_data = [3], log_block_number = Some 12, log_transaction_hash = Some 7,
      log_log_index = Some 0\<rparr>"

definition sample_receipt :: receipt where
  "sample_receipt = \<lparr>rc_transaction_hash = 7, rc_logs = [sample_log]\<rparr>"

definition sample_ext :: ext where
  "sample_ext =
     \<lparr>addr_debug = (\<lambda>a. ''0x'' @ dec_digits (unat a)),
      addr_checksum = (\<lambda>a. ''0X'' @ dec_digits (unat a)),
      u256_text = (\<lambda>n. dec_digits (unat n)),
      sqlx_text = (\<lambda>e. case e of RowNotFound \<Rightarrow> ''no rows'' | SqlxOther s \<Rightarrow> s),
      premint_to_json = sample_to_json,
      premint_from_json = sample_from_json,
      time_text = (\<lambda>t. dec_digits (nat t)),
      time_min = - 8334601228800,
      sig_from_str = (\<lambda>s. if s = [] then Err ''no signature'' else Ok (map (\<lambda>c. of_nat (of_char c)) s)),
      sig_recover = (\<lambda>s h. case s of [] \<Rightarrow> Err ''no signature'' | b # _ \<Rightarrow> Ok (ucast b)),
      eip712_hash_v2 = (\<lambda>a d. ucast (ca_uid a)),
      eip712_hash_erc20 = (\<lambda>a d. ucast (ca_uid a)),
      abi_encode = (\<lambda>c. case c of IsAuthorizedToCreatePremint _ _ _ \<Rightarrow> [1]
         | PremintStatus _ _ \<Rightarrow> [2] | SupportedPremintSignatureVersions _ \<Rightarrow> [3]
         | IsTrustedNode _ \<Rightarrow> [4] | GetContractAddress _ \<Rightarrow> [5]),
      decode_authorized = (\<lambda>b. Ok True),
      decode_status = (\<lambda>b. Ok (False, 0)),
      decode_versions = (\<lambda>b. Ok [''1'', ''2'']),
      decode_trusted = (\<lambda>b. Ok [True]),
      decode_event_v2 = sample_event,
      decode_event_erc20 = sample_event,
      eth_call = (\<lambda>p a d. Ok d),
      receipt_of = (\<lambda>p h. Ok (if h = 7 then Some sample_receipt else None)),
      get_logs = (\<lambda>p f. Ok [sample_log]),
      subscribe_logs = (\<lambda>p f. Ok [sample_log]),
      decode_node_added = (\<lambda>ts d. Ok ''/node''),
      parse_peer_id = (\<lambda>s. if s = [] then None else Some s),
      env_var = (\<lambda>_. None),
      ws_connect = (\<lambda>u. Ok (WsProvider u))\<rparr>"

lemma sample_addr_text_ok [simp]: "addr_text_ok sample_ext"
  by (auto simp: addr_text_ok_def sample_ext_def inj_def word_unat_eq_iff dec_digits_no_char)

lemma sample_checksum_ok [simp]: "checksum_ok sample_ext"
  by (auto simp: checksum_ok_def sample_ext_def inj_def word_unat_eq_iff)

lemma sample_serde_ok [simp]: "serde_ok sample_ext"
  by (simp add: serde_ok_def sample_ext_def sample_json_round_trip)

end
