(* ===== verification/Premint.thy ===== *)
theory Premint
  imports Samples
begin

text \<open>
  The operations of the premint types: identifiers, metadata and JSON (\<open>src/types.rs\<close>) and the
  trait implementation that \<open>implement_zora_premint_traits!\<close> expands to for \<open>V2\<close> and
  \<open>ERC20V1\<close> (\<open>src/premints/zora_premint/types.rs\<close>). The macro's arguments are a record; the
  methods \<open>SimplePremint\<close> leaves as \<open>todo!()\<close> panic.
\<close>

section \<open>JSON\<close>

definition to_json :: "ext \<Rightarrow> premint_types \<Rightarrow> (string, report) result" where
  "to_json x p = map_err Serde (premint_to_json x p)"

definition from_json :: "ext \<Rightarrow> string \<Rightarrow> (premint_types, report) result" where
  "from_json x line = map_err Serde (premint_from_json x line)"

lemma json_round_trip: "serde_ok x \<Longrightarrow> \<exists>s. to_json x p = Ok s \<and> from_json x s = Ok p"
  by (erule serde_okE [where p = p]) (simp add: to_json_def from_json_def)

lemma from_to_json: "serde_ok x \<Longrightarrow> to_json x p = Ok s \<Longrightarrow> from_json x s = Ok p"
  using json_round_trip [of x p] by auto

section \<open>The macro arguments\<close>

record 'tc zora_ns =
  ns_kind :: string
  ns_version :: string
  ns_token_uri :: "'tc \<Rightarrow> string"
  ns_hash :: "ext \<Rightarrow> 'tc creator_attribution \<Rightarrow> eip712_domain \<Rightarrow> b256"
  ns_decode :: "ext \<Rightarrow> b256 list \<Rightarrow> bytes \<Rightarrow> (preminted_event, string) result"

definition ns_v2 :: "v2_token_config zora_ns" where
  "ns_v2 =
     \<lparr>ns_kind = ''zora_premint_v2'', ns_version = ''2'', ns_token_uri = v2_tokenURI,
      ns_hash = eip712_hash_v2, ns_decode = decode_event_v2\<rparr>"

definition ns_erc20v1 :: "erc20_token_config zora_ns" where
  "ns_erc20v1 =
     \<lparr>ns_kind = ''zora_premint_erc20v1'', ns_version = ''ERC20_1'', ns_token_uri = e1_tokenURI,
      ns_hash = eip712_hash_erc20, ns_decode = decode_event_erc20\<rparr>"

definition PREMINT_FACTORY_ADDR :: address where
  "PREMINT_FACTORY_ADDR = 0x7777773606e7e46C8Ba8B98C08f5cD218e31d340"

section \<open>Identifiers and metadata\<close>

definition guid :: "ext \<Rightarrow> u64 \<Rightarrow> address \<Rightarrow> u32 \<Rightarrow> string" where
  "guid x chain contract uid =
     show_u64 chain @ CHR '':'' # addr_debug x contract @ CHR '':'' # show_u32 uid"

definition event_to_guid :: "ext \<Rightarrow> u64 \<Rightarrow> preminted_event \<Rightarrow> string" where
  "event_to_guid x chain_id event = guid x chain_id (ev_contractAddress event) (ev_uid event)"

definition zora_metadata :: "'tc zora_ns \<Rightarrow> ext \<Rightarrow> 'tc zora_premint \<Rightarrow> premint_metadata" where
  "zora_metadata ns x p =
     \<lparr>md_id = guid x (zp_chain_id p) (zp_collection_address p) (ca_uid (zp_premint p)),
      md_version = u32_as_u64 (ca_version (zp_premint p)),
      md_kind = PremintName (ns_kind ns),
      md_signer = contractAdmin (zp_collection p),
      md_chain_id = zp_chain_id p,
      md_collection_address = zp_collection_address p,
      md_token_id = ucast (ca_uid (zp_premint p)),
      md_uri = ns_token_uri ns (tokenConfig (zp_premint p))\<rparr>"

definition simple_metadata :: "ext \<Rightarrow> simple_premint \<Rightarrow> premint_metadata" where
  "simple_metadata x p =
     \<lparr>md_id = show_u64 (sp_chain_id p) @ CHR '':'' # addr_debug x (sp_sender p) @
        CHR '':'' # show_u64 (sp_token_id p),
      md_version = sp_version p,
      md_kind = PremintName ''simple'',
      md_signer = sp_sender p,
      md_chain_id = sp_chain_id p,
      md_collection_address = 0,
      md_token_id = ucast (sp_token_id p),
      md_uri = sp_media p\<rparr>"

fun metadata :: "ext \<Rightarrow> premint_types \<Rightarrow> premint_metadata" where
  "metadata x (Simple p) = simple_metadata x p"
| "metadata x (ZoraV2 p) = zora_metadata ns_v2 x p"
| "metadata x (ZoraERC20V1 p) = zora_metadata ns_erc20v1 x p"

definition eip712_domain_of :: "'tc zora_ns \<Rightarrow> 'tc zora_premint \<Rightarrow> eip712_domain" where
  "eip712_domain_of ns p =
     \<lparr>dom_name = ''Preminter'', dom_version = ns_version ns,
      dom_chain_id = ucast (zp_chain_id p), dom_verifying_contract = zp_collection_address p\<rparr>"

section \<open>Topics\<close>

text \<open>The debug form of a \<open>str\<close> of printable ASCII: quotes and backslashes are escaped.\<close>

definition str_debug :: "string \<Rightarrow> string" where
  "str_debug s =
     CHR 0x22 # concat (map (\<lambda>c. if c = CHR 0x22 \<or> c = CHR 0x5C then [CHR 0x5C, c] else [c]) s)
       @ [CHR 0x22]"

definition name_debug :: "premint_name \<Rightarrow> string" where
  "name_debug n = ''PremintName('' @ str_debug (name_of n) @ '')''"

definition msg_topic :: "premint_name \<Rightarrow> string" where
  "msg_topic n = ''mintpool::premint::'' @ name_debug n"

definition claims_topic :: "premint_name \<Rightarrow> string" where
  "claims_topic n = ''chain::claims::'' @ name_debug n"

text \<open>The hash of an \<open>IdentTopic\<close> is the topic's string.\<close>

definition claims_topic_hashes :: "premint_name list \<Rightarrow> string list" where
  "claims_topic_hashes names = map claims_topic names"

section \<open>Finding and checking mints on the chain\<close>

definition zora_check_filter :: "u64 \<Rightarrow> log_filter option" where
  "zora_check_filter chain_id =
     (let supported_chains = [7777777, 8453]
      in if chain_id \<notin> set supported_chains then None
         else Some \<lparr>flt_address = PREMINT_FACTORY_ADDR,
           flt_event = ''PremintedV2(address,uint256,bool,uint32,address,uint256)'',
           flt_from_block = None\<rparr>)"

definition zora_map_claim ::
  "'tc zora_ns \<Rightarrow> ext \<Rightarrow> u64 \<Rightarrow> chain_log \<Rightarrow> (inclusion_claim, report) result" where
  "zora_map_claim ns x chain_id log =
     (case ns_decode ns x (log_topics log) (log_data log) of
        Inl e \<Rightarrow> Err (Eyre e)
      | Inr event \<Rightarrow>
          Ok \<lparr>cl_premint_id = event_to_guid x chain_id event, cl_chain_id = chain_id,
              cl_tx_hash = (case log_transaction_hash log of None \<Rightarrow> 0 | Some h \<Rightarrow> h),
              cl_log_index = (case log_log_index log of None \<Rightarrow> 0 | Some i \<Rightarrow> i),
              cl_kind = ns_kind ns\<rparr>)"

definition zora_verify_claim ::
  "'tc zora_ns \<Rightarrow> ext \<Rightarrow> 'tc zora_premint \<Rightarrow> u64 \<Rightarrow> receipt \<Rightarrow> chain_log \<Rightarrow> inclusion_claim \<Rightarrow>
     bool" where
  "zora_verify_claim ns x p chain_id tx log claim =
     (case ns_decode ns x (log_topics log) (log_data log) of
        Inr event \<Rightarrow>
          (let conditions =
             [log_address log = PREMINT_FACTORY_ADDR,
              (case log_transaction_hash log of None \<Rightarrow> 0 | Some h \<Rightarrow> h) = rc_transaction_hash tx,
              cl_tx_hash claim = rc_transaction_hash tx,
              cl_log_index claim = (case log_log_index log of None \<Rightarrow> 0 | Some i \<Rightarrow> i),
              cl_premint_id claim = event_to_guid x chain_id event,
              cl_kind claim = ''zora_premint_v2'',
              cl_chain_id claim = chain_id,
              zp_collection_address p = ev_contractAddress event,
              ca_uid (zp_premint p) = ev_uid event]
           in list_all (\<lambda>c. c) conditions)
      | Inl e \<Rightarrow> False)"

fun verify_claim ::
  "ext \<Rightarrow> premint_types \<Rightarrow> u64 \<Rightarrow> receipt \<Rightarrow> chain_log \<Rightarrow> inclusion_claim \<Rightarrow> bool outcome" where
  "verify_claim x (Simple p) chain_id tx log claim = Panic"
| "verify_claim x (ZoraV2 p) chain_id tx log claim =
     Returns (zora_verify_claim ns_v2 x p chain_id tx log claim)"
| "verify_claim x (ZoraERC20V1 p) chain_id tx log claim =
     Returns (zora_verify_claim ns_erc20v1 x p chain_id tx log claim)"

text \<open>The associated functions of the trait, as the chain watcher uses them for one type.\<close>

record premint_impl =
  impl_check_filter :: "u64 \<Rightarrow> log_filter option outcome"
  impl_map_claim :: "ext \<Rightarrow> u64 \<Rightarrow> chain_log \<Rightarrow> (inclusion_claim, report) result outcome"

definition simple_impl :: premint_impl where
  "simple_impl = \<lparr>impl_check_filter = (\<lambda>_. Panic), impl_map_claim = (\<lambda>_ _ _. Panic)\<rparr>"

definition zora_impl :: "'tc zora_ns \<Rightarrow> premint_impl" where
  "zora_impl ns =
     \<lparr>impl_check_filter = (\<lambda>chain. Returns (zora_check_filter chain)),
      impl_map_claim = (\<lambda>x chain log. Returns (zora_map_claim ns x chain log))\<rparr>"

section \<open>Identifiers tell premints apart\<close>

lemma guid_inject:
  assumes "addr_text_ok x"
  shows "guid x c a u = guid x c' a' u' \<longleftrightarrow> c = c' \<and> a = a' \<and> u = u'"
  using assms by (simp add: guid_def append_sep_inject addr_debug_eq addr_debug_no_colon)

text \<open>
  The identifier of a Zora premint (chain, collection and uid, joined by colons) determines
  the three parts: two premints have the same identifier only if they are the same token.
\<close>

lemma zora_ids_unambiguous:
  assumes "addr_text_ok x"
  shows "md_id (zora_metadata ns x p) = md_id (zora_metadata ns' x q) \<longleftrightarrow>
    zp_chain_id p = zp_chain_id q \<and> zp_collection_address p = zp_collection_address q \<and>
    ca_uid (zp_premint p) = ca_uid (zp_premint q)"
  using assms by (simp add: zora_metadata_def guid_inject)

section \<open>Claims of inclusion\<close>

text \<open>
  The contract between the watcher that turns logs into claims and the node that checks a
  claim before it acts on it: a claim made from a log checks against a premint exactly when
  the log is the mint of that premint.
\<close>

locale claim_checks =
  fixes map_claim :: "u64 \<Rightarrow> chain_log \<Rightarrow> (inclusion_claim, report) result"
    and check :: "'p \<Rightarrow> u64 \<Rightarrow> receipt \<Rightarrow> chain_log \<Rightarrow> inclusion_claim \<Rightarrow> bool"
    and mint_of :: "'p \<Rightarrow> receipt \<Rightarrow> chain_log \<Rightarrow> bool"
  assumes check_own: "map_claim chain log = Ok claim \<Longrightarrow> mint_of p tx log \<Longrightarrow> check p chain tx log claim"
    and check_mint: "check p chain tx log claim \<Longrightarrow> mint_of p tx log"
    and check_claim: "check p chain tx log claim \<Longrightarrow>
      \<exists>claim'. map_claim chain log = Ok claim' \<and> cl_premint_id claim = cl_premint_id claim' \<and>
        cl_chain_id claim = cl_chain_id claim'"
begin

lemma check_iff:
  "map_claim chain log = Ok claim \<Longrightarrow> check p chain tx log claim \<longleftrightarrow> mint_of p tx log"
  using check_own check_mint by blast

lemma checked_claims_agree:
  assumes "check p chain tx log c" "check q chain tx log d"
  shows "cl_premint_id c = cl_premint_id d" "cl_chain_id c = cl_chain_id d"
  using check_claim [OF assms(1)] check_claim [OF assms(2)] by auto

end

text \<open>The log is a mint of the premint: by the factory, in the transaction, of its token.\<close>

definition zora_mint_of ::
  "'tc zora_ns \<Rightarrow> ext \<Rightarrow> 'tc zora_premint \<Rightarrow> receipt \<Rightarrow> chain_log \<Rightarrow> bool" where
  "zora_mint_of ns x p tx log \<longleftrightarrow>
     log_address log = PREMINT_FACTORY_ADDR \<and>
     (case log_transaction_hash log of None \<Rightarrow> 0 | Some h \<Rightarrow> h) = rc_transaction_hash tx \<and>
     ns_decode ns x (log_topics log) (log_data log) =
       Ok \<lparr>ev_contractAddress = zp_collection_address p, ev_uid = ca_uid (zp_premint p)\<rparr>"

lemma event_eqI: "ev_contractAddress e = a \<Longrightarrow> ev_uid e = u \<Longrightarrow> e = \<lparr>ev_contractAddress = a, ev_uid = u\<rparr>"
  for e :: preminted_event
  by (cases e) simp

interpretation v2: claim_checks "zora_map_claim ns_v2 x" "zora_verify_claim ns_v2 x"
  "zora_mint_of ns_v2 x" for x
  by unfold_locales
    (auto simp: zora_map_claim_def zora_verify_claim_def zora_mint_of_def ns_v2_def Let_def
      split: sum.splits intro: event_eqI)

text \<open>
  C21. The check of a claim (\<open>verify_claim\<close>, given the log; which log of the receipt it is given is
  the caller's matter): a claim that a chain watcher made from a log of a V2 mint passes exactly
  if it is checked for the watched chain, the factory emitted the log, the claim's transaction
  is that of the receipt, and the claim's identifier is the one the premint has on that chain.
  So it passes for premints of one collection and uid only; the chain id that the premint itself
  carries is not looked at.
\<close>

theorem v2_own_claim_checks:
  assumes "addr_text_ok x" "zora_map_claim ns_v2 x watched log = Ok claim"
  shows "verify_claim x (ZoraV2 p) chain tx log claim = Returns
    (chain = watched \<and> log_address log = PREMINT_FACTORY_ADDR \<and> cl_tx_hash claim = rc_transaction_hash tx \<and>
     cl_premint_id claim = md_id (metadata x (ZoraV2 (p\<lparr>zp_chain_id := watched\<rparr>))))"
  using assms
  by (auto simp: zora_map_claim_def zora_verify_claim_def ns_v2_def Let_def event_to_guid_def zora_metadata_def
      guid_inject split: sum.splits)

theorem v2_own_claim_checks_witness:
  "verify_claim sample_ext (ZoraV2 (v2_default\<lparr>zp_collection_address := 9,
     zp_premint := (zp_premint v2_default)\<lparr>ca_uid := 3\<rparr>\<rparr>)) 7777777 sample_receipt sample_log
     \<lparr>cl_premint_id = guid sample_ext 7777777 9 3, cl_chain_id = 7777777, cl_tx_hash = 7,
      cl_log_index = 0, cl_kind = ''zora_premint_v2''\<rparr> = Returns True"
proof (subst v2_own_claim_checks)
  show "addr_text_ok sample_ext" by simp
  show "zora_map_claim ns_v2 sample_ext 7777777 sample_log =
    Ok \<lparr>cl_premint_id = guid sample_ext 7777777 9 3, cl_chain_id = 7777777, cl_tx_hash = 7,
      cl_log_index = 0, cl_kind = ''zora_premint_v2''\<rparr>"
    by (simp add: zora_map_claim_def ns_v2_def sample_ext_def sample_event_def sample_log_def
        event_to_guid_def)
qed (simp add: sample_log_def sample_receipt_def PREMINT_FACTORY_ADDR_def zora_metadata_def)

text \<open>
  No claim made from a log of an ERC20V1 mint passes the check: the check compares the
  claim's kind with the literal of the V2 kind, for both types.
\<close>

lemma erc20v1_own_claim_rejected:
  assumes "zora_map_claim ns_erc20v1 x chain log = Ok claim"
  shows "verify_claim x (ZoraERC20V1 p) chain' tx log' claim = Returns False"
  using assms
  by (auto simp: zora_map_claim_def zora_verify_claim_def ns_erc20v1_def Let_def split: sum.splits)

end
