(* ===== verification/Storage.thy ===== *)
theory Storage
  imports Premint
begin

text \<open>
  The premint store (\<open>src/storage.rs\<close>, \<open>migrations\<close>): the table \<open>premints\<close>, its SQL
  statements, the \<open>Reader\<close> and \<open>Writer\<close> implementations over them, and the queries the
  API and the sync protocol build from \<open>QueryOptions\<close>. A pool is the rows of the table,
  the fault the connection currently has (if any), the engine's clock, and the order in which
  the engine happens to return the rows of a result, which SQL leaves open.
\<close>

section \<open>The table\<close>

record row =
  r_id :: string
  r_kind :: string
  r_version :: int
  r_signer :: string
  r_chain_id :: int
  r_collection_address :: string
  r_token_id :: string
  r_token_uri :: string
  r_json :: string
  r_seen_on_chain :: bool
  r_created_at :: string

record pool =
  db_rows :: "row list"
  db_fault :: "string option"
  db_clock :: string
  db_scan :: "row list \<Rightarrow> row list"

definition row_key :: "row \<Rightarrow> string \<times> string" where
  "row_key r = (r_kind r, r_id r)"

section \<open>SQL statements\<close>

text \<open>
  \<open>INSERT INTO premints \<dots> ON CONFLICT (kind, id) DO UPDATE SET version = $3, json = $9
  WHERE excluded.version > version\<close>: the number of rows affected and the new rows.
\<close>

fun sql_upsert :: "row \<Rightarrow> row list \<Rightarrow> nat \<times> row list" where
  "sql_upsert e [] = (1, [e])"
| "sql_upsert e (r # rs) =
     (if row_key r = row_key e then
        (if r_version e > r_version r
         then (1, r\<lparr>r_version := r_version e, r_json := r_json e\<rparr> # rs)
         else (0, r # rs))
      else (let (n, rs') = sql_upsert e rs in (n, r # rs')))"

definition claim_matches :: "string \<Rightarrow> int \<Rightarrow> string \<Rightarrow> row \<Rightarrow> bool" where
  "claim_matches pid chain kind r \<longleftrightarrow> r_id r = pid \<and> r_chain_id r = chain \<and> r_kind r = kind"

text \<open>\<open>DELETE FROM premints WHERE id = ? AND chain_id = ? AND kind = ?\<close>\<close>

definition sql_delete :: "(row \<Rightarrow> bool) \<Rightarrow> row list \<Rightarrow> nat \<times> row list" where
  "sql_delete P rs = (length (filter P rs), filter (\<lambda>r. \<not> P r) rs)"

text \<open>\<open>UPDATE premints SET seen_on_chain = true WHERE \<dots>\<close>\<close>

definition sql_mark_seen :: "(row \<Rightarrow> bool) \<Rightarrow> row list \<Rightarrow> nat \<times> row list" where
  "sql_mark_seen P rs =
     (length (filter P rs), map (\<lambda>r. if P r then r\<lparr>r_seen_on_chain := True\<rparr> else r) rs)"

section \<open>Running a statement\<close>

definition db_execute ::
  "pool \<Rightarrow> (row list \<Rightarrow> nat \<times> row list) \<Rightarrow> (nat, sqlx_error) result \<times> pool" where
  "db_execute db stmt =
     (case db_fault db of
        Some e \<Rightarrow> (Err (SqlxOther e), db)
      | None \<Rightarrow> (let (n, rs) = stmt (db_rows db) in (Ok n, db\<lparr>db_rows := rs\<rparr>)))"

definition db_fetch_all :: "pool \<Rightarrow> (row \<Rightarrow> bool) \<Rightarrow> (row list, sqlx_error) result" where
  "db_fetch_all db P =
     (case db_fault db of Some e \<Rightarrow> Err (SqlxOther e) | None \<Rightarrow> Ok (db_scan db (filter P (db_rows db))))"

definition db_fetch_one :: "pool \<Rightarrow> (row \<Rightarrow> bool) \<Rightarrow> (row, sqlx_error) result" where
  "db_fetch_one db P =
     (case db_fetch_all db P of
        Inl e \<Rightarrow> Err e
      | Inr [] \<Rightarrow> Err RowNotFound
      | Inr (r # _) \<Rightarrow> Ok r)"

section \<open>The store\<close>

record premint_storage =
  st_db :: pool
  st_prune_minted_premints :: bool

text \<open>At most one instance prunes: a clone shares the pool and does not.\<close>

definition storage_clone :: "premint_storage \<Rightarrow> premint_storage" where
  "storage_clone s = \<lparr>st_db = st_db s, st_prune_minted_premints = False\<rparr>"

definition premint_row :: "ext \<Rightarrow> premint_types \<Rightarrow> string \<Rightarrow> string \<Rightarrow> row" where
  "premint_row x premint json now =
     (let md = metadata x premint
      in \<lparr>r_id = md_id md, r_kind = name_of (md_kind md), r_version = as_i64 (md_version md),
          r_signer = addr_checksum x (md_signer md), r_chain_id = as_i64 (md_chain_id md),
          r_collection_address = addr_checksum x (md_collection_address md),
          r_token_id = u256_text x (md_token_id md), r_token_uri = md_uri md,
          r_json = json, r_seen_on_chain = False, r_created_at = now\<rparr>)"

definition store ::
  "ext \<Rightarrow> premint_storage \<Rightarrow> premint_types \<Rightarrow> (unit, report) result \<times> premint_storage" where
  "store x s premint =
     (case to_json x premint of
        Inl e \<Rightarrow> (Err e, s)
      | Inr json \<Rightarrow>
          (case db_execute (st_db s) (sql_upsert (premint_row x premint json (db_clock (st_db s)))) of
             (Inl e, db) \<Rightarrow> (Err (Eyre (''Failed to store premint: '' @ sqlx_text x e)), s\<lparr>st_db := db\<rparr>)
           | (Inr n, db) \<Rightarrow>
               (if n = 0 then Err (Eyre ''Cannot store premint with lower version than existing'')
                else Ok (), s\<lparr>st_db := db\<rparr>)))"

definition mark_seen_on_chain ::
  "ext \<Rightarrow> premint_storage \<Rightarrow> inclusion_claim \<Rightarrow> (unit, report) result \<times> premint_storage" where
  "mark_seen_on_chain x s claim =
     (let P = claim_matches (cl_premint_id claim) (as_i64 (cl_chain_id claim)) (cl_kind claim)
      in if st_prune_minted_premints s then
           (case db_execute (st_db s) (sql_delete P) of
              (Inl e, db) \<Rightarrow> (Err (Eyre (''Failed to delete premint: '' @ sqlx_text x e)), s\<lparr>st_db := db\<rparr>)
            | (Inr n, db) \<Rightarrow> (Ok (), s\<lparr>st_db := db\<rparr>))
         else
           (case db_execute (st_db s) (sql_mark_seen P) of
              (Inl e, db) \<Rightarrow> (Err (Eyre (''Failed to update premint: '' @ sqlx_text x e)), s\<lparr>st_db := db\<rparr>)
            | (Inr n, db) \<Rightarrow> (Ok (), s\<lparr>st_db := db\<rparr>)))"

section \<open>Reading\<close>

definition decode_row :: "ext \<Rightarrow> row \<Rightarrow> (premint_types, report) result" where
  "decode_row x r = from_json x (r_json r)"

text \<open>Rows that do not parse are skipped with a warning.\<close>

definition decode_rows :: "ext \<Rightarrow> row list \<Rightarrow> premint_types list" where
  "decode_rows x rs = List.map_filter (\<lambda>r. ok (decode_row x r)) rs"

definition fetch_premint :: "ext \<Rightarrow> pool \<Rightarrow> (row \<Rightarrow> bool) \<Rightarrow> (premint_types, report) result" where
  "fetch_premint x db P =
     (case db_fetch_one db P of Inl e \<Rightarrow> Err (Sqlx e) | Inr r \<Rightarrow> decode_row x r)"

definition get_for_id_and_kind ::
  "ext \<Rightarrow> pool \<Rightarrow> string \<Rightarrow> premint_name \<Rightarrow> (premint_types, report) result" where
  "get_for_id_and_kind x db pid kind =
     fetch_premint x db (\<lambda>r. r_id r = pid \<and> r_kind r = name_of kind)"

definition get_for_token_uri ::
  "ext \<Rightarrow> premint_storage \<Rightarrow> string \<Rightarrow> (premint_types, report) result" where
  "get_for_token_uri x s uri = fetch_premint x (st_db s) (\<lambda>r. r_token_uri r = uri)"

definition list_failure :: "ext \<Rightarrow> sqlx_error \<Rightarrow> report" where
  "list_failure x e = Eyre (''Failed to list all premints: '' @ sqlx_text x e)"

definition list_all_premints :: "ext \<Rightarrow> pool \<Rightarrow> (premint_types list, report) result" where
  "list_all_premints x db =
     (case db_fetch_all db (\<lambda>r. \<not> r_seen_on_chain r) of
        Inl e \<Rightarrow> Err (list_failure x e)
      | Inr rs \<Rightarrow> Ok (decode_rows x rs))"

section \<open>Queries with options\<close>

record query_options =
  qo_chain_id :: "u64 option"
  qo_kind :: "string option"
  qo_collection_address :: "address option"
  qo_creator_address :: "address option"
  qo_from :: "int option"
  qo_to :: "int option"

definition query_options_default :: query_options where
  "query_options_default =
     \<lparr>qo_chain_id = None, qo_kind = None, qo_collection_address = None,
      qo_creator_address = None, qo_from = None, qo_to = None\<rparr>"

text \<open>The conjuncts \<open>build_query\<close> pushes after \<open>WHERE\<close>, with their bound values.\<close>

datatype sql_cond =
    NotSeen
  | KindEq string
  | ChainEq int
  | CollectionEq string
  | SignerEq string
  | CreatedFrom string
  | CreatedTo string

fun cond_holds :: "row \<Rightarrow> sql_cond \<Rightarrow> bool" where
  "cond_holds r NotSeen \<longleftrightarrow> \<not> r_seen_on_chain r"
| "cond_holds r (KindEq k) \<longleftrightarrow> r_kind r = k"
| "cond_holds r (ChainEq c) \<longleftrightarrow> r_chain_id r = c"
| "cond_holds r (CollectionEq a) \<longleftrightarrow> r_collection_address r = a"
| "cond_holds r (SignerEq a) \<longleftrightarrow> r_signer r = a"
| "cond_holds r (CreatedFrom t) \<longleftrightarrow> r_created_at r \<ge> t"
| "cond_holds r (CreatedTo t) \<longleftrightarrow> r_created_at r \<le> t"

definition push_cond :: "('a \<Rightarrow> sql_cond) \<Rightarrow> 'a option \<Rightarrow> sql_cond list \<Rightarrow> sql_cond list" where
  "push_cond f v q = (case v of None \<Rightarrow> q | Some a \<Rightarrow> q @ [f a])"

definition build_query :: "ext \<Rightarrow> query_options \<Rightarrow> sql_cond list" where
  "build_query x options =
     (let q = [NotSeen];
          q = push_cond KindEq (qo_kind options) q;
          q = push_cond (\<lambda>c. ChainEq (as_i64 c)) (qo_chain_id options) q;
          q = push_cond (\<lambda>a. CollectionEq (addr_checksum x a)) (qo_collection_address options) q;
          q = push_cond (\<lambda>a. SignerEq (addr_checksum x a)) (qo_creator_address options) q;
          q = push_cond (\<lambda>t. CreatedFrom (time_text x t)) (qo_from options) q;
          q = push_cond (\<lambda>t. CreatedTo (time_text x t)) (qo_to options) q
      in q)"

definition query_selects :: "sql_cond list \<Rightarrow> row \<Rightarrow> bool" where
  "query_selects q r \<longleftrightarrow> list_all (cond_holds r) q"

definition list_all_with_options ::
  "ext \<Rightarrow> pool \<Rightarrow> query_options \<Rightarrow> (premint_types list, report) result" where
  "list_all_with_options x db options =
     (case db_fetch_all db (query_selects (build_query x options)) of
        Inl e \<Rightarrow> Err (list_failure x e)
      | Inr rs \<Rightarrow> Ok (decode_rows x rs))"

definition get_one :: "ext \<Rightarrow> pool \<Rightarrow> query_options \<Rightarrow> (premint_types, report) result" where
  "get_one x db options =
     (case db_fetch_one db (query_selects (build_query x options)) of
        Inl e \<Rightarrow> Err (list_failure x e)
      | Inr r \<Rightarrow> decode_row x r)"

section \<open>The Reader trait\<close>

record 's reader =
  rd_list_all :: "'s \<Rightarrow> (premint_types list, report) result"
  rd_get_for_id_and_kind :: "'s \<Rightarrow> string \<Rightarrow> premint_name \<Rightarrow> (premint_types, report) result"
  rd_get_for_token_uri :: "'s \<Rightarrow> string \<Rightarrow> (premint_types, report) result"

definition storage_reader :: "ext \<Rightarrow> premint_storage reader" where
  "storage_reader x =
     \<lparr>rd_list_all = (\<lambda>s. list_all_premints x (st_db s)),
      rd_get_for_id_and_kind = (\<lambda>s. get_for_id_and_kind x (st_db s)),
      rd_get_for_token_uri = get_for_token_uri x\<rparr>"

end
