(* ===== verification/StorageSpec.thy ===== *)
theory StorageSpec
  imports Storage
begin

text \<open>
  What the store promises, as a map from kind and identifier to entries, and the proof that
  the SQL of \<open>Storage\<close> implements it: the invariant of the table, the refinement of each
  operation, and the contracts \<open>reader_contract\<close> and \<open>writer_contract\<close> that the
  rules engine and the controller rely on.
\<close>

section \<open>Looking rows up by their key\<close>

definition find_row :: "row list \<Rightarrow> string \<times> string \<Rightarrow> row option" where
  "find_row rs k = List.find (\<lambda>r. row_key r = k) rs"

lemma find_row_simps [simp]:
  "find_row [] k = None"
  "find_row (r # rs) k = (if row_key r = k then Some r else find_row rs k)"
  by (simp_all add: find_row_def)

lemma find_row_Some: "find_row rs k = Some r \<Longrightarrow> r \<in> set rs \<and> row_key r = k"
  by (induction rs) (auto split: if_splits)

lemma find_row_None: "find_row rs k = None \<longleftrightarrow> k \<notin> row_key ` set rs"
  by (induction rs) auto

lemma find_row_unique: "distinct (map row_key rs) \<Longrightarrow> r \<in> set rs \<Longrightarrow> find_row rs (row_key r) = Some r"
  by (induction rs) (auto simp: image_iff)

lemma filter_key:
  "distinct (map row_key rs) \<Longrightarrow>
   filter (\<lambda>r. row_key r = k) rs = (case find_row rs k of None \<Rightarrow> [] | Some r \<Rightarrow> [r])"
  by (induction rs)
    (auto simp: filter_empty_conv image_iff split: option.splits, metis find_row_Some)

lemma filter_id_kind:
  "filter (\<lambda>r. r_id r = i \<and> r_kind r = k) rs = filter (\<lambda>r. row_key r = (k, i)) rs"
  by (rule filter_cong) (auto simp: row_key_def)

section \<open>The statements, key by key\<close>

lemma row_key_update [simp]: "row_key (r\<lparr>r_version := v, r_json := j\<rparr>) = row_key r"
  "row_key (r\<lparr>r_seen_on_chain := b\<rparr>) = row_key r"
  by (simp_all add: row_key_def)

lemma upsert_keys: "map row_key (snd (sql_upsert e rs)) =
    (if row_key e \<in> row_key ` set rs then map row_key rs else map row_key rs @ [row_key e])"
  by (induction rs) (auto simp: split_beta)

lemma upsert_distinct: "distinct (map row_key rs) \<Longrightarrow> distinct (map row_key (snd (sql_upsert e rs)))"
  by (simp add: upsert_keys)

lemma upsert_find [sql_simps]: "find_row (snd (sql_upsert e rs)) k =
    (if k = row_key e
     then (case find_row rs k of
             None \<Rightarrow> Some e
           | Some r \<Rightarrow> Some (if r_version e > r_version r
               then r\<lparr>r_version := r_version e, r_json := r_json e\<rparr> else r))
     else find_row rs k)"
  by (induction rs) (auto simp: split_beta split: option.splits)

lemma upsert_affected [sql_simps]: "fst (sql_upsert e rs) =
    (case find_row rs (row_key e) of
       None \<Rightarrow> 1 | Some r \<Rightarrow> if r_version e > r_version r then 1 else 0)"
  by (induction rs) (auto simp: split_beta split: option.splits)

lemma upsert_set: "r \<in> set (snd (sql_upsert e rs)) \<Longrightarrow>
    r = e \<or> r \<in> set rs \<or> (\<exists>q\<in>set rs. row_key q = row_key e \<and> r_version q < r_version e \<and>
      r = q\<lparr>r_version := r_version e, r_json := r_json e\<rparr>)"
  by (induction rs) (auto simp: split_beta split: if_splits)

lemma upsert_unaffected: "fst (sql_upsert e rs) = 0 \<Longrightarrow> snd (sql_upsert e rs) = rs"
  by (induction rs) (auto simp: split_beta split: if_splits)

lemma find_filter:
  "distinct (map row_key rs) \<Longrightarrow> find_row (filter P rs) k =
     (case find_row rs k of None \<Rightarrow> None | Some r \<Rightarrow> if P r then Some r else None)"
  by (induction rs)
    (auto simp: find_row_None image_iff split: option.splits, (metis find_row_Some)+)

lemma find_map:
  "(\<And>r. row_key (f r) = row_key r) \<Longrightarrow> find_row (map f rs) k = map_option f (find_row rs k)"
  by (induction rs) auto

lemma mark_seen_find [sql_simps]: "find_row (snd (sql_mark_seen P rs)) k =
    map_option (\<lambda>r. if P r then r\<lparr>r_seen_on_chain := True\<rparr> else r) (find_row rs k)"
  by (simp add: sql_mark_seen_def find_map)

lemma mark_seen_keys: "map row_key (snd (sql_mark_seen P rs)) = map row_key rs"
  by (simp add: sql_mark_seen_def comp_def if_distrib cong: if_cong)

lemma delete_find [sql_simps]: "distinct (map row_key rs) \<Longrightarrow> find_row (snd (sql_delete P rs)) k =
    (case find_row rs k of None \<Rightarrow> None | Some r \<Rightarrow> if P r then None else Some r)"
  by (simp add: sql_delete_def find_filter split: option.splits)

section \<open>The invariant of the table\<close>

text \<open>
  A row parses, and its key columns are those of the premint it holds. The columns
  \<open>signer\<close>, \<open>token_uri\<close> and \<open>created_at\<close> are those of the first version stored, so the
  invariant does not speak of them.
\<close>

definition premint_key :: "ext \<Rightarrow> premint_types \<Rightarrow> string \<times> string" where
  "premint_key x p = (name_of (md_kind (metadata x p)), md_id (metadata x p))"

definition version_of :: "ext \<Rightarrow> premint_types \<Rightarrow> int" where
  "version_of x p = as_i64 (md_version (metadata x p))"

definition row_ok :: "ext \<Rightarrow> row \<Rightarrow> bool" where
  "row_ok x r \<longleftrightarrow>
     (case decode_row x r of
        Inl _ \<Rightarrow> False
      | Inr p \<Rightarrow> row_key r = premint_key x p \<and> r_version r = version_of x p \<and>
          r_chain_id r = as_i64 (md_chain_id (metadata x p)) \<and>
          r_collection_address r = addr_checksum x (md_collection_address (metadata x p)))"

definition scan_ok :: "pool \<Rightarrow> bool" where
  "scan_ok db \<longleftrightarrow> (\<forall>rs. mset (db_scan db rs) = mset rs)"

definition db_ok :: "ext \<Rightarrow> pool \<Rightarrow> bool" where
  "db_ok x db \<longleftrightarrow>
     scan_ok db \<and> distinct (map row_key (db_rows db)) \<and> (\<forall>r\<in>set (db_rows db). row_ok x r)"

definition store_ok :: "ext \<Rightarrow> premint_storage \<Rightarrow> bool" where
  "store_ok x s \<longleftrightarrow> db_ok x (st_db s)"

lemma scan_singleton: "scan_ok db \<Longrightarrow> db_scan db [r] = [r]"
  by (simp add: scan_ok_def flip: mset_singleton_iff)

lemma scan_Nil: "scan_ok db \<Longrightarrow> db_scan db [] = []"
  using mset_zero_iff scan_ok_def by (metis mset.simps(1))

lemma scan_set: "scan_ok db \<Longrightarrow> set (db_scan db rs) = set rs"
  unfolding scan_ok_def by (metis set_mset_mset)

lemma scan_distinct: "scan_ok db \<Longrightarrow> distinct (db_scan db rs) \<longleftrightarrow> distinct rs"
  unfolding scan_ok_def by (metis mset_eq_imp_distinct_iff)

text \<open>Within a kind, the identifier determines the chain and the collection.\<close>

lemma premint_key_inject:
  assumes "addr_text_ok x" "premint_key x p = premint_key x q"
  shows "md_chain_id (metadata x p) = md_chain_id (metadata x q) \<and>
    md_collection_address (metadata x p) = md_collection_address (metadata x q)"
  using assms
  by (cases p; cases q) (simp_all add: premint_key_def zora_metadata_def simple_metadata_def
      ns_v2_def ns_erc20v1_def guid_inject append_sep_inject)

lemma row_okE:
  assumes "row_ok x r"
  obtains p where "decode_row x r = Ok p" "row_key r = premint_key x p"
    "r_version r = version_of x p"
    "r_chain_id r = as_i64 (md_chain_id (metadata x p))"
    "r_collection_address r = addr_checksum x (md_collection_address (metadata x p))"
  using assms by (auto simp: row_ok_def split: sum.splits)

lemma row_key_premint_row [simp]: "row_key (premint_row x p json now) = premint_key x p"
  by (simp add: row_key_def premint_row_def premint_key_def Let_def)

lemma premint_row_sel [simp]:
  "r_version (premint_row x p json now) = version_of x p"
  "r_json (premint_row x p json now) = json"
  by (simp_all add: premint_row_def version_of_def Let_def)

lemma premint_row_ok:
  "serde_ok x \<Longrightarrow> to_json x p = Ok json \<Longrightarrow> row_ok x (premint_row x p json now)"
  by (simp add: row_ok_def decode_row_def premint_row_def premint_key_def row_key_def Let_def
      from_to_json version_of_def)

lemma updated_row_ok:
  assumes "addr_text_ok x" "serde_ok x" "to_json x p = Ok json" "row_ok x r"
    "row_key r = premint_key x p"
  shows "row_ok x (r\<lparr>r_version := version_of x p, r_json := json\<rparr>)"
proof -
  from assms(4) obtain q where "row_key r = premint_key x q"
    "r_chain_id r = as_i64 (md_chain_id (metadata x q))"
    "r_collection_address r = addr_checksum x (md_collection_address (metadata x q))"
    by (rule row_okE)
  with assms(5) premint_key_inject [OF assms(1), of p q] show ?thesis
    using assms(2,3) by (simp add: row_ok_def decode_row_def from_to_json)
qed

section \<open>The abstract store\<close>

text \<open>
  An entry is the current premint, whether it was seen on chain, and the token URI and signer
  text of the version that created the entry.
\<close>

record entry =
  en_premint :: premint_types
  en_seen :: bool
  en_uri :: string
  en_signer :: string

type_synonym entries = "string \<times> string \<rightharpoonup> entry"

definition spec_accepts :: "ext \<Rightarrow> entries \<Rightarrow> premint_types \<Rightarrow> bool" where
  "spec_accepts x m p \<longleftrightarrow>
     (case m (premint_key x p) of
        None \<Rightarrow> True
      | Some e \<Rightarrow> version_of x p > version_of x (en_premint e))"

definition spec_put :: "ext \<Rightarrow> premint_types \<Rightarrow> entries \<Rightarrow> entries" where
  "spec_put x p m =
     m(premint_key x p \<mapsto>
        (case m (premint_key x p) of
           None \<Rightarrow> \<lparr>en_premint = p, en_seen = False, en_uri = md_uri (metadata x p),
             en_signer = addr_checksum x (md_signer (metadata x p))\<rparr>
         | Some e \<Rightarrow> e\<lparr>en_premint := p\<rparr>))"

definition claims_entry :: "ext \<Rightarrow> inclusion_claim \<Rightarrow> string \<times> string \<Rightarrow> entry \<Rightarrow> bool" where
  "claims_entry x claim k e \<longleftrightarrow>
     k = (cl_kind claim, cl_premint_id claim) \<and>
     md_chain_id (metadata x (en_premint e)) = cl_chain_id claim"

definition spec_mark :: "ext \<Rightarrow> bool \<Rightarrow> inclusion_claim \<Rightarrow> entries \<Rightarrow> entries" where
  "spec_mark x prune claim m = (\<lambda>k.
     (case m k of
        None \<Rightarrow> None
      | Some e \<Rightarrow>
          if claims_entry x claim k e
          then (if prune then None else Some (e\<lparr>en_seen := True\<rparr>)) else Some e))"

definition row_entry :: "ext \<Rightarrow> row \<Rightarrow> entry" where
  "row_entry x r =
     \<lparr>en_premint = (case decode_row x r of Inr p \<Rightarrow> p | Inl _ \<Rightarrow> Simple simple_premint_default),
      en_seen = r_seen_on_chain r, en_uri = r_token_uri r, en_signer = r_signer r\<rparr>"

definition view :: "ext \<Rightarrow> premint_storage \<Rightarrow> entries" where
  "view x s k = map_option (row_entry x) (find_row (db_rows (st_db s)) k)"

definition db_up :: "premint_storage \<Rightarrow> bool" where
  "db_up s \<longleftrightarrow> db_fault (st_db s) = None"

lemma row_entry_sel [simp]:
  "en_seen (row_entry x r) = r_seen_on_chain r" "en_uri (row_entry x r) = r_token_uri r"
  "en_signer (row_entry x r) = r_signer r"
  by (simp_all add: row_entry_def)

lemma row_entry_premint:
  assumes "row_ok x r"
  shows "decode_row x r = Ok (en_premint (row_entry x r))"
    and "row_key r = premint_key x (en_premint (row_entry x r))"
    and "r_version r = version_of x (en_premint (row_entry x r))"
    and "r_chain_id r = as_i64 (md_chain_id (metadata x (en_premint (row_entry x r))))"
  using assms by (auto elim!: row_okE simp: row_entry_def)

lemma row_ok_collection:
  "row_ok x r \<Longrightarrow> r_collection_address r =
    addr_checksum x (md_collection_address (metadata x (en_premint (row_entry x r))))"
  by (auto elim!: row_okE simp: row_entry_def)

lemma row_entry_new:
  "serde_ok x \<Longrightarrow> to_json x p = Ok json \<Longrightarrow> row_entry x (premint_row x p json now) =
    \<lparr>en_premint = p, en_seen = False, en_uri = md_uri (metadata x p),
     en_signer = addr_checksum x (md_signer (metadata x p))\<rparr>"
  by (simp add: row_entry_def decode_row_def premint_row_def Let_def from_to_json)

lemma row_entry_updated:
  "serde_ok x \<Longrightarrow> to_json x p = Ok json \<Longrightarrow>
    row_entry x (r\<lparr>r_version := v, r_json := json\<rparr>) = (row_entry x r)\<lparr>en_premint := p\<rparr>"
  by (simp add: row_entry_def decode_row_def from_to_json)

lemma row_entry_seen: "row_entry x (r\<lparr>r_seen_on_chain := b\<rparr>) = (row_entry x r)\<lparr>en_seen := b\<rparr>"
  by (simp add: row_entry_def decode_row_def)

lemma view_Some:
  assumes "store_ok x s" "view x s k = Some e"
  obtains r where "r \<in> set (db_rows (st_db s))" "row_ok x r" "row_key r = k" "e = row_entry x r"
    "find_row (db_rows (st_db s)) k = Some r"
  using assms by (auto simp: view_def store_ok_def db_ok_def dest: find_row_Some)

lemma view_row:
  assumes "store_ok x s" "r \<in> set (db_rows (st_db s))"
  shows "view x s (row_key r) = Some (row_entry x r)"
  using assms by (simp add: view_def store_ok_def db_ok_def find_row_unique)

lemma view_key: "store_ok x s \<Longrightarrow> view x s k = Some e \<Longrightarrow> premint_key x (en_premint e) = k"
  by (erule view_Some, assumption) (auto simp: row_entry_premint(2))

lemma ran_view:
  assumes "store_ok x s"
  shows "ran (view x s) = row_entry x ` set (db_rows (st_db s))"
proof
  show "ran (view x s) \<subseteq> row_entry x ` set (db_rows (st_db s))"
    by (auto simp: ran_def view_def dest: find_row_Some)
  show "row_entry x ` set (db_rows (st_db s)) \<subseteq> ran (view x s)"
    by (auto dest: view_row [OF assms] intro: ranI)
qed

section \<open>Storing refines the abstract store\<close>

lemma db_execute_up:
  "db_fault db = None \<Longrightarrow> db_execute db stmt = (Ok (fst (stmt (db_rows db))), db\<lparr>db_rows := snd (stmt (db_rows db))\<rparr>)"
  by (simp add: db_execute_def split_beta Let_def)

lemma db_execute_down: "db_fault db = Some e \<Longrightarrow> db_execute db stmt = (Err (SqlxOther e), db)"
  by (simp add: db_execute_def)

lemma store_up:
  assumes "db_up s" "to_json x p = Ok json"
  shows "store x s p =
    (let row = premint_row x p json (db_clock (st_db s)); (n, rs) = sql_upsert row (db_rows (st_db s))
     in (if n = 0 then Err (Eyre ''Cannot store premint with lower version than existing'') else Ok (),
         s\<lparr>st_db := (st_db s)\<lparr>db_rows := rs\<rparr>\<rparr>))"
  using assms by (simp add: store_def db_up_def db_execute_up split_beta Let_def)

lemma accepts_row:
  assumes "store_ok x s"
  shows "spec_accepts x (view x s) p \<longleftrightarrow>
    (case find_row (db_rows (st_db s)) (premint_key x p) of
       None \<Rightarrow> True | Some r \<Rightarrow> version_of x p > r_version r)"
proof (cases "find_row (db_rows (st_db s)) (premint_key x p)")
  case None
  then show ?thesis by (simp add: spec_accepts_def view_def)
next
  case (Some r)
  then have "row_ok x r" using assms find_row_Some by (auto simp: store_ok_def db_ok_def)
  with Some show ?thesis by (simp add: spec_accepts_def view_def row_entry_premint(3))
qed

lemma store_result:
  assumes "serde_ok x" "store_ok x s" "db_up s"
  shows "fst (store x s p) =
    (if spec_accepts x (view x s) p then Ok ()
     else Err (Eyre ''Cannot store premint with lower version than existing''))"
proof -
  obtain json where "to_json x p = Ok json" using json_round_trip [OF assms(1)] by blast
  then show ?thesis
    using assms by (simp add: store_up Let_def split_beta upsert_affected accepts_row split: option.splits)
qed

lemma store_view:
  assumes "serde_ok x" "store_ok x s" "db_up s"
  shows "view x (snd (store x s p)) =
    (if spec_accepts x (view x s) p then spec_put x p (view x s) else view x s)"
proof
  fix k
  obtain json where j: "to_json x p = Ok json" using json_round_trip [OF assms(1)] by blast
  show "view x (snd (store x s p)) k =
    (if spec_accepts x (view x s) p then spec_put x p (view x s) else view x s) k"
    using assms j
    by (simp add: store_up Let_def split_beta view_def upsert_find accepts_row spec_put_def
        row_entry_new row_entry_updated split: option.splits)
qed

lemma store_keeps_ok:
  assumes "addr_text_ok x" "serde_ok x" "store_ok x s"
  shows "store_ok x (snd (store x s p))"
proof (cases "db_fault (st_db s)")
  case (Some e)
  then show ?thesis using assms(3)
    by (auto simp: store_def db_execute_down split: sum.splits)
next
  case None
  obtain json where j: "to_json x p = Ok json" using json_round_trip [OF assms(2)] by blast
  let ?e = "premint_row x p json (db_clock (st_db s))"
  let ?rs = "snd (sql_upsert ?e (db_rows (st_db s)))"
  have "row_ok x r" if "r \<in> set ?rs" for r
    using upsert_set [OF that] assms j
    by (auto simp: store_ok_def db_ok_def premint_row_ok intro: updated_row_ok)
  moreover have "distinct (map row_key ?rs)"
    using assms(3) by (simp add: store_ok_def db_ok_def upsert_distinct)
  ultimately show ?thesis
    using None j assms(3)
    by (simp add: store_up db_up_def Let_def split_beta store_ok_def db_ok_def scan_ok_def)
qed

lemma store_error_unchanged: "fst (store x s p) = Err e \<Longrightarrow> snd (store x s p) = s"
proof (cases "to_json x p")
  case (Inr json)
  assume err: "fst (store x s p) = Err e"
  show ?thesis
  proof (cases "db_fault (st_db s)")
    case None
    with Inr err show ?thesis
      by (simp add: store_up db_up_def Let_def split_beta upsert_unaffected split: if_splits)
  qed (simp add: store_def Inr db_execute_down)
qed (simp add: store_def)

lemma store_down: "\<not> db_up s \<Longrightarrow> \<exists>e. fst (store x s p) = Err e"
  by (auto simp: store_def db_up_def db_execute_down split: sum.splits)

lemma store_frame:
  "st_prune_minted_premints (snd (store x s p)) = st_prune_minted_premints s"
  "db_fault (st_db (snd (store x s p))) = db_fault (st_db s)"
  by (auto simp: store_def db_execute_def split_beta split: sum.splits option.splits)

lemma store_frame_up [simp]: "db_up (snd (store x s p)) \<longleftrightarrow> db_up s"
  by (simp add: db_up_def store_frame)

section \<open>Marking refines the abstract store\<close>

lemma mark_up:
  assumes "db_up s"
  shows "mark_seen_on_chain x s claim =
    (Ok (), s\<lparr>st_db := (st_db s)\<lparr>db_rows := snd
      ((if st_prune_minted_premints s then sql_delete else sql_mark_seen)
        (claim_matches (cl_premint_id claim) (as_i64 (cl_chain_id claim)) (cl_kind claim))
        (db_rows (st_db s)))\<rparr>\<rparr>)"
  using assms by (simp add: mark_seen_on_chain_def db_up_def db_execute_up Let_def)

lemma mark_down:
  "\<not> db_up s \<Longrightarrow> \<exists>e. mark_seen_on_chain x s claim = (Err e, s)"
  by (auto simp: mark_seen_on_chain_def db_up_def db_execute_down Let_def)

lemma claim_matches_row:
  assumes "row_ok x r"
  shows "claim_matches (cl_premint_id claim) (as_i64 (cl_chain_id claim)) (cl_kind claim) r \<longleftrightarrow>
    claims_entry x claim (row_key r) (row_entry x r)"
  using row_entry_premint(4) [OF assms]
  by (auto simp: claim_matches_def claims_entry_def row_key_def)

lemma mark_view:
  assumes "store_ok x s" "db_up s"
  shows "view x (snd (mark_seen_on_chain x s claim)) =
    spec_mark x (st_prune_minted_premints s) claim (view x s)"
proof
  fix k
  let ?rs = "db_rows (st_db s)"
  have d: "distinct (map row_key ?rs)" using assms(1) by (simp add: store_ok_def db_ok_def)
  have m: "claim_matches (cl_premint_id claim) (as_i64 (cl_chain_id claim)) (cl_kind claim) r \<longleftrightarrow>
      claims_entry x claim k (row_entry x r)" if "find_row ?rs k = Some r" for r
    using find_row_Some [OF that] assms(1) claim_matches_row [of x r claim]
    by (auto simp: store_ok_def db_ok_def)
  show "view x (snd (mark_seen_on_chain x s claim)) k =
    spec_mark x (st_prune_minted_premints s) claim (view x s) k"
    using assms(2) d m
    by (cases "find_row ?rs k")
      (simp_all add: mark_up view_def spec_mark_def delete_find mark_seen_find row_entry_seen)
qed

lemma row_ok_seen: "row_ok x (r\<lparr>r_seen_on_chain := b\<rparr>) = row_ok x r"
  by (simp add: row_ok_def decode_row_def split: sum.split)

lemma mark_keeps_ok:
  assumes "store_ok x s"
  shows "store_ok x (snd (mark_seen_on_chain x s claim))"
proof (cases "db_up s")
  case True
  let ?P = "claim_matches (cl_premint_id claim) (as_i64 (cl_chain_id claim)) (cl_kind claim)"
  let ?rs = "db_rows (st_db s)"
  have "distinct (map row_key (snd (sql_delete ?P ?rs)))" "distinct (map row_key (snd (sql_mark_seen ?P ?rs)))"
    using assms by (simp_all add: store_ok_def db_ok_def sql_delete_def mark_seen_keys distinct_map_filter)
  with True assms show ?thesis
    by (auto simp: mark_up store_ok_def db_ok_def scan_ok_def sql_delete_def sql_mark_seen_def row_ok_seen)
next
  case False
  with mark_down [OF False] assms show ?thesis by (metis snd_conv)
qed

lemma mark_frame:
  "st_prune_minted_premints (snd (mark_seen_on_chain x s claim)) = st_prune_minted_premints s"
  "db_fault (st_db (snd (mark_seen_on_chain x s claim))) = db_fault (st_db s)"
  by (auto simp: mark_seen_on_chain_def db_execute_def split_beta Let_def split: option.splits)

section \<open>Reading refines the abstract store\<close>

lemma fetch_up: "db_fault db = None \<Longrightarrow> fetch_premint x db P =
    (case db_scan db (filter P (db_rows db)) of
       [] \<Rightarrow> Err (Sqlx RowNotFound) | r # _ \<Rightarrow> decode_row x r)"
  by (simp add: fetch_premint_def db_fetch_one_def db_fetch_all_def split: list.splits)

lemma fetch_down: "db_fault db = Some e \<Longrightarrow> fetch_premint x db P = Err (Sqlx (SqlxOther e))"
  by (simp add: fetch_premint_def db_fetch_one_def db_fetch_all_def)

lemma get_view:
  assumes "store_ok x s" "db_up s"
  shows "get_for_id_and_kind x (st_db s) i k =
    (case view x s (name_of k, i) of
       None \<Rightarrow> Err (Sqlx RowNotFound) | Some e \<Rightarrow> Ok (en_premint e))"
proof -
  from assms have ok: "scan_ok (st_db s)" "distinct (map row_key (db_rows (st_db s)))"
    "\<And>r. r \<in> set (db_rows (st_db s)) \<Longrightarrow> row_ok x r" "db_fault (st_db s) = None"
    by (auto simp: store_ok_def db_ok_def db_up_def)
  show ?thesis
  proof (cases "find_row (db_rows (st_db s)) (name_of k, i)")
    case None
    with ok show ?thesis
      by (simp add: get_for_id_and_kind_def fetch_up filter_id_kind filter_key scan_Nil view_def)
  next
    case (Some r)
    with ok(3) have "row_ok x r" by (blast dest: find_row_Some)
    with ok Some show ?thesis
      by (simp add: get_for_id_and_kind_def fetch_up filter_id_kind filter_key scan_singleton
          view_def row_entry_premint(1))
  qed
qed

lemma uri_view:
  assumes "store_ok x s" "db_up s"
  shows "case get_for_token_uri x s u of
      Inr p \<Rightarrow> \<exists>e\<in>ran (view x s). en_uri e = u \<and> en_premint e = p
    | Inl r \<Rightarrow> r = Sqlx RowNotFound \<and> (\<forall>e\<in>ran (view x s). en_uri e \<noteq> u)"
proof -
  let ?rs = "filter (\<lambda>r. r_token_uri r = u) (db_rows (st_db s))"
  have ok: "scan_ok (st_db s)" "db_fault (st_db s) = None"
    using assms by (auto simp: store_ok_def db_ok_def db_up_def)
  show ?thesis
  proof (cases "db_scan (st_db s) ?rs")
    case Nil
    with scan_set [OF ok(1), of ?rs] have "filter (\<lambda>r. r_token_uri r = u) (db_rows (st_db s)) = []"
      by simp
    with Nil ok show ?thesis
      by (simp add: get_for_token_uri_def fetch_up filter_empty_conv ran_view [OF assms(1)])
  next
    case (Cons r rs)
    with scan_set [OF ok(1), of ?rs] have r: "r \<in> set ?rs" by (metis list.set_intros(1))
    with assms(1) have "row_ok x r" by (simp add: store_ok_def db_ok_def)
    with Cons ok r show ?thesis
      by (auto simp: get_for_token_uri_def fetch_up row_entry_premint(1) ran_view [OF assms(1)])
  qed
qed

lemma decode_rows_ok:
  "(\<And>r. r \<in> set rs \<Longrightarrow> row_ok x r) \<Longrightarrow>
    decode_rows x rs = map (\<lambda>r. en_premint (row_entry x r)) rs"
  by (induction rs) (simp_all add: decode_rows_def row_entry_premint(1) List.map_filter_def)

lemma decode_distinct:
  assumes "distinct (map row_key rs)" "\<And>r. r \<in> set rs \<Longrightarrow> row_ok x r"
  shows "distinct (map (\<lambda>r. en_premint (row_entry x r)) rs)"
  using assms by (auto simp: distinct_map inj_on_def) (metis row_entry_premint(2))

lemma query_view:
  assumes "store_ok x s" "db_up s" "list_all (\<lambda>r. P r \<longleftrightarrow> Q (row_entry x r)) (db_rows (st_db s))"
  shows "\<exists>ps. map_err f (db_fetch_all (st_db s) P) = Ok ps \<and> distinct (decode_rows x ps) \<and>
    set (decode_rows x ps) = {en_premint e |e. e \<in> ran (view x s) \<and> Q e}"
proof -
  let ?rs = "db_scan (st_db s) (filter P (db_rows (st_db s)))"
  have ok: "scan_ok (st_db s)" "distinct (map row_key (db_rows (st_db s)))"
    "\<And>r. r \<in> set (db_rows (st_db s)) \<Longrightarrow> row_ok x r" "db_fault (st_db s) = None"
    using assms by (auto simp: store_ok_def db_ok_def db_up_def)
  have set: "set ?rs = {r \<in> set (db_rows (st_db s)). P r}" using scan_set [OF ok(1)] by simp
  have "mset (map row_key ?rs) = mset (map row_key (filter P (db_rows (st_db s))))"
    using ok(1) by (simp add: scan_ok_def)
  then have d: "distinct (map row_key ?rs)"
    using ok(2) by (metis distinct_map_filter mset_eq_imp_distinct_iff)
  have dec: "decode_rows x ?rs = map (\<lambda>r. en_premint (row_entry x r)) ?rs"
    using set ok(3) by (intro decode_rows_ok) blast
  have "set (decode_rows x ?rs) = {en_premint e |e. e \<in> ran (view x s) \<and> Q e}"
    using assms(3) set
    by (auto simp: dec list_all_iff ran_view [OF assms(1)])
  moreover have "distinct (decode_rows x ?rs)"
    unfolding dec using d set ok(3) by (intro decode_distinct) blast+
  ultimately show ?thesis
    using ok(4) by (simp add: db_fetch_all_def)
qed

lemma list_view:
  assumes "store_ok x s" "db_up s"
  shows "\<exists>ps. list_all_premints x (st_db s) = Ok ps \<and> distinct ps \<and>
    set ps = {en_premint e |e. e \<in> ran (view x s) \<and> \<not> en_seen e}"
  using query_view [OF assms, of "\<lambda>r. \<not> r_seen_on_chain r" "\<lambda>e. \<not> en_seen e" "list_failure x"]
  by (auto simp: list_all_premints_def list_all_iff split: sum.splits)

end
