(* ===== verification/StoreContract.thy ===== *)
theory StoreContract
  imports StorageSpec
begin

text \<open>
  The interfaces of the store. \<open>reader_contract\<close> is what a client of the \<open>Reader\<close> trait may
  rely on, \<open>writer_contract\<close> what a client of the \<open>Writer\<close> trait may rely on besides; both
  are interpreted on \<open>PremintStorage\<close>. The properties of the store follow.
\<close>

section \<open>The Reader trait\<close>

locale reader_contract =
  fixes x :: ext
    and rd :: "'s reader"
    and entries :: "'s \<Rightarrow> entries"
    and good :: "'s \<Rightarrow> bool"
    and up :: "'s \<Rightarrow> bool"
  assumes entry_key: "good s \<Longrightarrow> entries s k = Some e \<Longrightarrow> premint_key x (en_premint e) = k"
    and get_law: "good s \<Longrightarrow> up s \<Longrightarrow> rd_get_for_id_and_kind rd s i n =
      (case entries s (name_of n, i) of
         None \<Rightarrow> Err (Sqlx RowNotFound) | Some e \<Rightarrow> Ok (en_premint e))"
    and get_down: "\<not> up s \<Longrightarrow> \<exists>m. rd_get_for_id_and_kind rd s i n = Err (Sqlx (SqlxOther m))"
    and uri_law: "good s \<Longrightarrow> up s \<Longrightarrow>
      (case rd_get_for_token_uri rd s u of
         Inr p \<Rightarrow> \<exists>e\<in>ran (entries s). en_uri e = u \<and> en_premint e = p
       | Inl r \<Rightarrow> r = Sqlx RowNotFound \<and> (\<forall>e\<in>ran (entries s). en_uri e \<noteq> u))"
    and uri_down: "\<not> up s \<Longrightarrow> \<exists>m. rd_get_for_token_uri rd s u = Err (Sqlx (SqlxOther m))"
    and list_law: "good s \<Longrightarrow> up s \<Longrightarrow> \<exists>ps. rd_list_all rd s = Ok ps \<and> distinct ps \<and>
      set ps = {en_premint e |e. e \<in> ran (entries s) \<and> \<not> en_seen e}"
begin

lemma get_Ok:
  assumes "good s" "rd_get_for_id_and_kind rd s i n = Ok p"
  shows "\<exists>e. entries s (name_of n, i) = Some e \<and> en_premint e = p"
  using assms get_law [of s i n] get_down [of s i n]
  by (cases "up s") (auto split: option.splits)

lemma get_key: "good s \<Longrightarrow> rd_get_for_id_and_kind rd s i n = Ok p \<Longrightarrow> premint_key x p = (name_of n, i)"
  using get_Ok entry_key by blast

lemma get_not_found:
  "good s \<Longrightarrow> rd_get_for_id_and_kind rd s i n = Err (Sqlx RowNotFound) \<longleftrightarrow>
    up s \<and> entries s (name_of n, i) = None"
  using get_law [of s i n] get_down [of s i n] by (cases "up s") (auto split: option.splits)

lemma get_error:
  assumes "good s" "rd_get_for_id_and_kind rd s i n = Err r" "r \<noteq> Sqlx RowNotFound"
  shows "\<not> up s" "\<exists>m. r = Sqlx (SqlxOther m)"
  using assms get_law [of s i n] get_down [of s i n]
  by (cases "up s"; auto split: option.splits)+

lemma listed_is_stored:
  "good s \<Longrightarrow> rd_list_all rd s = Ok ps \<Longrightarrow> up s \<Longrightarrow> p \<in> set ps \<Longrightarrow>
    rd_get_for_id_and_kind rd s (md_id (metadata x p)) (md_kind (metadata x p)) = Ok p"
  using list_law [of s] entry_key [of s] get_law [of s]
  by (fastforce simp: ran_def premint_key_def)

end

section \<open>The Writer trait\<close>

locale writer_contract = reader_contract x rd entries good up
  for x :: ext and rd :: "'s reader" and entries :: "'s \<Rightarrow> entries"
    and good :: "'s \<Rightarrow> bool" and up :: "'s \<Rightarrow> bool" +
  fixes put :: "'s \<Rightarrow> premint_types \<Rightarrow> (unit, report) result \<times> 's"
    and mark :: "'s \<Rightarrow> inclusion_claim \<Rightarrow> (unit, report) result \<times> 's"
    and prunes :: "'s \<Rightarrow> bool"
  assumes put_good: "good s \<Longrightarrow> good (snd (put s p))"
    and mark_good: "good s \<Longrightarrow> good (snd (mark s c))"
    and put_up: "up (snd (put s p)) \<longleftrightarrow> up s"
    and mark_up': "up (snd (mark s c)) \<longleftrightarrow> up s"
    and put_prunes: "prunes (snd (put s p)) \<longleftrightarrow> prunes s"
    and mark_prunes: "prunes (snd (mark s c)) \<longleftrightarrow> prunes s"
    and put_law: "good s \<Longrightarrow> up s \<Longrightarrow> fst (put s p) = Ok () \<longleftrightarrow> spec_accepts x (entries s) p"
    and put_Ok: "good s \<Longrightarrow> fst (put s p) = Ok () \<Longrightarrow> up s \<and> entries (snd (put s p)) = spec_put x p (entries s)"
    and put_Err: "fst (put s p) = Err r \<Longrightarrow> snd (put s p) = s"
    and mark_law: "good s \<Longrightarrow> up s \<Longrightarrow> fst (mark s c) = Ok () \<and>
      entries (snd (mark s c)) = spec_mark x (prunes s) c (entries s)"
    and mark_Err: "\<not> up s \<Longrightarrow> snd (mark s c) = s \<and> (\<exists>r. fst (mark s c) = Err r)"
begin

lemma put_get:
  assumes "good s" "fst (put s p) = Ok ()"
  shows "rd_get_for_id_and_kind rd (snd (put s p)) (md_id (metadata x p)) (md_kind (metadata x p)) = Ok p"
  using assms put_Ok [OF assms] put_good [OF assms(1), of p] get_law put_up
  by (auto simp: spec_put_def premint_key_def split: option.splits)

lemma put_other:
  assumes "good s" "k \<noteq> premint_key x p"
  shows "entries (snd (put s p)) k = entries s k"
proof (cases "fst (put s p)")
  case (Inl r)
  then show ?thesis by (simp add: put_Err)
next
  case (Inr u)
  with assms show ?thesis using put_Ok [of s p] by (simp add: spec_put_def)
qed

text \<open>One write never loses an entry and never lowers its version.\<close>

lemma put_mono:
  assumes "good s" "entries s k = Some e"
  shows "\<exists>e'. entries (snd (put s p)) k = Some e' \<and>
    version_of x (en_premint e) \<le> version_of x (en_premint e') \<and> en_seen e' = en_seen e"
proof (cases "fst (put s p)")
  case (Inl r)
  then show ?thesis using assms(2) by (simp add: put_Err)
next
  case (Inr u)
  then have ok: "fst (put s p) = Ok ()" by simp
  from put_law [OF assms(1), of p] put_Ok [OF assms(1) ok] ok
  have "spec_accepts x (entries s) p" "entries (snd (put s p)) = spec_put x p (entries s)"
    by auto
  with assms(2) show ?thesis
    by (cases "k = premint_key x p") (auto simp: spec_put_def spec_accepts_def)
qed

lemma mark_mono:
  assumes "good s" "entries s k = Some e" "\<not> prunes s"
  shows "\<exists>e'. entries (snd (mark s c)) k = Some e' \<and> en_premint e' = en_premint e \<and>
    (en_seen e \<longrightarrow> en_seen e')"
  using assms mark_law [of s c] mark_Err [of s c]
  by (cases "up s") (auto simp: spec_mark_def)

lemma mark_hides:
  assumes "good s" "up s" "rd_list_all rd (snd (mark s c)) = Ok ps" "p \<in> set ps"
  shows "\<not> (premint_key x p = (cl_kind c, cl_premint_id c) \<and> md_chain_id (metadata x p) = cl_chain_id c)"
proof -
  from assms list_law [OF mark_good [OF assms(1)], of c] mark_up'
  obtain e k where e: "entries (snd (mark s c)) k = Some e" "\<not> en_seen e" "p = en_premint e"
    by (auto simp: ran_def)
  from entry_key [OF mark_good [OF assms(1)] e(1)] e(3) have "premint_key x p = k" by simp
  with e mark_law [OF assms(1,2), of c] show ?thesis
    by (auto simp: spec_mark_def claims_entry_def split: option.splits if_splits)
qed

end

section \<open>The store provides both\<close>

definition good_store :: "ext \<Rightarrow> premint_storage \<Rightarrow> bool" where
  "good_store x s \<longleftrightarrow> addr_text_ok x \<and> serde_ok x \<and> store_ok x s"

interpretation db: reader_contract x "storage_reader x" "view x" "good_store x" db_up for x
proof unfold_locales
  fix s i n assume "\<not> db_up s"
  then show "\<exists>m. rd_get_for_id_and_kind (storage_reader x) s i n = Err (Sqlx (SqlxOther m))"
    by (auto simp: db_up_def storage_reader_def get_for_id_and_kind_def fetch_down)
next
  fix s u assume "\<not> db_up s"
  then show "\<exists>m. rd_get_for_token_uri (storage_reader x) s u = Err (Sqlx (SqlxOther m))"
    by (auto simp: db_up_def storage_reader_def get_for_token_uri_def fetch_down)
qed (simp_all add: good_store_def storage_reader_def get_view uri_view list_view, blast intro: view_key)

interpretation db: writer_contract x "storage_reader x" "view x" "good_store x" db_up
  "store x" "mark_seen_on_chain x" st_prune_minted_premints for x
proof unfold_locales
  fix s p assume s: "good_store x s" and ok: "fst (store x s p) = Ok ()"
  then have "db_up s" using store_down [of s x p] by auto
  with s ok store_view [of x s p] store_result [of x s p]
  show "db_up s \<and> view x (snd (store x s p)) = spec_put x p (view x s)"
    by (auto simp: good_store_def split: if_splits)
next
  fix s c assume s: "good_store x s" "db_up s"
  then have "view x (snd (mark_seen_on_chain x s c)) = spec_mark x (st_prune_minted_premints s) c (view x s)"
    by (intro mark_view) (simp_all add: good_store_def)
  with s show "fst (mark_seen_on_chain x s c) = Ok () \<and>
    view x (snd (mark_seen_on_chain x s c)) = spec_mark x (st_prune_minted_premints s) c (view x s)"
    by (simp add: mark_up)
next
  fix s c assume "\<not> db_up s"
  then show "snd (mark_seen_on_chain x s c) = s \<and> (\<exists>r. fst (mark_seen_on_chain x s c) = Err r)"
    using mark_down [of s x c] by auto
qed (auto simp: good_store_def store_keeps_ok mark_keeps_ok store_frame mark_frame store_result
    db_up_def intro: store_error_unchanged)

end
