(* ===== verification/StoreProps.thy ===== *)
theory StoreProps
  imports StoreContract
begin

text \<open>
  The properties of the premint store: invariant, refinement, reading what was written,
  monotone versions, marking and queries; and the columns an update leaves behind.
\<close>

section \<open>A store to evaluate\<close>

definition sample_pool :: pool where
  "sample_pool = \<lparr>db_rows = [], db_fault = None, db_clock = ''2024-06-01 12:00:00'', db_scan = (\<lambda>rs. rs)\<rparr>"

definition sample_store :: "bool \<Rightarrow> premint_storage" where
  "sample_store prune = \<lparr>st_db = sample_pool, st_prune_minted_premints = prune\<rparr>"

lemma sample_good [simp]: "good_store sample_ext (sample_store b)"
  by (simp add: good_store_def store_ok_def db_ok_def scan_ok_def sample_store_def sample_pool_def)

lemma sample_up [simp]: "db_up (sample_store b)"
  by (simp add: db_up_def sample_store_def sample_pool_def)

lemma sample_view [simp]: "view sample_ext (sample_store b) = Map.empty"
  by (rule ext) (simp add: view_def sample_store_def sample_pool_def)

definition simple_v :: "u64 \<Rightarrow> string \<Rightarrow> premint_types" where
  "simple_v v uri = Simple (simple_premint_default\<lparr>sp_version := v, sp_media := uri\<rparr>)"

definition simple_key :: "ext \<Rightarrow> string \<times> string" where
  "simple_key x = (''simple'', md_id (simple_metadata x simple_premint_default))"

lemma simple_v_metadata [simp]:
  "premint_key x (simple_v v uri) = simple_key x"
  "version_of x (simple_v v uri) = as_i64 v"
  "md_uri (metadata x (simple_v v uri)) = uri"
  "md_version (metadata x (simple_v v uri)) = v"
  by (simp_all add: simple_v_def premint_key_def version_of_def simple_metadata_def simple_key_def
      default_defs)

text \<open>The store after one premint.\<close>

definition sample_one :: "bool \<Rightarrow> premint_storage" where
  "sample_one prune = snd (store sample_ext (sample_store prune) (simple_v 1 ''a''))"

definition sample_entry :: "premint_types \<Rightarrow> string \<Rightarrow> entry" where
  "sample_entry p uri = \<lparr>en_premint = p, en_seen = False, en_uri = uri,
     en_signer = addr_checksum sample_ext (md_signer (metadata sample_ext p))\<rparr>"

lemma sample_one_stored: "fst (store sample_ext (sample_store b) (simple_v 1 ''a'')) = Ok ()"
  by (simp add: db.put_law spec_accepts_def)

lemma sample_one_good [simp]: "good_store sample_ext (sample_one b)" "db_up (sample_one b)"
    "st_prune_minted_premints (sample_one b) = b"
  by (simp_all only: sample_one_def db.put_good sample_good db.put_up sample_up store_frame)
    (simp add: sample_store_def)

lemma sample_one_view [simp]:
  "view sample_ext (sample_one b) = [simple_key sample_ext \<mapsto> sample_entry (simple_v 1 ''a'') ''a'']"
  using db.put_Ok [OF sample_good sample_one_stored, of b]
  by (simp add: sample_one_def spec_put_def sample_entry_def)

lemma sample_entry_sel [simp]:
  "en_premint (sample_entry p u) = p" "en_seen (sample_entry p u) = False"
  "en_uri (sample_entry p u) = u"
  by (simp_all add: sample_entry_def)

section \<open>Sequences of writes\<close>

datatype db_op = StoreOp premint_types | MarkOp inclusion_claim

fun db_step :: "ext \<Rightarrow> premint_storage \<Rightarrow> db_op \<Rightarrow> premint_storage" where
  "db_step x s (StoreOp p) = snd (store x s p)"
| "db_step x s (MarkOp c) = snd (mark_seen_on_chain x s c)"

fun run_db :: "ext \<Rightarrow> premint_storage \<Rightarrow> db_op list \<Rightarrow> premint_storage" where
  "run_db x s [] = s"
| "run_db x s (w # ws) = run_db x (db_step x s w) ws"

lemma db_step_good: "good_store x s \<Longrightarrow> good_store x (db_step x s w)"
  by (cases w) (simp_all add: db.put_good db.mark_good)

lemma db_step_prunes: "st_prune_minted_premints (db_step x s w) = st_prune_minted_premints s"
  by (cases w) (simp_all add: store_frame mark_frame)

lemma run_db_good: "good_store x s \<Longrightarrow> good_store x (run_db x s ws)"
  by (induction ws arbitrary: s) (simp_all add: db_step_good)

text \<open>
  C17. Whatever sequence of writes the store receives, and whichever of them fail, the table
  keeps its invariant: keys are unique, every row parses, and the key, version, chain and
  collection columns of a row are those of the premint in its JSON.
\<close>

theorem table_invariant:
  assumes "addr_text_ok x" "serde_ok x" "db_ok x (st_db s)"
  shows "db_ok x (st_db (run_db x s ws))"
  using run_db_good [of x s ws] assms by (simp add: good_store_def store_ok_def)

theorem table_invariant_witness:
  "db_ok sample_ext (st_db (run_db sample_ext (sample_store True)
     [StoreOp (simple_v 1 ''a''), StoreOp (simple_v 2 ''b'')]))"
  by (rule table_invariant)
    (simp_all add: db_ok_def scan_ok_def sample_store_def sample_pool_def)

text \<open>
  C2. Storing implements the abstract store: a premint is accepted exactly when its kind and
  identifier are new or its version is higher than the stored one, in which case it replaces
  the stored premint under its key, and nothing changes otherwise.
\<close>

theorem store_refines:
  assumes "addr_text_ok x" "serde_ok x" "store_ok x s" "db_up s"
  shows "(fst (store x s p) = Ok () \<longleftrightarrow> spec_accepts x (view x s) p) \<and>
    view x (snd (store x s p)) =
      (if spec_accepts x (view x s) p then spec_put x p (view x s) else view x s)"
  using assms db.put_law [of x s p] by (simp_all add: good_store_def store_view)

theorem store_refines_witness:
  "fst (store sample_ext (sample_store True) (simple_v 1 ''a'')) = Ok () \<and>
   view sample_ext (snd (store sample_ext (sample_store True) (simple_v 1 ''a''))) =
     spec_put sample_ext (simple_v 1 ''a'') Map.empty"
proof -
  have h: "addr_text_ok sample_ext" "serde_ok sample_ext" "store_ok sample_ext (sample_store True)"
    "db_up (sample_store True)"
    using sample_good [of True] by (simp_all add: good_store_def)
  show ?thesis
    using store_refines [OF h, of "simple_v 1 ''a''"] by (simp add: spec_accepts_def)
qed

section \<open>Marking\<close>

text \<open>
  C28. After a claim was recorded, with or without pruning, the listing is the one before less
  the claimed premint, and no other premint is affected.
\<close>

theorem marked_premints_disappear:
  assumes "good_store x s" "db_up s" "list_all_premints x (st_db s) = Ok ps"
  shows "\<exists>s' qs. mark_seen_on_chain x s claim = (Ok (), s') \<and> list_all_premints x (st_db s') = Ok qs \<and>
    set qs = {p \<in> set ps. \<not> (premint_key x p = (cl_kind claim, cl_premint_id claim) \<and>
      md_chain_id (metadata x p) = cl_chain_id claim)}"
proof -
  let ?s' = "snd (mark_seen_on_chain x s claim)"
  have law: "fst (mark_seen_on_chain x s claim) = Ok ()"
    "view x ?s' = spec_mark x (st_prune_minted_premints s) claim (view x s)"
    using db.mark_law [OF assms(1,2), of claim] by simp_all
  have good: "good_store x ?s'" and up: "db_up ?s'"
    using db.mark_good [OF assms(1)] db.mark_up' assms(2) by simp_all
  obtain qs where qs: "list_all_premints x (st_db ?s') = Ok qs"
    "set qs = {en_premint e |e. e \<in> ran (view x ?s') \<and> \<not> en_seen e}"
    using db.list_law [OF good up] by (auto simp: storage_reader_def)
  have ps: "set ps = {en_premint e |e. e \<in> ran (view x s) \<and> \<not> en_seen e}"
    using db.list_law [OF assms(1,2)] assms(3) by (auto simp: storage_reader_def)
  have "p \<in> set qs \<longleftrightarrow> p \<in> set ps \<and> \<not> (premint_key x p = (cl_kind claim, cl_premint_id claim) \<and>
      md_chain_id (metadata x p) = cl_chain_id claim)" for p
  proof -
    have "p \<in> set qs \<longleftrightarrow> (\<exists>k e. view x ?s' k = Some e \<and> \<not> en_seen e \<and> en_premint e = p)"
      unfolding qs(2) ran_def by blast
    also have "\<dots> \<longleftrightarrow> (\<exists>k e. view x s k = Some e \<and> \<not> en_seen e \<and> en_premint e = p \<and> \<not> claims_entry x claim k e)"
      unfolding law(2) spec_mark_def by (auto split: option.splits if_splits) (metis option.distinct(1) option.inject)+
    also have "\<dots> \<longleftrightarrow> p \<in> set ps \<and> \<not> (premint_key x p = (cl_kind claim, cl_premint_id claim) \<and>
      md_chain_id (metadata x p) = cl_chain_id claim)"
      unfolding ps ran_def claims_entry_def using db.entry_key [OF assms(1)] by blast
    finally show ?thesis .
  qed
  then have "set qs = {p \<in> set ps. \<not> (premint_key x p = (cl_kind claim, cl_premint_id claim) \<and>
      md_chain_id (metadata x p) = cl_chain_id claim)}" by blast
  with law(1) qs(1) show ?thesis by (metis prod.collapse)
qed

theorem marked_premints_disappear_witness:
  "\<exists>s' qs. mark_seen_on_chain sample_ext (sample_one True)
      \<lparr>cl_premint_id = snd (simple_key sample_ext), cl_chain_id = 0, cl_tx_hash = 7,
       cl_log_index = 0, cl_kind = ''simple''\<rparr> = (Ok (), s') \<and>
    list_all_premints sample_ext (st_db s') = Ok qs \<and> simple_v 1 ''a'' \<notin> set qs"
proof -
  let ?c = "\<lparr>cl_premint_id = snd (simple_key sample_ext), cl_chain_id = 0, cl_tx_hash = 7,
       cl_log_index = 0, cl_kind = ''simple''\<rparr>"
  obtain ps where ps: "list_all_premints sample_ext (st_db (sample_one True)) = Ok ps"
    using list_view [of sample_ext "sample_one True"] sample_one_good(1) [of True]
    by (auto simp: good_store_def)
  have k: "premint_key sample_ext (simple_v 1 ''a'') = (cl_kind ?c, cl_premint_id ?c)"
    "md_chain_id (metadata sample_ext (simple_v 1 ''a'')) = cl_chain_id ?c"
    by (simp_all add: simple_key_def) (simp add: simple_v_def simple_metadata_def default_defs)
  from marked_premints_disappear [OF sample_one_good(1,2) ps, of ?c] k show ?thesis by blast
qed

section \<open>Queries\<close>

lemma query_selects_iff: "query_selects (build_query x o') r \<longleftrightarrow>
    \<not> r_seen_on_chain r \<and>
    (\<forall>k. qo_kind o' = Some k \<longrightarrow> r_kind r = k) \<and>
    (\<forall>c. qo_chain_id o' = Some c \<longrightarrow> r_chain_id r = as_i64 c) \<and>
    (\<forall>a. qo_collection_address o' = Some a \<longrightarrow> r_collection_address r = addr_checksum x a) \<and>
    (\<forall>a. qo_creator_address o' = Some a \<longrightarrow> r_signer r = addr_checksum x a) \<and>
    (\<forall>t. qo_from o' = Some t \<longrightarrow> r_created_at r \<ge> time_text x t) \<and>
    (\<forall>t. qo_to o' = Some t \<longrightarrow> r_created_at r \<le> time_text x t)"
  by (simp add: query_selects_def build_query_def push_cond_def Let_def split: option.splits)

text \<open>
  C29. A query by kind, chain, collection and creator returns, once each, exactly the premints
  not seen on chain whose metadata match; the creator is compared with the signer of the
  version that was stored first.
\<close>

theorem query_selects_matching:
  assumes "good_store x s" "checksum_ok x" "db_up s" "qo_from options = None" "qo_to options = None"
  shows "\<exists>ps. list_all_with_options x (st_db s) options = Ok ps \<and> distinct ps \<and>
    set ps = {en_premint e |e. e \<in> ran (view x s) \<and> \<not> en_seen e \<and>
      (\<forall>k. qo_kind options = Some k \<longrightarrow> md_kind (metadata x (en_premint e)) = PremintName k) \<and>
      (\<forall>c. qo_chain_id options = Some c \<longrightarrow> md_chain_id (metadata x (en_premint e)) = c) \<and>
      (\<forall>a. qo_collection_address options = Some a \<longrightarrow>
        md_collection_address (metadata x (en_premint e)) = a) \<and>
      (\<forall>a. qo_creator_address options = Some a \<longrightarrow> en_signer e = addr_checksum x a)}"
    (is "\<exists>ps. _ \<and> _ \<and> set ps = {en_premint e |e. e \<in> ran (view x s) \<and> ?Q e}")
proof -
  have ok: "store_ok x s" using assms(1) by (simp add: good_store_def)
  have "query_selects (build_query x options) r \<longleftrightarrow> ?Q (row_entry x r)" if "r \<in> set (db_rows (st_db s))" for r
  proof -
    from that ok have "row_ok x r" by (simp add: store_ok_def db_ok_def)
    from row_entry_premint [OF this] row_ok_collection [OF this] show ?thesis
      using assms(2,4,5)
      by (auto simp: query_selects_iff row_key_def premint_key_def premint_name.expand addr_checksum_eq)
  qed
  then have "list_all (\<lambda>r. query_selects (build_query x options) r \<longleftrightarrow> ?Q (row_entry x r)) (db_rows (st_db s))"
    by (simp add: list_all_iff)
  from query_view [OF ok assms(3) this, of "list_failure x"] show ?thesis
    by (auto simp: list_all_with_options_def split: sum.splits)
qed

theorem query_selects_matching_witness:
  "\<exists>ps. list_all_with_options sample_ext (st_db (sample_one True))
      (query_options_default\<lparr>qo_kind := Some ''simple'', qo_chain_id := Some 0\<rparr>) = Ok ps \<and>
    simple_v 1 ''a'' \<in> set ps"
proof -
  let ?o = "query_options_default\<lparr>qo_kind := Some ''simple'', qo_chain_id := Some 0\<rparr>"
  have o: "qo_from ?o = None" "qo_to ?o = None" by (simp_all add: query_options_default_def)
  have md: "md_kind (metadata sample_ext (simple_v 1 ''a'')) = PremintName ''simple''"
    "md_chain_id (metadata sample_ext (simple_v 1 ''a'')) = 0"
    by (simp_all add: simple_v_def simple_metadata_def default_defs)
  from query_selects_matching [OF sample_one_good(1) sample_checksum_ok sample_one_good(2) o] md
  show ?thesis by (fastforce simp: query_options_default_def)
qed

section \<open>What an update leaves behind\<close>

lemma ran_map_upd_subset: "v \<in> ran (m(k \<mapsto> w)) \<Longrightarrow> v = w \<or> v \<in> ran m"
  by (auto simp: ran_def split: if_splits)

lemma update_entry:
  assumes "good_store x s" "view x s (premint_key x q) = Some e" "store x s q = (Ok (), s')"
  shows "view x s' = (view x s)(premint_key x q \<mapsto> e\<lparr>en_premint := q\<rparr>)" "db_up s" "db_up s'"
    "good_store x s'"
proof -
  have ok: "fst (store x s q) = Ok ()" and s': "s' = snd (store x s q)" using assms(3) by simp_all
  show "view x s' = (view x s)(premint_key x q \<mapsto> e\<lparr>en_premint := q\<rparr>)"
    using db.put_Ok [OF assms(1) ok] assms(2) by (simp add: s' spec_put_def)
  show "db_up s" "db_up s'" "good_store x s'"
    using db.put_Ok [OF assms(1) ok] db.put_good [OF assms(1), of q] by (simp_all add: s')
qed

text \<open>
  C32. Updating a premint does not update the token URI column: if no stored token had the
  new version's URI, looking that URI up still finds nothing, so the rule that forbids a second
  token with the same URI does not protect the URI of an updated premint.
\<close>

theorem updated_uri_not_found:
  assumes "good_store x s" "view x s (premint_key x q) = Some e" "store x s q = (Ok (), s')"
    and "get_for_token_uri x s (md_uri (metadata x q)) = Err (Sqlx RowNotFound)"
  shows "get_for_token_uri x s' (md_uri (metadata x q)) = Err (Sqlx RowNotFound)"
proof -
  note upd = update_entry [OF assms(1-3)]
  have "en_uri e' \<noteq> md_uri (metadata x q)" if e': "e' \<in> ran (view x s)" for e'
    using db.uri_law [OF assms(1) upd(2), of "md_uri (metadata x q)"] assms(4) e'
    by (auto simp: storage_reader_def)
  moreover have "e \<in> ran (view x s)" using assms(2) by (rule ranI)
  ultimately have "\<forall>e'\<in>ran (view x s'). en_uri e' \<noteq> md_uri (metadata x q)"
    unfolding upd(1) by (auto dest!: ran_map_upd_subset)
  then show ?thesis
    using db.uri_law [OF upd(4,3), of "md_uri (metadata x q)"]
    by (auto simp: storage_reader_def split: sum.splits)
qed

theorem updated_uri_not_found_witness:
  "get_for_token_uri sample_ext (snd (store sample_ext (sample_one True) (simple_v 2 ''b''))) ''b'' =
    Err (Sqlx RowNotFound)"
proof -
  have two: "as_i64 1 < as_i64 2" by (simp add: as_i64_alt)
  let ?r = "store sample_ext (sample_one True) (simple_v 2 ''b'')"
  have "fst ?r = Ok ()" using two by (simp add: db.put_law spec_accepts_def)
  then have st: "?r = (Ok (), snd ?r)" by (simp add: prod_eq_iff)
  have v: "view sample_ext (sample_one True) (premint_key sample_ext (simple_v 2 ''b'')) =
    Some (sample_entry (simple_v 1 ''a'') ''a'')" by simp
  have "get_for_token_uri sample_ext (sample_one True) ''b'' = Err (Sqlx RowNotFound)"
    using db.uri_law [OF sample_one_good(1,2) [of True], of "''b''"]
    by (auto simp: storage_reader_def split: sum.splits if_splits)
  then have "get_for_token_uri sample_ext (sample_one True) (md_uri (metadata sample_ext (simple_v 2 ''b''))) =
    Err (Sqlx RowNotFound)" by simp
  from updated_uri_not_found [OF sample_one_good(1) v st this] show ?thesis by simp
qed

lemma wrapped_less:
  "uint w < 2 ^ 64 \<Longrightarrow> 0 \<le> uint v \<Longrightarrow> uint v < 2 ^ 63 \<Longrightarrow> 2 ^ 63 \<le> uint w \<Longrightarrow> as_i64 w < as_i64 v"
  unfolding as_i64_alt by (simp only: not_less [symmetric] if_True if_False)

text \<open>
  C33. Versions are compared as \<open>i64\<close>: a version of at least two to the 63, higher as \<open>u64\<close>
  than any smaller stored version, is refused as lower.
\<close>

theorem large_version_refused:
  assumes "good_store x s" "db_up s" "view x s (premint_key x p) = Some e"
    and "uint (md_version (metadata x (en_premint e))) < 2 ^ 63"
    and "uint (md_version (metadata x p)) \<ge> 2 ^ 63"
  shows "md_version (metadata x p) > md_version (metadata x (en_premint e)) \<and>
    fst (store x s p) = Err (Eyre ''Cannot store premint with lower version than existing'')"
proof -
  have "uint (md_version (metadata x p)) < 2 ^ 64"
    using unsigned_less [of "md_version (metadata x p)", where 'a = int] by simp
  moreover have "0 \<le> uint (md_version (metadata x (en_premint e)))" by simp
  ultimately have "version_of x p < version_of x (en_premint e)"
    unfolding version_of_def using assms(4,5) by (intro wrapped_less)
  then have "\<not> spec_accepts x (view x s) p" using assms(3) by (simp add: spec_accepts_def)
  then show ?thesis
    using assms(1,2,4,5) by (simp add: good_store_def store_result word_less_alt)
qed

theorem large_version_refused_witness:
  "fst (store sample_ext (sample_one True) (simple_v 0x8000000000000000 ''a'')) =
    Err (Eyre ''Cannot store premint with lower version than existing'')"
proof -
  have v: "view sample_ext (sample_one True) (premint_key sample_ext (simple_v 0x8000000000000000 ''a'')) =
    Some (sample_entry (simple_v 1 ''a'') ''a'')" by simp
  show ?thesis using large_version_refused [OF sample_one_good(1,2) v] by simp
qed

text \<open>
  SQLite writes \<open>created_at\<close> without a zone, the bounds of a query are written with one: a row
  created at the very second of the lower bound is not selected by it.
\<close>

lemma append_greater: "(s :: string) < s @ c # t"
  by (induction s) simp_all

lemma from_bound_excludes_own_second:
  assumes "time_text x t = d @ '' UTC''" "r_created_at r = d"
  shows "\<not> cond_holds r (CreatedFrom (time_text x t))"
  using assms append_greater [of d "CHR '' ''" "''UTC''"] by simp

end
