(* ===== verification/ChainList.thy ===== *)
theory ChainList
  imports StoreProps
begin

text \<open>
  The list of chains and the connections to them (\<open>src/chain_list.rs\<close>, \<open>data/chains.json\<close>): a
  chain is found by its identifier, its RPC url comes from the environment or is its first web
  socket url, and a connection is made once and then taken from a cache.
\<close>

section \<open>The chains\<close>

record chain =
  ch_name :: string
  ch_chain :: string
  ch_rpc :: "string list"
  ch_chain_id :: u64
  ch_network_id :: int

definition CHAINS_JSON :: "chain list" where
  "CHAINS_JSON =
     [\<lparr>ch_name = ''Zora'', ch_chain = ''ETH'',
       ch_rpc = [''https://rpc.zora.energy/'', ''wss://rpc.zora.energy''],
       ch_chain_id = 7777777, ch_network_id = 7777777\<rparr>,
      \<lparr>ch_name = ''Zora Sepolia Testnet'', ch_chain = ''ETH'',
       ch_rpc = [''https://sepolia.rpc.zora.energy'', ''wss://sepolia.rpc.zora.energy''],
       ch_chain_id = 999999999, ch_network_id = 999999999\<rparr>,
      \<lparr>ch_name = ''Base'', ch_chain = ''ETH'',
       ch_rpc = [''https://mainnet.base.org/'', ''https://developer-access-mainnet.base.org/'',
         ''https://base.gateway.tenderly.co'', ''wss://base.gateway.tenderly.co'',
         ''https://base-rpc.publicnode.com'', ''wss://base-rpc.publicnode.com''],
       ch_chain_id = 8453, ch_network_id = 8453\<rparr>,
      \<lparr>ch_name = ''Arbitrum One'', ch_chain = ''ETH'',
       ch_rpc = [''https://arbitrum-mainnet.infura.io/v3/${INFURA_API_KEY}'',
         ''https://arb-mainnet.g.alchemy.com/v2/${ALCHEMY_API_KEY}'',
         ''https://arb1.arbitrum.io/rpc'', ''https://arbitrum-one.publicnode.com'',
         ''wss://arbitrum-one.publicnode.com''],
       ch_chain_id = 42161, ch_network_id = 42161\<rparr>]"

definition get_chain_by_id :: "u64 \<Rightarrow> chain option" where
  "get_chain_by_id chain_id = find (\<lambda>c. ch_chain_id c = chain_id) CHAINS_JSON"

section \<open>RPC urls\<close>

definition get_rpc_url :: "ext \<Rightarrow> u64 \<Rightarrow> (string, report) result" where
  "get_rpc_url x chain_id =
     (case env_var x (''CHAIN_'' @ show_u64 chain_id @ ''_RPC_WSS'') of
        Some url \<Rightarrow> Ok url
      | None \<Rightarrow>
          (case get_chain_by_id chain_id of
             None \<Rightarrow> Err (Eyre (''Chain id '' @ show_u64 chain_id @ '' not found''))
           | Some chain \<Rightarrow>
               (case find (\<lambda>rpc. starts_with rpc ''ws'') (ch_rpc chain) of
                  Some rpc \<Rightarrow> Ok rpc
                | None \<Rightarrow> Err (Eyre ''No suitable RPC URL found for chain''))))"

text \<open>The regular expression \<open>\$\{(.+?)}\<close>: the dot does not match a newline.\<close>

fun closes :: "string \<Rightarrow> bool" where
  "closes [] = False"
| "closes (c # cs) \<longleftrightarrow> c = CHR ''}'' \<or> (c \<noteq> CHR 0x0A \<and> closes cs)"

fun has_variable :: "string \<Rightarrow> bool" where
  "has_variable [] = False"
| "has_variable (a # s) \<longleftrightarrow>
     (starts_with (a # s) ''${'' \<and>
        (case drop 1 s of [] \<Rightarrow> False | c # cs \<Rightarrow> c \<noteq> CHR 0x0A \<and> closes cs)) \<or>
     has_variable s"

section \<open>Connections\<close>

text \<open>
  The cache maps a url to the connection made to it. An entry that was not used for five
  minutes is dropped, which \<open>cache_expire\<close> does to any set of urls.
\<close>

type_synonym rpc_cache = "string \<Rightarrow> provider option"

definition cache_expire :: "string set \<Rightarrow> rpc_cache \<Rightarrow> rpc_cache" where
  "cache_expire idle cache = cache |` (- idle)"

definition connect :: "ext \<Rightarrow> rpc_cache \<Rightarrow> string \<Rightarrow> (provider, report) result \<times> rpc_cache" where
  "connect x cache url =
     (if has_variable url then (Err (Eyre ''URL contains variables''), cache)
      else (case cache url of
              Some provider \<Rightarrow> (Ok provider, cache)
            | None \<Rightarrow>
                (case ws_connect x url of
                   Inl e \<Rightarrow> (Err (Eyre e), cache)
                 | Inr provider \<Rightarrow> (Ok provider, cache(url \<mapsto> provider)))))"

definition get_rpc :: "ext \<Rightarrow> rpc_cache \<Rightarrow> u64 \<Rightarrow> (provider, report) result \<times> rpc_cache" where
  "get_rpc x cache chain_id =
     (case get_rpc_url x chain_id of
        Inr url \<Rightarrow> connect x cache url
      | Inl e \<Rightarrow> (Err e, cache))"

section \<open>Lemmas\<close>

text \<open>A new connection is a handle on the url it was made to.\<close>

definition connect_ok :: "ext \<Rightarrow> bool" where
  "connect_ok x \<longleftrightarrow> (\<forall>u p. ws_connect x u = Ok p \<longrightarrow> p = WsProvider u)"

definition cache_ok :: "rpc_cache \<Rightarrow> bool" where
  "cache_ok cache \<longleftrightarrow> (\<forall>u p. cache u = Some p \<longrightarrow> p = WsProvider u \<and> \<not> has_variable u)"

lemma cache_ok_empty [simp]: "cache_ok Map.empty"
  by (simp add: cache_ok_def)

lemma cache_ok_expire: "cache_ok cache \<Longrightarrow> cache_ok (cache_expire idle cache)"
  by (auto simp: cache_ok_def cache_expire_def restrict_map_def)

lemma connect_cache_ok: "connect_ok x \<Longrightarrow> cache_ok cache \<Longrightarrow> cache_ok (snd (connect x cache url))"
  by (auto simp: connect_def cache_ok_def connect_ok_def split: option.splits sum.splits)

lemma connect_Ok:
  "connect_ok x \<Longrightarrow> cache_ok cache \<Longrightarrow> fst (connect x cache url) = Ok p \<Longrightarrow>
    p = WsProvider url \<and> snd (connect x cache url) url = Some p \<and> \<not> has_variable url"
  by (auto simp: connect_def cache_ok_def connect_ok_def split: option.splits sum.splits if_splits)

lemma connect_cached: "cache url = Some p \<Longrightarrow> \<not> has_variable url \<Longrightarrow> connect x cache url = (Ok p, cache)"
  by (simp add: connect_def)

lemma get_rpc_cache_ok: "connect_ok x \<Longrightarrow> cache_ok cache \<Longrightarrow> cache_ok (snd (get_rpc x cache c))"
  by (simp add: get_rpc_def connect_cache_ok split: sum.splits)

lemma chain_ids_distinct: "distinct (map ch_chain_id CHAINS_JSON)"
  by (simp add: CHAINS_JSON_def)

lemma get_chain_by_id_Some:
  "get_chain_by_id c = Some ch \<longleftrightarrow> ch \<in> set CHAINS_JSON \<and> ch_chain_id ch = c"
proof
  assume "get_chain_by_id c = Some ch"
  then show "ch \<in> set CHAINS_JSON \<and> ch_chain_id ch = c"
    by (auto simp: get_chain_by_id_def find_Some_iff)
next
  assume r: "ch \<in> set CHAINS_JSON \<and> ch_chain_id ch = c"
  then obtain ch' where f: "get_chain_by_id c = Some ch'"
    by (cases "get_chain_by_id c") (auto simp: get_chain_by_id_def find_None_iff)
  then have "ch' \<in> set CHAINS_JSON" "ch_chain_id ch' = c"
    by (auto simp: get_chain_by_id_def find_Some_iff)
  with r chain_ids_distinct have "ch' = ch" by (metis distinct_map_unique)
  with f show "get_chain_by_id c = Some ch" by simp
qed

lemma every_chain_has_url:
  "get_chain_by_id c = Some ch \<Longrightarrow> \<exists>u\<in>set (ch_rpc ch). get_rpc_url (x\<lparr>env_var := \<lambda>_. None\<rparr>) c = Ok u \<and>
     starts_with u ''ws'' \<and> \<not> has_variable u"
  by (frule get_chain_by_id_Some [THEN iffD1], erule conjE)
    (auto simp: get_rpc_url_def CHAINS_JSON_def starts_with_def)

text \<open>
  The connection a node gets for a chain is a handle on the url configured for exactly
  that chain, whatever the cache holds from earlier calls and whatever entries have expired: the
  override in the environment, else the first web socket url of the chain's entry, never one
  with an unfilled variable.
\<close>

lemma rpc_is_for_the_chain:
  assumes "connect_ok x" "cache_ok cache" "get_rpc x (cache_expire idle cache) c = (Ok p, cache')"
  shows "\<exists>url. get_rpc_url x c = Ok url \<and> p = WsProvider url \<and> \<not> has_variable url \<and>
    cache_ok cache' \<and>
    (env_var x (''CHAIN_'' @ show_u64 c @ ''_RPC_WSS'') = Some url \<or>
     (\<exists>ch\<in>set CHAINS_JSON. ch_chain_id ch = c \<and> url \<in> set (ch_rpc ch) \<and> starts_with url ''ws''))"
proof -
  note cok = cache_ok_expire [OF assms(2), of idle]
  obtain url where url: "get_rpc_url x c = Ok url"
    using assms(3) by (cases "get_rpc_url x c") (simp_all add: get_rpc_def)
  then have c: "fst (connect x (cache_expire idle cache) url) = Ok p"
    using assms(3) by (simp add: get_rpc_def)
  have "env_var x (''CHAIN_'' @ show_u64 c @ ''_RPC_WSS'') = Some url \<or>
     (\<exists>ch\<in>set CHAINS_JSON. ch_chain_id ch = c \<and> url \<in> set (ch_rpc ch) \<and> starts_with url ''ws'')"
    using url by (auto simp: get_rpc_url_def get_chain_by_id_def find_Some_iff split: option.splits)
  moreover have "cache_ok cache'"
    using get_rpc_cache_ok [OF assms(1) cok, of c] assms(3) by simp
  ultimately show ?thesis using connect_Ok [OF assms(1) cok c] url by blast
qed

lemma sample_connect_ok [simp]: "connect_ok sample_ext"
  by (simp add: connect_ok_def sample_ext_def)

end
