(* ===== verification/Config.thy ===== *)
theory Config
  imports ChainList
begin

text \<open>
  The configuration of a node (\<open>src/config.rs\<close>): how it is read from the environment, the parsers
  of its list valued and enumerated settings, and the check that every supported chain is known.
\<close>

section \<open>Settings\<close>

datatype boot_nodes = BootChain | BootCustom "string list" | BootNone

definition boot_nodes_from_str :: "string \<Rightarrow> (boot_nodes, report) result" where
  "boot_nodes_from_str s =
     (let l = to_lowercase s
      in if l = ''chain'' then Ok BootChain
         else if l = ''none'' then Ok BootNone
         else Ok (BootCustom (split_on (CHR '','') s)))"

datatype chain_inclusion_mode = Check | Verify | Trust

definition mode_from_str :: "string \<Rightarrow> (chain_inclusion_mode, report) result" where
  "mode_from_str s =
     (let l = to_lowercase s
      in if l = ''check'' then Ok Check
         else if l = ''verify'' then Ok Verify
         else if l = ''trust'' then Ok Trust
         else Err (Eyre ''Invalid chain inclusion mode''))"

record config =
  cfg_secret :: string
  cfg_peer_port :: u64
  cfg_connect_external :: bool
  cfg_db_url :: "string option"
  cfg_persist_state :: bool
  cfg_prune_minted_premints :: bool
  cfg_api_port :: u64
  cfg_peer_limit :: u64
  cfg_supported_premint_types :: string
  cfg_chain_inclusion_mode :: chain_inclusion_mode
  cfg_supported_chain_ids :: string
  cfg_trusted_peers :: "string option"
  cfg_node_id :: "u64 option"
  cfg_external_address :: "string option"
  cfg_interactive :: bool
  cfg_enable_rpc :: bool
  cfg_admin_api_secret :: "string option"
  cfg_rate_limit_rps :: u32
  cfg_boot_nodes :: boot_nodes
  cfg_sync_lookback_hours :: u64
  cfg_enable_relay_server :: bool

section \<open>Reading the environment\<close>

text \<open>
  What the \<open>Envconfig\<close> attributes stand for: a variable with a default, a required one, and an
  optional one, which may be missing but not malformed. The error is the variable's name.
\<close>

definition env_or :: "ext \<Rightarrow> string \<Rightarrow> string \<Rightarrow> (string \<Rightarrow> 'a option) \<Rightarrow> ('a, string) result" where
  "env_or x name dflt parse =
     (case parse (case env_var x name of None \<Rightarrow> dflt | Some s \<Rightarrow> s) of
        None \<Rightarrow> Err name | Some v \<Rightarrow> Ok v)"

definition env_required :: "ext \<Rightarrow> string \<Rightarrow> (string \<Rightarrow> 'a option) \<Rightarrow> ('a, string) result" where
  "env_required x name parse =
     (case env_var x name of
        None \<Rightarrow> Err name
      | Some s \<Rightarrow> (case parse s of None \<Rightarrow> Err name | Some v \<Rightarrow> Ok v))"

definition env_optional :: "ext \<Rightarrow> string \<Rightarrow> (string \<Rightarrow> 'a option) \<Rightarrow> ('a option, string) result" where
  "env_optional x name parse =
     (case env_var x name of
        None \<Rightarrow> Ok None
      | Some s \<Rightarrow> (case parse s of None \<Rightarrow> Err name | Some v \<Rightarrow> Ok (Some v)))"

definition and_then :: "('a, 'e) result \<Rightarrow> ('a \<Rightarrow> ('b, 'e) result) \<Rightarrow> ('b, 'e) result" where
  "and_then r f = (case r of Inl e \<Rightarrow> Err e | Inr v \<Rightarrow> f v)"

lemma and_then_Ok: "and_then r f = Ok v \<longleftrightarrow> (\<exists>u. r = Ok u \<and> f u = Ok v)"
  by (cases r) (simp_all add: and_then_def)

lemma and_then_simps [simp]: "and_then (Inl e) f = Inl e" "and_then (Inr v) f = f v"
  by (simp_all add: and_then_def)

definition init_from_env :: "ext \<Rightarrow> (config, string) result" where
  "init_from_env x =
     and_then (env_required x ''SECRET'' Some) (\<lambda>secret.
     and_then (env_or x ''PEER_PORT'' ''7778'' parse_u64) (\<lambda>peer_port.
     and_then (env_or x ''CONNECT_EXTERNAL'' ''true'' parse_bool) (\<lambda>connect_external.
     and_then (env_optional x ''DATABASE_URL'' Some) (\<lambda>db_url.
     and_then (env_or x ''PERSIST_STATE'' ''false'' parse_bool) (\<lambda>persist_state.
     and_then (env_or x ''PRUNE_MINTED_PREMINTS'' ''true'' parse_bool) (\<lambda>prune_minted_premints.
     and_then (env_or x ''API_PORT'' ''7777'' parse_u64) (\<lambda>api_port.
     and_then (env_or x ''PEER_LIMIT'' ''1000'' parse_u64) (\<lambda>peer_limit.
     and_then (env_or x ''PREMINT_TYPES'' ''zora_premint_v2'' Some) (\<lambda>supported_premint_types.
     and_then (env_or x ''CHAIN_INCLUSION_MODE'' ''verify'' (ok \<circ> mode_from_str)) (\<lambda>chain_inclusion_mode.
     and_then (env_or x ''SUPPORTED_CHAIN_IDS'' ''7777777,8453'' Some) (\<lambda>supported_chain_ids.
     and_then (env_optional x ''TRUSTED_PEERS'' Some) (\<lambda>trusted_peers.
     and_then (env_optional x ''NODE_ID'' parse_u64) (\<lambda>node_id.
     and_then (env_optional x ''EXTERNAL_ADDRESS'' Some) (\<lambda>external_address.
     and_then (env_or x ''INTERACTIVE'' ''false'' parse_bool) (\<lambda>interactive.
     and_then (env_or x ''ENABLE_RPC'' ''true'' parse_bool) (\<lambda>enable_rpc.
     and_then (env_optional x ''ADMIN_API_SECRET'' Some) (\<lambda>admin_api_secret.
     and_then (env_or x ''RATE_LIMIT_RPS'' ''2'' parse_u32) (\<lambda>rate_limit_rps.
     and_then (env_or x ''BOOT_NODES'' ''chain'' (ok \<circ> boot_nodes_from_str)) (\<lambda>boot_nodes.
     and_then (env_or x ''SYNC_LOOKBACK_HOURS'' ''6'' parse_u64) (\<lambda>sync_lookback_hours.
     and_then (env_or x ''ENABLE_RELAY_SERVER'' ''false'' parse_bool) (\<lambda>enable_relay_server.
     Ok \<lparr>cfg_secret = secret, cfg_peer_port = peer_port, cfg_connect_external = connect_external,
         cfg_db_url = db_url, cfg_persist_state = persist_state,
         cfg_prune_minted_premints = prune_minted_premints, cfg_api_port = api_port,
         cfg_peer_limit = peer_limit, cfg_supported_premint_types = supported_premint_types,
         cfg_chain_inclusion_mode = chain_inclusion_mode,
         cfg_supported_chain_ids = supported_chain_ids, cfg_trusted_peers = trusted_peers,
         cfg_node_id = node_id, cfg_external_address = external_address,
         cfg_interactive = interactive, cfg_enable_rpc = enable_rpc,
         cfg_admin_api_secret = admin_api_secret, cfg_rate_limit_rps = rate_limit_rps,
         cfg_boot_nodes = boot_nodes, cfg_sync_lookback_hours = sync_lookback_hours,
         cfg_enable_relay_server = enable_relay_server\<rparr>)))))))))))))))))))))"

text \<open>The configuration of the tests; its port is drawn from 5000 to 10000.\<close>

definition config_test_default :: "u64 \<Rightarrow> config" where
  "config_test_default port =
     \<lparr>cfg_secret = ''0x7948efac1e9dbfb77691541df857b3142ea88f5b75b37dfca506f1f1c5d659ee'',
      cfg_peer_port = port, cfg_connect_external = False, cfg_db_url = None,
      cfg_persist_state = False, cfg_prune_minted_premints = False, cfg_api_port = 0,
      cfg_peer_limit = 1000, cfg_supported_premint_types = ''simple,zora_premint_v2'',
      cfg_chain_inclusion_mode = Check, cfg_supported_chain_ids = ''7777777,999999999'',
      cfg_trusted_peers = None, cfg_node_id = None, cfg_external_address = None,
      cfg_interactive = False, cfg_enable_rpc = True, cfg_admin_api_secret = None,
      cfg_rate_limit_rps = 1, cfg_boot_nodes = BootNone, cfg_sync_lookback_hours = 6,
      cfg_enable_relay_server = False\<rparr>"

section \<open>Reading the settings\<close>

definition initial_network_ip :: "config \<Rightarrow> string" where
  "initial_network_ip c = (if cfg_connect_external c then ''0.0.0.0'' else ''127.0.0.1'')"

definition premint_names :: "config \<Rightarrow> premint_name list" where
  "premint_names c = map PremintName (split_on (CHR '','') (cfg_supported_premint_types c))"

text \<open>A part that is not a number panics: \<open>s.parse().unwrap()\<close>.\<close>

definition supported_chains :: "config \<Rightarrow> u64 list outcome" where
  "supported_chains c =
     (let parsed = map parse_u64 (split_on (CHR '','') (cfg_supported_chain_ids c))
      in if None \<in> set parsed then Panic else Returns (map the parsed))"

definition trusted_peers :: "ext \<Rightarrow> config \<Rightarrow> peer_id list" where
  "trusted_peers x c =
     (case cfg_trusted_peers c of
        None \<Rightarrow> []
      | Some peers \<Rightarrow> List.map_filter (parse_peer_id x) (split_on (CHR '','') peers))"

text \<open>A chain that is not listed panics: \<open>expect\<close>.\<close>

definition validate :: "config \<Rightarrow> config outcome" where
  "validate c =
     (case supported_chains c of
        Panic \<Rightarrow> Panic
      | Returns ids \<Rightarrow>
          if \<exists>chain_id\<in>set ids. get_chain_by_id chain_id = None then Panic else Returns c)"

definition init :: "ext \<Rightarrow> config outcome" where
  "init x = (case init_from_env x of Inl e \<Rightarrow> Panic | Inr c \<Rightarrow> validate c)"

section \<open>Lemmas\<close>

lemma unwrap_all:
  "(if None \<in> set ps then Panic else Returns (map the ps)) = Returns ids \<longleftrightarrow> ps = map Some ids"
proof (cases "None \<in> set ps")
  case True
  then have "ps \<noteq> map Some ids" by auto
  with True show ?thesis by simp
next
  case False
  then have "map (Some \<circ> the) ps = ps" by (intro map_idI) (metis comp_apply option.exhaust_sel)
  then have "map the ps = ids \<longleftrightarrow> ps = map Some ids" by (metis map_map map_idI comp_apply option.sel)
  with False show ?thesis by simp
qed

lemma supported_chains_Returns:
  "supported_chains c = Returns ids \<longleftrightarrow>
     map parse_u64 (split_on (CHR '','') (cfg_supported_chain_ids c)) = map Some ids"
  unfolding supported_chains_def Let_def by (rule unwrap_all)

lemma supported_chains_shown:
  assumes "ids \<noteq> []" "cfg_supported_chain_ids c = join_with '','' (map show_u64 ids)"
  shows "supported_chains c = Returns ids"
proof -
  have "CHR '','' \<notin> set (show_u64 i)" for i by (simp add: show_u64_def dec_digits_no_char)
  then have "split_on (CHR '','') (cfg_supported_chain_ids c) = map show_u64 ids"
    using assms by (simp add: split_join)
  then show ?thesis by (simp add: supported_chains_Returns)
qed

lemma validate_Returns:
  "validate c = Returns c' \<longleftrightarrow> c' = c \<and> (\<exists>ids. supported_chains c = Returns ids \<and>
     (\<forall>i\<in>set ids. \<exists>ch. get_chain_by_id i = Some ch))"
  by (auto simp: validate_def split: outcome.splits)

lemma init_Returns:
  assumes "init x = Returns c"
  obtains ids where "supported_chains c = Returns ids" "\<forall>i\<in>set ids. \<exists>ch. get_chain_by_id i = Some ch"
  using assms by (auto simp: init_def validate_Returns split: sum.splits)

lemma known_chain_url:
  assumes "get_chain_by_id i = Some ch"
  shows "\<exists>url. get_rpc_url x i = Ok url \<and>
    (env_var x (''CHAIN_'' @ show_u64 i @ ''_RPC_WSS'') = None \<longrightarrow>
      starts_with url ''ws'' \<and> \<not> has_variable url)"
  using every_chain_has_url [OF assms, of x]
  by (cases "env_var x (''CHAIN_'' @ show_u64 i @ ''_RPC_WSS'')") (auto simp: get_rpc_url_def)

text \<open>An environment with a secret and at most a mode of inclusion besides.\<close>

definition env_of :: "string option \<Rightarrow> string \<Rightarrow> string option" where
  "env_of mode n = (if n = ''SECRET'' then Some ''0x01''
     else if n = ''CHAIN_INCLUSION_MODE'' then mode else None)"

lemma env_of_init:
  assumes "env_var x = env_of mode" "mode_from_str (case mode of None \<Rightarrow> ''verify'' | Some s \<Rightarrow> s) = Ok m"
  shows "\<exists>c. init x = Returns c \<and> supported_chains c = Returns [7777777, 8453] \<and>
    premint_names c = [PremintName ''zora_premint_v2''] \<and> cfg_chain_inclusion_mode c = m"
proof -
  have e: "env_or x n d f = (case f d of None \<Rightarrow> Err n | Some v \<Rightarrow> Ok v)"
    if "n \<noteq> ''SECRET''" "n \<noteq> ''CHAIN_INCLUSION_MODE''" for n d and f :: "string \<Rightarrow> 'b option"
    using that by (simp add: env_or_def assms(1) env_of_def)
  have o': "env_optional x n f = Ok None" if "n \<noteq> ''SECRET''" "n \<noteq> ''CHAIN_INCLUSION_MODE''"
    for n and f :: "string \<Rightarrow> 'b option"
    using that by (simp add: env_optional_def assms(1) env_of_def)
  have r: "env_required x ''SECRET'' Some = Ok ''0x01''"
    by (simp add: env_required_def assms(1) env_of_def)
  have i: "env_or x ''CHAIN_INCLUSION_MODE'' ''verify'' (ok \<circ> mode_from_str) = Ok m"
    using assms(2) by (simp add: env_or_def assms(1) env_of_def split: option.splits)
  have n: "parse_u64 ''7778'' = Some 7778" "parse_u64 ''7777'' = Some 7777" "parse_u64 ''1000'' = Some 1000"
    "parse_u32 ''2'' = Some 2" "parse_u64 ''6'' = Some 6"
    "parse_u64 ''7777777'' = Some 7777777" "parse_u64 ''8453'' = Some 8453"
    by (simp_all add: parse_u64_def parse_u32_def parse_dec_def undec_def)
  have b: "boot_nodes_from_str ''chain'' = Ok BootChain" "parse_bool ''true'' = Some True"
    "parse_bool ''false'' = Some False"
    by (simp_all add: boot_nodes_from_str_def to_lowercase_def lower_char_def parse_bool_def)
  have "\<exists>c. init_from_env x = Ok c \<and> cfg_supported_chain_ids c = ''7777777,8453'' \<and>
    cfg_supported_premint_types c = ''zora_premint_v2'' \<and> cfg_chain_inclusion_mode c = m"
    by (simp add: init_from_env_def e o' r i n b)
  then obtain c where c: "init_from_env x = Ok c" "cfg_supported_chain_ids c = ''7777777,8453''"
    "cfg_supported_premint_types c = ''zora_premint_v2''" "cfg_chain_inclusion_mode c = m" by blast
  have s: "supported_chains c = Returns [7777777, 8453]"
    by (simp add: supported_chains_Returns c n)
  then have "validate c = Returns c"
    by (simp add: validate_def get_chain_by_id_def CHAINS_JSON_def)
  with c s show ?thesis by (simp add: init_def premint_names_def)
qed

definition env_with :: "string option \<Rightarrow> ext" where
  "env_with mode = sample_ext\<lparr>env_var := env_of mode\<rparr>"

lemma env_with_init:
  assumes "mode_from_str (case mode of None \<Rightarrow> ''verify'' | Some s \<Rightarrow> s) = Ok m"
  shows "\<exists>c. init (env_with mode) = Returns c \<and> supported_chains c = Returns [7777777, 8453] \<and>
    premint_names c = [PremintName ''zora_premint_v2''] \<and> cfg_chain_inclusion_mode c = m"
  by (rule env_of_init [OF _ assms]) (simp add: env_with_def)

definition sample_env :: ext where
  "sample_env = env_with None"

lemma sample_init:
  "\<exists>c. init sample_env = Returns c \<and> supported_chains c = Returns [7777777, 8453] \<and>
    premint_names c = [PremintName ''zora_premint_v2''] \<and> cfg_chain_inclusion_mode c = Verify"
  unfolding sample_env_def
  by (rule env_with_init) (simp add: mode_from_str_def to_lowercase_def lower_char_def)

text \<open>
  The settings that are lists are read back as written: joining chain identifiers with
  commas and reading the setting gives those identifiers, in order, and so for the premint
  names, as long as no name contains a comma.
\<close>

lemma list_settings_round_trip:
  assumes "ids \<noteq> []" "names \<noteq> []" "\<forall>n\<in>set names. CHR '','' \<notin> set n"
  shows "supported_chains (c\<lparr>cfg_supported_chain_ids := join_with '','' (map show_u64 ids)\<rparr>) = Returns ids \<and>
    premint_names (c\<lparr>cfg_supported_premint_types := join_with '','' names\<rparr>) = map PremintName names"
  using assms by (simp add: supported_chains_shown premint_names_def split_join)

end
