(* ===== verification/Rules.thy ===== *)
theory Rules
  imports Config
begin

text \<open>
  The rules engine (\<open>src/rules.rs\<close>): evaluations and their reports, the rules every premint has
  to pass whatever its type, and the evaluation of a list of rules over a store that only has
  to provide the \<open>Reader\<close> trait.
\<close>

section \<open>Evaluations and results\<close>

fun evaluation_text :: "evaluation \<Rightarrow> string" where
  "evaluation_text Accept = ''Accept''"
| "evaluation_text (Ignore reason) = ''Ignore ('' @ reason @ '')''"
| "evaluation_text (Reject reason) = ''Reject ('' @ reason @ '')''"

fun variant :: "evaluation \<Rightarrow> string" where
  "variant Accept = ''accept''"
| "variant (Ignore _) = ''ignore''"
| "variant (Reject _) = ''reject''"

fun reason :: "evaluation \<Rightarrow> string option" where
  "reason (Ignore r) = Some r"
| "reason (Reject r) = Some r"
| "reason _ = None"

text \<open>
  The text of a report is that of its outermost layer; that of a list of results has a line
  for each.
\<close>

fun report_text :: "ext \<Rightarrow> report \<Rightarrow> string" and result_text :: "ext \<Rightarrow> rule_result \<Rightarrow> string" where
  "report_text x (Sqlx e) = sqlx_text x e"
| "report_text x (Serde s) = s"
| "report_text x (Eyre s) = s"
| "report_text x (Context c r) = c"
| "report_text x (Validation rs) = join_with [CHR 0x0A] (map (result_text x) rs)"
| "result_text x (RuleResult name (Inr e)) = name @ '': '' @ evaluation_text e"
| "result_text x (RuleResult name (Inl e)) = name @ '': Error ('' @ report_text x e @ '')''"

definition results_text :: "ext \<Rightarrow> results \<Rightarrow> string" where
  "results_text x rs = join_with [CHR 0x0A] (map (result_text x) rs)"

text \<open>A report cannot be cloned: the clone of a failed result is a report with the same text.\<close>

definition rule_result_clone :: "ext \<Rightarrow> rule_result \<Rightarrow> rule_result" where
  "rule_result_clone x r =
     RuleResult (rule_name r)
       (case rr_result r of Inr e \<Rightarrow> Ok e | Inl e \<Rightarrow> Err (Eyre (report_text x e)))"

text \<open>The serialised form: fields in order, a reason that is absent being \<open>null\<close>.\<close>

definition rule_result_json :: "ext \<Rightarrow> rule_result \<Rightarrow> (string \<times> string option) list" where
  "rule_result_json x r =
     (case rr_result r of
        Inr e \<Rightarrow> [(''result'', Some (variant e)), (''reason'', reason e)]
      | Inl e \<Rightarrow> [(''result'', Some ''error''), (''reason'', Some (report_text x e))])
     @ [(''rule_name'', Some (rule_name r))]"

fun rejected :: "rule_result \<Rightarrow> bool" where
  "rejected (RuleResult _ (Inr (Reject _))) = True"
| "rejected _ = False"

fun errored :: "rule_result \<Rightarrow> bool" where
  "errored (RuleResult _ r) = is_error r"

definition is_err :: "results \<Rightarrow> bool" where
  "is_err rs = list_ex errored rs"

definition is_reject :: "results \<Rightarrow> bool" where
  "is_reject rs \<longleftrightarrow> \<not> is_err rs \<and> list_ex rejected rs"

definition is_accept :: "results \<Rightarrow> bool" where
  "is_accept rs \<longleftrightarrow> \<not> is_reject rs"

definition only_failures :: "ext \<Rightarrow> results \<Rightarrow> results" where
  "only_failures x rs = map (rule_result_clone x) (filter (\<lambda>r. errored r \<or> rejected r) rs)"

section \<open>Rules\<close>

record 's rule_context =
  ctx_storage :: 's
  ctx_existing :: "premint_types option"
  ctx_rpc :: "provider option"

record 's rule =
  rl_name :: string
  rl_check :: "premint_types \<Rightarrow> 's rule_context \<Rightarrow> (evaluation, report) result"

definition metadata_rule ::
  "ext \<Rightarrow> string \<Rightarrow> (premint_metadata \<Rightarrow> 's rule_context \<Rightarrow> (evaluation, report) result) \<Rightarrow> 's rule" where
  "metadata_rule x name f =
     \<lparr>rl_name = ''Metadata::'' @ name, rl_check = (\<lambda>item ctx. f (metadata x item) ctx)\<rparr>"

text \<open>A typed rule matches one constructor, given as its name and its projection.\<close>

definition typed_rule ::
  "string \<Rightarrow> (premint_types \<Rightarrow> 'p option) \<Rightarrow> string \<Rightarrow>
     ('p \<Rightarrow> 's rule_context \<Rightarrow> (evaluation, report) result) \<Rightarrow> 's rule" where
  "typed_rule t proj name f =
     \<lparr>rl_name = t @ ''::'' @ name,
      rl_check = (\<lambda>item ctx.
        case proj item of Some p \<Rightarrow> f p ctx | None \<Rightarrow> Ok (Ignore ''Wrong type''))\<rparr>"

section \<open>The general rules\<close>

definition token_uri_length ::
  "premint_metadata \<Rightarrow> 's rule_context \<Rightarrow> (evaluation, report) result" where
  "token_uri_length meta ctx =
     (let max_allowed = (if starts_with (md_uri meta) ''data:'' then 8 * 1024 else 2 * 1024);
          len = length (md_uri meta)
      in if len = 0 then Ok (Reject ''Token URI is empty'')
         else if len > max_allowed
         then Ok (Reject (''Token URI is too long: '' @ dec_digits len @ '' > '' @ dec_digits max_allowed))
         else Ok Accept)"

definition existing_token_uri ::
  "ext \<Rightarrow> 's reader \<Rightarrow> premint_metadata \<Rightarrow> 's rule_context \<Rightarrow> (evaluation, report) result" where
  "existing_token_uri x rd meta ctx =
     (case rd_get_for_token_uri rd (ctx_storage ctx) (md_uri meta) of
        Inl report \<Rightarrow>
          (case downcast_sqlx report of
             Some RowNotFound \<Rightarrow> Ok Accept
           | _ \<Rightarrow> Err report)
      | Inr existing \<Rightarrow>
          (if md_id (metadata x existing) = md_id meta then Ok Accept
           else Ok (Reject ''Token URI already exists'')))"

definition signer_matches ::
  "ext \<Rightarrow> premint_metadata \<Rightarrow> 's rule_context \<Rightarrow> (evaluation, report) result" where
  "signer_matches x meta ctx =
     (case ctx_existing ctx of
        None \<Rightarrow> Ok (Ignore ''No existing premint'')
      | Some existing \<Rightarrow>
          (if md_signer (metadata x existing) = md_signer meta then Ok Accept
           else Ok (Reject ''Signer does not match'')))"

definition version_is_higher ::
  "ext \<Rightarrow> premint_metadata \<Rightarrow> 's rule_context \<Rightarrow> (evaluation, report) result" where
  "version_is_higher x meta ctx =
     (case ctx_existing ctx of
        None \<Rightarrow> Ok (Ignore ''No existing premint'')
      | Some existing \<Rightarrow>
          (if md_version meta > md_version (metadata x existing) then Ok Accept
           else Ok (Reject (''Existing premint with version '' @ show_u64 (md_version (metadata x existing)) @
             '' exists, trying to store version '' @ show_u64 (md_version meta)))))"

definition general_rules :: "ext \<Rightarrow> 's reader \<Rightarrow> 's rule list" where
  "general_rules x rd =
     [metadata_rule x ''token_uri_length'' token_uri_length,
      metadata_rule x ''existing_token_uri'' (existing_token_uri x rd),
      metadata_rule x ''signer_matches'' (signer_matches x),
      metadata_rule x ''version_is_higher'' (version_is_higher x)]"

section \<open>The engine\<close>

record 's rules_engine =
  re_rules :: "'s rule list"
  re_use_rpc :: bool

definition rules_engine_new :: "config \<Rightarrow> 's rules_engine" where
  "rules_engine_new c = \<lparr>re_rules = [], re_use_rpc = cfg_enable_rpc c\<rparr>"

definition add_rule :: "'s rules_engine \<Rightarrow> 's rule \<Rightarrow> 's rules_engine" where
  "add_rule e r = e\<lparr>re_rules := re_rules e @ [r]\<rparr>"

text \<open>The connection the rules get: none for chain 0, without RPC, or when there is none.\<close>

definition rules_rpc :: "ext \<Rightarrow> bool \<Rightarrow> rpc_cache \<Rightarrow> u64 \<Rightarrow> provider option \<times> rpc_cache" where
  "rules_rpc x use_rpc cache chain_id =
     (if use_rpc \<and> chain_id \<noteq> 0
      then (let (r, cache') = get_rpc x cache chain_id in (ok r, cache'))
      else (None, cache))"

definition check_rule :: "premint_types \<Rightarrow> 's rule_context \<Rightarrow> 's rule \<Rightarrow> rule_result" where
  "check_rule item ctx r = RuleResult (rl_name r) (rl_check r item ctx)"

definition lookup_existing ::
  "ext \<Rightarrow> 's reader \<Rightarrow> premint_types \<Rightarrow> 's \<Rightarrow> (premint_types option, report) result" where
  "lookup_existing x rd item s =
     (let md = metadata x item
      in case rd_get_for_id_and_kind rd s (md_id md) (md_kind md) of
           Inr p \<Rightarrow> Ok (Some p)
         | Inl report \<Rightarrow>
             (case downcast_sqlx report of Some RowNotFound \<Rightarrow> Ok None | _ \<Rightarrow> Err report))"

definition run_rules ::
  "ext \<Rightarrow> 's rules_engine \<Rightarrow> rpc_cache \<Rightarrow> premint_types \<Rightarrow> 's \<Rightarrow> premint_types option \<Rightarrow>
     results \<times> rpc_cache" where
  "run_rules x engine cache item s existing =
     (let (rpc, cache') = rules_rpc x (re_use_rpc engine) cache (md_chain_id (metadata x item));
          ctx = \<lparr>ctx_storage = s, ctx_existing = existing, ctx_rpc = rpc\<rparr>
      in (map (check_rule item ctx) (re_rules engine), cache'))"

definition evaluate ::
  "ext \<Rightarrow> 's reader \<Rightarrow> 's rules_engine \<Rightarrow> rpc_cache \<Rightarrow> premint_types \<Rightarrow> 's \<Rightarrow>
     (results, report) result \<times> rpc_cache" where
  "evaluate x rd engine cache item s =
     (case lookup_existing x rd item s of
        Inl report \<Rightarrow> (Err report, cache)
      | Inr existing \<Rightarrow>
          (let (results, cache') = run_rules x engine cache item s existing in (Ok results, cache')))"

section \<open>Lemmas on results\<close>

lemma errored_iff: "errored r \<longleftrightarrow> is_error (rr_result r)"
  by (cases r) simp

lemma rejected_iff: "rejected r \<longleftrightarrow> (\<exists>m. rr_result r = Ok (Reject m))"
  by (cases r rule: rejected.cases) auto

lemma is_err_Cons [simp]: "is_err [] = False" "is_err (r # rs) \<longleftrightarrow> errored r \<or> is_err rs"
  by (simp_all add: is_err_def)

lemma is_err_append [simp]: "is_err (rs @ ts) \<longleftrightarrow> is_err rs \<or> is_err ts"
  by (simp add: is_err_def)

lemma clone_simps [simp]:
  "rule_name (rule_result_clone x r) = rule_name r"
  "errored (rule_result_clone x r) = errored r"
  "rejected (rule_result_clone x r) = rejected r"
  "result_text x (rule_result_clone x r) = result_text x r"
  by (cases r; simp add: rule_result_clone_def errored_iff rejected_iff split: sum.splits)+

lemma is_accept_iff: "is_accept rs \<longleftrightarrow> is_err rs \<or> (\<forall>r\<in>set rs. \<not> rejected r)"
  by (auto simp: is_accept_def is_reject_def list_ex_iff)

lemma only_failures_clean:
  "is_err (only_failures x rs) = is_err rs"
  "is_reject (only_failures x rs) = is_reject rs"
  by (auto simp: only_failures_def is_err_def is_reject_def list_ex_iff)

section \<open>Lemmas on the engine\<close>

lemma rules_rpc_off: "\<not> u \<or> c = 0 \<Longrightarrow> rules_rpc x u cache c = (None, cache)"
  by (auto simp: rules_rpc_def)

lemma rules_rpc_cache_ok: "connect_ok x \<Longrightarrow> cache_ok cache \<Longrightarrow> cache_ok (snd (rules_rpc x u cache c))"
  using get_rpc_cache_ok [of x cache c] by (auto simp: rules_rpc_def split: prod.splits)

lemma run_rules_cache_ok:
  "connect_ok x \<Longrightarrow> cache_ok cache \<Longrightarrow> cache_ok (snd (run_rules x engine cache item s ex))"
  using rules_rpc_cache_ok [of x cache "re_use_rpc engine" "md_chain_id (metadata x item)"]
  by (auto simp: run_rules_def Let_def split: prod.splits)

lemma evaluate_cache_ok:
  "connect_ok x \<Longrightarrow> cache_ok cache \<Longrightarrow> cache_ok (snd (evaluate x rd engine cache item s))"
  by (simp add: evaluate_def split: sum.split prod.split) (metis run_rules_cache_ok snd_conv)

lemma token_uri_length_Ok [rule_simps]: "is_ok (token_uri_length meta ctx)"
  by (simp add: token_uri_length_def Let_def)

lemma signer_matches_Ok [rule_simps]: "is_ok (signer_matches x meta ctx)"
  by (simp add: signer_matches_def split: option.splits)

lemma version_is_higher_Ok [rule_simps]: "is_ok (version_is_higher x meta ctx)"
  by (simp add: version_is_higher_def split: option.splits)

definition not_rejected :: "(evaluation, report) result \<Rightarrow> bool" where
  "not_rejected r \<longleftrightarrow> (\<forall>m. r \<noteq> Ok (Reject m))"

lemma token_uri_length_accepts [rule_simps]: "not_rejected (token_uri_length meta ctx) \<longleftrightarrow>
    0 < length (md_uri meta) \<and>
    length (md_uri meta) \<le> (if starts_with (md_uri meta) ''data:'' then 8192 else 2048)"
  by (simp add: token_uri_length_def not_rejected_def Let_def)

lemma signer_matches_accepts [rule_simps]: "not_rejected (signer_matches x meta ctx) \<longleftrightarrow>
    (\<forall>q. ctx_existing ctx = Some q \<longrightarrow> md_signer (metadata x q) = md_signer meta)"
  by (simp add: signer_matches_def not_rejected_def split: option.splits)

lemma version_is_higher_accepts [rule_simps]: "not_rejected (version_is_higher x meta ctx) \<longleftrightarrow>
    (\<forall>q. ctx_existing ctx = Some q \<longrightarrow> md_version meta > md_version (metadata x q))"
  by (simp add: version_is_higher_def not_rejected_def split: option.splits)

text \<open>What a rules engine may rely on and what it guarantees, over any store with the contract.\<close>

definition existing_in :: "ext \<Rightarrow> entries \<Rightarrow> premint_types \<Rightarrow> premint_types option" where
  "existing_in x m p = map_option en_premint (m (premint_key x p))"

context reader_contract
begin

lemma lookup_up:
  assumes "good s" "up s"
  shows "lookup_existing x rd p s = Ok (existing_in x (entries s) p)"
  using get_law [OF assms]
  by (simp add: lookup_existing_def existing_in_def premint_key_def Let_def split: option.splits)

lemma lookup_down: "\<not> up s \<Longrightarrow> \<exists>m. lookup_existing x rd p s = Err (Sqlx (SqlxOther m))"
  using get_down [of s "md_id (metadata x p)" "md_kind (metadata x p)"]
  by (auto simp: lookup_existing_def Let_def)

lemma evaluate_up:
  assumes "good s" "up s"
  shows "evaluate x rd engine cache p s =
    (let (results, cache') = run_rules x engine cache p s (existing_in x (entries s) p) in (Ok results, cache'))"
  by (simp add: evaluate_def lookup_up [OF assms])

lemma evaluate_down: "\<not> up s \<Longrightarrow> \<exists>m. evaluate x rd engine cache p s = (Err (Sqlx (SqlxOther m)), cache)"
  using lookup_down [of s p] by (auto simp: evaluate_def)

lemma existing_token_uri_Ok:
  assumes "good s" "up s" "ctx_storage ctx = s"
  shows "is_ok (existing_token_uri x rd meta ctx)"
    and "not_rejected (existing_token_uri x rd meta ctx) \<Longrightarrow>
      (\<forall>e\<in>ran (entries s). en_uri e \<noteq> md_uri meta) \<or>
      (\<exists>e\<in>ran (entries s). en_uri e = md_uri meta \<and> md_id (metadata x (en_premint e)) = md_id meta)"
  using uri_law [OF assms(1,2), of "md_uri meta"]
  by (auto simp: existing_token_uri_def assms(3) not_rejected_def split: sum.splits if_splits)

end

end
