(* ===== verification/Chain.thy ===== *)
theory Chain
  imports Rules
begin

text \<open>
  What the node does on the chain (\<open>src/chain.rs\<close>): view calls, the loop that watches for mints
  and sends claims to the controller, the check of a claim made by a peer, and the boot nodes
  registered on the chain.
\<close>

section \<open>View calls\<close>

definition view_contract_call ::
  "ext \<Rightarrow> (bytes \<Rightarrow> ('r, string) result) \<Rightarrow> sol_call \<Rightarrow> provider \<Rightarrow> address \<Rightarrow> ('r, report) result" where
  "view_contract_call x decode_returns call provider addr =
     (case eth_call x provider addr (abi_encode x call) of
        Inl err \<Rightarrow> Err (Eyre (''Error calling contract: '' @ err))
      | Inr response \<Rightarrow>
          map_err (\<lambda>err. Eyre (''Error decoding contract response: '' @ err)) (decode_returns response))"

section \<open>Watching for mints\<close>

text \<open>
  The claims sent for the logs of one subscription, and the block the next subscription starts
  from; a log that is no mint event is skipped.
\<close>

fun watch_logs ::
  "(chain_log \<Rightarrow> (inclusion_claim, report) result outcome) \<Rightarrow> u64 option \<Rightarrow> chain_log list \<Rightarrow>
     inclusion_claim list \<times> u64 option outcome" where
  "watch_logs map_claim highest [] = ([], Returns highest)"
| "watch_logs map_claim highest (log # logs) =
     (case map_claim log of
        Panic \<Rightarrow> ([], Panic)
      | Returns r \<Rightarrow>
          (let highest' = (case log_block_number log of Some b \<Rightarrow> Some b | None \<Rightarrow> highest);
               (claims, out) = watch_logs map_claim highest' logs
           in (case r of Inr claim \<Rightarrow> claim # claims | Inl e \<Rightarrow> claims, out)))"

text \<open>
  The loop only ends when there is no filter. It is run over a list of what the chain client
  does at each turn: no connection, no subscription, or the logs until the stream ends.
\<close>

datatype poll_end = NoFilter | StillPolling | PollPanic

fun poll_loop ::
  "premint_impl \<Rightarrow> u64 \<Rightarrow> log_filter \<Rightarrow> u64 option \<Rightarrow> rpc_cache \<Rightarrow> ext list \<Rightarrow>
     inclusion_claim list \<times> poll_end \<times> rpc_cache" where
  "poll_loop T chain_id flt highest cache [] = ([], StillPolling, cache)"
| "poll_loop T chain_id flt highest cache (x # xs) =
     (case get_rpc x cache chain_id of
        (Inl e, cache') \<Rightarrow> poll_loop T chain_id flt highest cache' xs
      | (Inr rpc, cache') \<Rightarrow>
          (let flt' = (case highest of
                 None \<Rightarrow> flt | Some block \<Rightarrow> flt\<lparr>flt_from_block := Some block\<rparr>)
           in case subscribe_logs x rpc flt' of
                Inl e \<Rightarrow> poll_loop T chain_id flt' highest cache' xs
              | Inr logs \<Rightarrow>
                  (case watch_logs (impl_map_claim T x chain_id) highest logs of
                     (claims, Panic) \<Rightarrow> (claims, PollPanic, cache')
                   | (claims, Returns highest') \<Rightarrow>
                       (let (claims', out) = poll_loop T chain_id flt' highest' cache' xs
                        in (claims @ claims', out)))))"

definition poll_for_new_mints ::
  "premint_impl \<Rightarrow> u64 \<Rightarrow> rpc_cache \<Rightarrow> ext list \<Rightarrow> inclusion_claim list \<times> poll_end \<times> rpc_cache" where
  "poll_for_new_mints T chain_id cache xs =
     (case impl_check_filter T chain_id of
        Panic \<Rightarrow> ([], PollPanic, cache)
      | Returns None \<Rightarrow> ([], NoFilter, cache)
      | Returns (Some flt) \<Rightarrow> poll_loop T chain_id flt None cache xs)"

section \<open>Checking a claim\<close>

definition nth_opt :: "'a list \<Rightarrow> nat \<Rightarrow> 'a option" where
  "nth_opt xs i = (if i < length xs then Some (xs ! i) else None)"

definition inclusion_claim_correct ::
  "ext \<Rightarrow> rpc_cache \<Rightarrow> premint_types \<Rightarrow> inclusion_claim \<Rightarrow> (bool, report) result outcome \<times> rpc_cache" where
  "inclusion_claim_correct x cache premint claim =
     (case get_rpc x cache (cl_chain_id claim) of
        (Inl e, cache') \<Rightarrow> (Returns (Err e), cache')
      | (Inr chain, cache') \<Rightarrow>
          ((case receipt_of x chain (cl_tx_hash claim) of
              Inl e \<Rightarrow> Returns (Err (Eyre e))
            | Inr None \<Rightarrow> Returns (Err (Eyre ''transaction not found''))
            | Inr (Some tx) \<Rightarrow>
                (case nth_opt (rc_logs tx) (unat (cl_log_index claim)) of
                   None \<Rightarrow> Returns (Err (Eyre (''log index not found: '' @ show_u64 (cl_log_index claim))))
                 | Some log \<Rightarrow>
                     (case verify_claim x premint (cl_chain_id claim) tx log claim of
                        Panic \<Rightarrow> Panic
                      | Returns b \<Rightarrow> Returns (Ok b)))),
           cache'))"

section \<open>Boot nodes\<close>

definition BOOTNODES_CONTRACT_ADDRESS :: address where
  "BOOTNODES_CONTRACT_ADDRESS = 0x7777770105719d36De7E5A0a26536D6482234Ccd"

definition BOOTNODES_CONTRACT_DEPLOY_BLOCK :: u64 where
  "BOOTNODES_CONTRACT_DEPLOY_BLOCK = 13699230"

definition get_contract_boot_nodes ::
  "ext \<Rightarrow> rpc_cache \<Rightarrow> (string list, report) result \<times> rpc_cache" where
  "get_contract_boot_nodes x cache =
     (case get_rpc x cache 7777777 of
        (Inl e, cache') \<Rightarrow> (Err e, cache')
      | (Inr chain, cache') \<Rightarrow>
          (let flt = \<lparr>flt_address = BOOTNODES_CONTRACT_ADDRESS,
                 flt_event = ''TrustedNodeAdded(string)'',
                 flt_from_block = Some BOOTNODES_CONTRACT_DEPLOY_BLOCK\<rparr>
           in (case get_logs x chain flt of
                 Inl e \<Rightarrow> Err (Eyre e)
               | Inr logs \<Rightarrow>
                   (let nodes = List.map_filter
                          (\<lambda>log. ok (decode_node_added x (log_topics log) (log_data log))) logs
                    in case view_contract_call x (decode_trusted x) (IsTrustedNode nodes) chain
                              BOOTNODES_CONTRACT_ADDRESS of
                         Inl e \<Rightarrow> Err e
                       | Inr result \<Rightarrow> Ok (map snd (filter fst (zip result nodes))))), cache'))"

section \<open>Lemmas\<close>

lemma nth_opt_Some: "nth_opt xs i = Some v \<longleftrightarrow> i < length xs \<and> v = xs ! i"
  by (auto simp: nth_opt_def)

lemma watch_logs_Returns:
  "watch_logs (\<lambda>log. Returns (f log)) highest logs =
     (List.map_filter (\<lambda>log. ok (f log)) logs,
      Returns (fold (\<lambda>log h. case log_block_number log of Some b \<Rightarrow> Some b | None \<Rightarrow> h) logs highest))"
  by (induction logs arbitrary: highest) (auto simp: map_filter_simps Let_def split: sum.splits)

lemma ok_Some [simp]: "ok r = Some v \<longleftrightarrow> r = Ok v"
  by (cases r) auto

lemma zora_map_claim_sel:
  "zora_map_claim ns x chain log = Ok c \<Longrightarrow> cl_chain_id c = chain \<and> cl_kind c = ns_kind ns"
  by (auto simp: zora_map_claim_def split: sum.splits)

text \<open>A claim was made from a log that a subscription to the factory's events delivered.\<close>

definition seen_by :: "'tc zora_ns \<Rightarrow> u64 \<Rightarrow> ext \<Rightarrow> inclusion_claim \<Rightarrow> bool" where
  "seen_by ns chain x claim \<longleftrightarrow>
     (\<exists>rpc flt logs log. subscribe_logs x rpc flt = Ok logs \<and> log \<in> set logs \<and>
        flt_address flt = PREMINT_FACTORY_ADDR \<and> zora_map_claim ns x chain log = Ok claim)"

lemma poll_loop_sound:
  assumes "flt_address flt = PREMINT_FACTORY_ADDR"
    "poll_loop (zora_impl ns) chain flt highest cache xs = (claims, e, cache')"
  shows "e = StillPolling \<and> (\<forall>c\<in>set claims. \<exists>x\<in>set xs. seen_by ns chain x c)"
  using assms
proof (induction xs arbitrary: flt highest cache claims)
  case Nil
  then show ?case by simp
next
  case (Cons x xs)
  obtain r cache1 where r: "get_rpc x cache chain = (r, cache1)" by (cases "get_rpc x cache chain")
  show ?case
  proof (cases r)
    case (Inl e')
    with Cons.prems r have "poll_loop (zora_impl ns) chain flt highest cache1 xs = (claims, e, cache')" by simp
    from Cons.IH [OF Cons.prems(1) this] show ?thesis by auto
  next
    case (Inr rpc)
    define flt1 where "flt1 = (case highest of None \<Rightarrow> flt | Some block \<Rightarrow> flt\<lparr>flt_from_block := Some block\<rparr>)"
    have f1: "flt_address flt1 = PREMINT_FACTORY_ADDR"
      using Cons.prems(1) by (simp add: flt1_def split: option.split)
    show ?thesis
    proof (cases "subscribe_logs x rpc flt1")
      case (Inl e')
      with Cons.prems r Inr have "poll_loop (zora_impl ns) chain flt1 highest cache1 xs = (claims, e, cache')"
        by (simp add: Let_def flt1_def [symmetric])
      from Cons.IH [OF f1 this] show ?thesis by auto
    next
      case (Inr logs)
      define new where "new = List.map_filter (\<lambda>log. ok (zora_map_claim ns x chain log)) logs"
      obtain highest1 where w: "watch_logs (impl_map_claim (zora_impl ns) x chain) highest logs =
        (new, Returns highest1)" by (simp add: zora_impl_def watch_logs_Returns new_def)
      obtain claims1 where p: "poll_loop (zora_impl ns) chain flt1 highest1 cache1 xs = (claims1, e, cache')"
        "claims = new @ claims1"
        using Cons.prems(2) r \<open>r = Inr rpc\<close> Inr w
        by (auto simp: Let_def flt1_def [symmetric] split: prod.splits)
      have "seen_by ns chain x c" if "c \<in> set new" for c
        using that Inr f1 unfolding new_def seen_by_def map_filter_set ok_Some by blast
      with Cons.IH [OF f1 p(1)] p(2) show ?thesis by auto
    qed
  qed
qed

text \<open>
  C22. The watcher of a Zora type never stops or panics once it has a filter, whatever
  disconnects and failures it meets, and each claim it sends to the controller was made from a
  log of a mint by the premint factory that the chain client delivered; it names the watched
  chain and the watched type.
\<close>

theorem watcher_sound:
  assumes "poll_for_new_mints (zora_impl ns) chain cache xs = (claims, e, cache')"
    "chain = 7777777 \<or> chain = 8453"
  shows "e = StillPolling \<and> (\<forall>c\<in>set claims. cl_chain_id c = chain \<and> cl_kind c = ns_kind ns \<and>
    (\<exists>x\<in>set xs. seen_by ns chain x c))"
proof -
  obtain flt where flt: "zora_check_filter chain = Some flt" "flt_address flt = PREMINT_FACTORY_ADDR"
    using assms(2) by (auto simp: zora_check_filter_def Let_def)
  from assms(1) flt(1) have "poll_loop (zora_impl ns) chain flt None cache xs = (claims, e, cache')"
    by (simp add: poll_for_new_mints_def zora_impl_def)
  from poll_loop_sound [OF flt(2) this] zora_map_claim_sel [of ns] show ?thesis
    unfolding seen_by_def by blast
qed

text \<open>
  A connection that the cache holds is never replaced while the watcher retries: if
  subscribing over it fails, it fails at every turn, no claim is ever sent and the cache stays
  as it is, even if a new connection to the same url could be made.
\<close>

lemma dead_connection_is_kept:
  assumes "\<forall>x\<in>set xs. get_rpc_url x chain = Ok url \<and> (\<forall>f. \<exists>e. subscribe_logs x rpc f = Err e)"
    "cache url = Some rpc" "\<not> has_variable url" "zora_check_filter chain = Some flt"
  shows "poll_for_new_mints (zora_impl ns) chain cache xs = ([], StillPolling, cache)"
proof -
  have "poll_loop (zora_impl ns) chain f None cache xs = ([], StillPolling, cache)" for f
    using assms(1)
  proof (induction xs arbitrary: f)
    case (Cons x xs)
    then have r: "get_rpc x cache chain = (Ok rpc, cache)"
      using assms(2,3) by (simp add: get_rpc_def connect_cached)
    have "\<exists>e. subscribe_logs x rpc f = Err e" using Cons.prems by simp
    then obtain e where "subscribe_logs x rpc f = Err e" ..
    with r Cons show ?case by simp
  qed simp
  with assms(4) show ?thesis by (simp add: poll_for_new_mints_def zora_impl_def)
qed

text \<open>The world after the node's connection died: new ones can be made, the old one fails.\<close>

definition dead_ext :: ext where
  "dead_ext = sample_ext\<lparr>ws_connect := (\<lambda>u. Ok (WsProvider ''fresh'')),
     subscribe_logs := (\<lambda>p f. if p = WsProvider ''fresh'' then Ok [sample_log] else Err ''backend gone'')\<rparr>"

lemma zora_url: "get_rpc_url sample_ext 7777777 = Ok ''wss://rpc.zora.energy''"
  "get_rpc_url dead_ext 7777777 = Ok ''wss://rpc.zora.energy''"
  by (simp_all add: get_rpc_url_def sample_ext_def dead_ext_def get_chain_by_id_def CHAINS_JSON_def starts_with_def)

lemma dead_subscription: "subscribe_logs dead_ext (WsProvider ''old'') f = Err ''backend gone''"
  by (simp add: dead_ext_def)

theorem dead_connection_is_kept_witness:
  "poll_for_new_mints (zora_impl ns_v2) 7777777 [''wss://rpc.zora.energy'' \<mapsto> WsProvider ''old'']
     (replicate 100 dead_ext) = ([], StillPolling, [''wss://rpc.zora.energy'' \<mapsto> WsProvider ''old''])"
  by (rule dead_connection_is_kept [where url = "''wss://rpc.zora.energy''" and rpc = "WsProvider ''old''"])
    (simp_all add: zora_url dead_subscription starts_with_def zora_check_filter_def Let_def)

section \<open>Claims made by peers\<close>

lemma inclusion_correct_eq:
  assumes "get_rpc x cache (cl_chain_id claim) = (Ok rpc, cache')"
    "receipt_of x rpc (cl_tx_hash claim) = Ok (Some tx)"
  shows "inclusion_claim_correct x cache (ZoraV2 p) claim =
    (if unat (cl_log_index claim) < length (rc_logs tx)
     then Returns (Ok (zora_verify_claim ns_v2 x p (cl_chain_id claim) tx
       (rc_logs tx ! unat (cl_log_index claim)) claim))
     else Returns (Err (Eyre (''log index not found: '' @ show_u64 (cl_log_index claim)))), cache')"
  using assms by (simp add: inclusion_claim_correct_def nth_opt_def)

lemma inclusion_correctE:
  assumes "fst (inclusion_claim_correct x cache (ZoraV2 p) claim) = Returns (Ok True)"
  obtains rpc tx log where "fst (get_rpc x cache (cl_chain_id claim)) = Ok rpc"
    "receipt_of x rpc (cl_tx_hash claim) = Ok (Some tx)" "log \<in> set (rc_logs tx)"
    "zora_verify_claim ns_v2 x p (cl_chain_id claim) tx log claim"
proof -
  obtain rpc cache' where r: "get_rpc x cache (cl_chain_id claim) = (Ok rpc, cache')"
    using assms by (auto simp: inclusion_claim_correct_def split: prod.splits sum.splits)
  obtain tx where t: "receipt_of x rpc (cl_tx_hash claim) = Ok (Some tx)"
    using assms r by (auto simp: inclusion_claim_correct_def split: sum.splits option.splits)
  from assms show thesis
    unfolding inclusion_correct_eq [OF r t] by (auto split: if_splits intro!: that [OF _ t] simp: r)
qed

definition sample_v2 :: v2 where
  "sample_v2 = v2_default\<lparr>zp_collection_address := 9, zp_chain_id := 7777777,
     zp_premint := (zp_premint v2_default)\<lparr>ca_uid := 3\<rparr>\<rparr>"

definition sample_claim :: inclusion_claim where
  "sample_claim = \<lparr>cl_premint_id = guid sample_ext 7777777 9 3, cl_chain_id = 7777777, cl_tx_hash = 7,
      cl_log_index = 0, cl_kind = ''zora_premint_v2''\<rparr>"

lemma sample_rpc: "get_rpc sample_ext Map.empty 7777777 =
    (Ok (WsProvider ''wss://rpc.zora.energy''), [''wss://rpc.zora.energy'' \<mapsto> WsProvider ''wss://rpc.zora.energy''])"
  by (simp add: get_rpc_def zora_url connect_def starts_with_def) (simp add: sample_ext_def)

lemma get_rpc_cong: "env_var y = env_var x \<Longrightarrow> ws_connect y = ws_connect x \<Longrightarrow> get_rpc y = get_rpc x"
proof -
  assume a: "env_var y = env_var x" "ws_connect y = ws_connect x"
  then have "connect y = connect x" "get_rpc_url y = get_rpc_url x"
    by (intro HOL.ext, simp only: get_rpc_url_def connect_def)+
  then show ?thesis by (intro HOL.ext) (simp only: get_rpc_def)
qed

lemma sample_map_claim: "zora_map_claim ns_v2 sample_ext 7777777 sample_log = Ok sample_claim"
  by (simp add: zora_map_claim_def ns_v2_def sample_ext_def sample_event_def sample_log_def
      event_to_guid_def sample_claim_def)

lemma sample_mint_of: "zora_mint_of ns_v2 sample_ext sample_v2 sample_receipt sample_log"
  by (simp add: zora_mint_of_def sample_log_def sample_receipt_def ns_v2_def sample_ext_def
    sample_event_def PREMINT_FACTORY_ADDR_def sample_v2_def default_defs)

lemma sample_receipt_of: "receipt_of sample_ext rpc 7 = Ok (Some sample_receipt)"
  by (simp add: sample_ext_def)

lemma sample_correct:
  "fst (inclusion_claim_correct sample_ext Map.empty (ZoraV2 sample_v2) sample_claim) = Returns (Ok True)"
proof -
  have c: "cl_chain_id sample_claim = 7777777" "cl_tx_hash sample_claim = 7" "cl_log_index sample_claim = 0"
    "rc_logs sample_receipt = [sample_log]"
    by (simp_all add: sample_claim_def sample_receipt_def)
  show ?thesis
    using v2.check_own [OF sample_map_claim sample_mint_of]
    by (subst inclusion_correct_eq [where tx = sample_receipt and claim = sample_claim,
          unfolded c, OF sample_rpc sample_receipt_of]) (simp add: c)
qed

lemma watched_run:
  "poll_for_new_mints (zora_impl ns_v2) 7777777 Map.empty [sample_ext] =
     ([sample_claim], StillPolling, snd (get_rpc sample_ext Map.empty 7777777))"
proof -
  have "subscribe_logs sample_ext rpc f = Ok [sample_log]" for rpc f by (simp add: sample_ext_def)
  then show ?thesis
    using sample_rpc
    by (simp add: poll_for_new_mints_def zora_impl_def zora_check_filter_def Let_def watch_logs_Returns
        sample_map_claim map_filter_simps split: prod.splits)
qed

theorem watcher_sound_witness:
  "\<exists>log rpc f. subscribe_logs sample_ext rpc f = Ok [log] \<and>
     zora_map_claim ns_v2 sample_ext 7777777 log = Ok sample_claim"
  using watcher_sound [OF watched_run] by (auto simp: seen_by_def sample_ext_def)

text \<open>
  The check of a claim about the \<open>j\<close>-th log of a transaction that has \<open>base\<close> logs before it in its
  block.
\<close>

lemma block_offset_check:
  assumes "zora_map_claim ns_v2 x chain (rc_logs tx ! j) = Ok claim" "j < length (rc_logs tx)"
    "get_rpc x cache chain = (Ok rpc, cache')" "receipt_of x rpc (cl_tx_hash claim) = Ok (Some tx)"
    "\<forall>i<length (rc_logs tx). log_log_index (rc_logs tx ! i) = Some (base + of_nat i)"
    "length (rc_logs tx) < 2 ^ 64"
  shows "inclusion_claim_correct x cache (ZoraV2 p) claim =
    (if base = 0 then Returns (Ok (zora_mint_of ns_v2 x p tx (rc_logs tx ! j)))
     else if unat (base + of_nat j) < length (rc_logs tx) then Returns (Ok False)
     else Returns (Err (Eyre (''log index not found: '' @ show_u64 (base + of_nat j)))), cache')"
proof -
  let ?i = "unat (cl_log_index claim)"
  have c: "cl_chain_id claim = chain" "cl_log_index claim = base + of_nat j"
    using assms(1,2,5) by (auto simp: zora_map_claim_def split: sum.splits)
  have "\<not> zora_verify_claim ns_v2 x p chain tx (rc_logs tx ! ?i) claim" if "base \<noteq> 0" "?i < length (rc_logs tx)"
  proof -
    have "log_log_index (rc_logs tx ! ?i) = Some (base + (base + of_nat j))"
      using assms(5) that(2) by (simp add: c(2))
    with that(1) show ?thesis by (auto simp: zora_verify_claim_def Let_def c(2) split: sum.splits)
  qed
  moreover have "?i = j" if "base = 0"
    using that assms(2,6) by (simp add: c(2) unat_of_nat take_bit_nat_eq_self)
  ultimately show ?thesis
    using assms(2-4) v2.check_iff [OF assms(1), of p tx]
    by (subst inclusion_correct_eq) (auto simp: c)
qed

text \<open>
  C34. The claim that a node makes for a mint is checked by its peers at the wrong place when
  the transaction is not the first of its block with logs: a log's index counts the logs of the
  block, the check uses it as a position among the logs of the transaction. With \<open>base\<close> logs
  before it in the block, the mint is confirmed only if \<open>base\<close> is zero.
\<close>

theorem claim_index_is_per_block:
  assumes "zora_map_claim ns_v2 x chain (rc_logs tx ! j) = Ok claim" "j < length (rc_logs tx)"
    "get_rpc x cache chain = (Ok rpc, cache')" "receipt_of x rpc (cl_tx_hash claim) = Ok (Some tx)"
    "\<forall>i<length (rc_logs tx). log_log_index (rc_logs tx ! i) = Some (base + of_nat i)"
    "length (rc_logs tx) < 2 ^ 64"
  shows "fst (inclusion_claim_correct x cache (ZoraV2 p) claim) =
    (if base = 0 then Returns (Ok (zora_mint_of ns_v2 x p tx (rc_logs tx ! j)))
     else if unat (base + of_nat j) < length (rc_logs tx) then Returns (Ok False)
     else Returns (Err (Eyre (''log index not found: '' @ show_u64 (base + of_nat j)))))"
  by (simp add: block_offset_check [OF assms])

theorem claim_index_is_per_block_witness:
  "fst (inclusion_claim_correct
     (sample_ext\<lparr>receipt_of := (\<lambda>p h. Ok (Some \<lparr>rc_transaction_hash = 7,
        rc_logs = [sample_log\<lparr>log_log_index := Some 5\<rparr>]\<rparr>))\<rparr>)
     Map.empty (ZoraV2 sample_v2) (sample_claim\<lparr>cl_log_index := 5\<rparr>)) =
   Returns (Err (Eyre ''log index not found: 5''))"
proof -
  let ?tx = "\<lparr>rc_transaction_hash = 7, rc_logs = [sample_log\<lparr>log_log_index := Some 5\<rparr>]\<rparr>"
  let ?x = "sample_ext\<lparr>receipt_of := (\<lambda>p h. Ok (Some ?tx))\<rparr>"
  have m: "zora_map_claim ns_v2 ?x 7777777 (rc_logs ?tx ! 0) = Ok (sample_claim\<lparr>cl_log_index := 5\<rparr>)"
    by (simp add: zora_map_claim_def ns_v2_def sample_ext_def sample_event_def sample_log_def
      event_to_guid_def sample_claim_def guid_def)
  have r: "get_rpc ?x Map.empty 7777777 = (Ok (WsProvider ''wss://rpc.zora.energy''),
      [''wss://rpc.zora.energy'' \<mapsto> WsProvider ''wss://rpc.zora.energy''])"
    using sample_rpc get_rpc_cong [of ?x sample_ext] by simp
  show ?thesis
    by (subst claim_index_is_per_block [OF m _ r, where base = 5])
      (simp_all add: show_u64_def dec_digits.simps digit_char_def)
qed

section \<open>Boot nodes from the chain\<close>

text \<open>
  When the registry answers a query about nodes with one flag for each, the boot nodes are
  the announced nodes that the registry still trusts, in the order of their announcements.
\<close>

lemma boot_nodes_are_trusted:
  assumes "get_rpc x cache 7777777 = (Ok rpc, cache')"
    "get_logs x rpc \<lparr>flt_address = BOOTNODES_CONTRACT_ADDRESS, flt_event = ''TrustedNodeAdded(string)'',
       flt_from_block = Some BOOTNODES_CONTRACT_DEPLOY_BLOCK\<rparr> = Ok logs"
    "\<forall>ns. \<exists>b. eth_call x rpc BOOTNODES_CONTRACT_ADDRESS (abi_encode x (IsTrustedNode ns)) = Ok b \<and>
       decode_trusted x b = Ok (map T ns)"
  shows "get_contract_boot_nodes x cache =
    (Ok (filter T (List.map_filter (\<lambda>log. ok (decode_node_added x (log_topics log) (log_data log))) logs)), cache')"
proof -
  have z: "map snd (filter fst (zip (map T ns) ns)) = filter T ns" for ns by (induction ns) simp_all
  have "view_contract_call x (decode_trusted x) (IsTrustedNode ns) rpc BOOTNODES_CONTRACT_ADDRESS = Ok (map T ns)" for ns
    using assms(3) [rule_format, of ns] by (auto simp: view_contract_call_def)
  with assms(1,2) show ?thesis by (simp add: get_contract_boot_nodes_def z)
qed

end
