(* ===== verification/ZoraRules.thy ===== *)
theory ZoraRules
  imports Chain
begin

text \<open>
  The rules of the Zora premint types, which \<open>zora_premint_rules!\<close> writes out once for each
  contract namespace (\<open>src/premints/zora_premint/rules.rs\<close>), the rule lists of \<open>v2.rs\<close> and
  \<open>erc20v1.rs\<close>, the default rules of a node, and what an accepted evaluation guarantees.
\<close>

section \<open>The rules\<close>

definition is_authorized_to_create_premint ::
  "ext \<Rightarrow> 'tc zora_premint \<Rightarrow> 's rule_context \<Rightarrow> (evaluation, report) result" where
  "is_authorized_to_create_premint x premint ctx =
     (case ctx_rpc ctx of
        None \<Rightarrow> Ok (Ignore ''Rule requires RPC call'')
      | Some rpc \<Rightarrow>
          (let call = IsAuthorizedToCreatePremint (zp_collection_address premint)
                 (contractAdmin (zp_collection premint)) (contractAdmin (zp_collection premint))
           in case view_contract_call x (decode_authorized x) call rpc PREMINT_FACTORY_ADDR of
                Inl e \<Rightarrow> Err e
              | Inr isAuthorized \<Rightarrow>
                  (if isAuthorized then Ok Accept
                   else Ok (Reject ''Unauthorized to create premint''))))"

definition not_minted ::
  "ext \<Rightarrow> 'tc zora_premint \<Rightarrow> 's rule_context \<Rightarrow> (evaluation, report) result" where
  "not_minted x premint ctx =
     (case ctx_rpc ctx of
        None \<Rightarrow> Ok (Ignore ''Rule requires RPC provider'')
      | Some rpc \<Rightarrow>
          (let call = PremintStatus (zp_collection_address premint) (ca_uid (zp_premint premint))
           in case view_contract_call x (decode_status x) call rpc PREMINT_FACTORY_ADDR of
                Inl e \<Rightarrow> Err e
              | Inr (contractCreated, tokenIdForPremint) \<Rightarrow>
                  (if contractCreated \<and> tokenIdForPremint \<noteq> 0
                   then Ok (Reject ''Premint already minted'') else Ok Accept)))"

definition premint_version_supported ::
  "'tc zora_ns \<Rightarrow> ext \<Rightarrow> 'tc zora_premint \<Rightarrow> 's rule_context \<Rightarrow> (evaluation, report) result" where
  "premint_version_supported ns x premint ctx =
     (case ctx_rpc ctx of
        None \<Rightarrow> Ok (Ignore ''Rule requires RPC provider'')
      | Some rpc \<Rightarrow>
          (let call = SupportedPremintSignatureVersions (zp_collection_address premint)
           in case view_contract_call x (decode_versions x) call rpc PREMINT_FACTORY_ADDR of
                Inl e \<Rightarrow> Err e
              | Inr versions \<Rightarrow>
                  (if ns_version ns \<in> set versions then Ok Accept
                   else Ok (Reject (''Premint version '' @ ns_version ns @ '' not supported by contract'')))))"

definition is_valid_signature ::
  "'tc zora_ns \<Rightarrow> ext \<Rightarrow> 'tc zora_premint \<Rightarrow> 's rule_context \<Rightarrow> (evaluation, report) result" where
  "is_valid_signature ns x premint ctx =
     (case sig_from_str x (zp_signature premint) of
        Inl e \<Rightarrow> Err (Eyre e)
      | Inr signature \<Rightarrow>
          (let hash = ns_hash ns x (zp_premint premint) (eip712_domain_of ns premint)
           in case sig_recover x signature hash of
                Inl e \<Rightarrow> Err (Eyre e)
              | Inr signer \<Rightarrow>
                  (if signer \<noteq> contractAdmin (zp_collection premint)
                   then Ok (Reject (''Invalid signature for contract admin '' @
                     addr_checksum x (contractAdmin (zp_collection premint)) @ '' vs recovered '' @
                     addr_checksum x signer))
                   else Ok Accept)))"

definition is_chain_supported ::
  "'tc zora_premint \<Rightarrow> 's rule_context \<Rightarrow> (evaluation, report) result" where
  "is_chain_supported premint ctx =
     (let supported_chains = [7777777, 999999999, 8453]
      in if zp_chain_id premint \<in> set supported_chains then Ok Accept
         else Ok (Reject ''Chain not supported''))"

section \<open>Rule lists\<close>

fun as_zora_v2 :: "premint_types \<Rightarrow> v2 option" where
  "as_zora_v2 (ZoraV2 p) = Some p"
| "as_zora_v2 _ = None"

fun as_zora_erc20v1 :: "premint_types \<Rightarrow> erc20v1 option" where
  "as_zora_erc20v1 (ZoraERC20V1 p) = Some p"
| "as_zora_erc20v1 _ = None"

definition all_v2_rules :: "ext \<Rightarrow> 's rule list" where
  "all_v2_rules x =
     [typed_rule ''PremintTypes::ZoraV2'' as_zora_v2 ''V2::is_authorized_to_create_premint''
        (is_authorized_to_create_premint x),
      typed_rule ''PremintTypes::ZoraV2'' as_zora_v2 ''V2::is_valid_signature'' (is_valid_signature ns_v2 x),
      typed_rule ''PremintTypes::ZoraV2'' as_zora_v2 ''V2::is_chain_supported'' is_chain_supported,
      typed_rule ''PremintTypes::ZoraV2'' as_zora_v2 ''V2::not_minted'' (not_minted x),
      typed_rule ''PremintTypes::ZoraV2'' as_zora_v2 ''V2::premint_version_supported''
        (premint_version_supported ns_v2 x)]"

text \<open>The module \<open>erc20v1\<close> declares its list under the same name; nothing uses it.\<close>

definition erc20v1_all_v2_rules :: "ext \<Rightarrow> 's rule list" where
  "erc20v1_all_v2_rules x =
     [typed_rule ''PremintTypes::ZoraERC20V1'' as_zora_erc20v1
        ''ERC20V1::is_authorized_to_create_premint'' (is_authorized_to_create_premint x),
      typed_rule ''PremintTypes::ZoraERC20V1'' as_zora_erc20v1 ''ERC20V1::is_valid_signature''
        (is_valid_signature ns_erc20v1 x),
      typed_rule ''PremintTypes::ZoraERC20V1'' as_zora_erc20v1 ''ERC20V1::is_chain_supported''
        is_chain_supported,
      typed_rule ''PremintTypes::ZoraERC20V1'' as_zora_erc20v1 ''ERC20V1::not_minted'' (not_minted x),
      typed_rule ''PremintTypes::ZoraERC20V1'' as_zora_erc20v1 ''ERC20V1::premint_version_supported''
        (premint_version_supported ns_erc20v1 x)]"

definition all_rules :: "ext \<Rightarrow> 's reader \<Rightarrow> 's rule list" where
  "all_rules x rd = general_rules x rd @ all_v2_rules x"

definition add_default_rules :: "ext \<Rightarrow> 's reader \<Rightarrow> 's rules_engine \<Rightarrow> 's rules_engine" where
  "add_default_rules x rd e = e\<lparr>re_rules := re_rules e @ all_rules x rd\<rparr>"

definition new_with_default_rules :: "ext \<Rightarrow> 's reader \<Rightarrow> config \<Rightarrow> 's rules_engine" where
  "new_with_default_rules x rd c = add_default_rules x rd (rules_engine_new c)"

section \<open>Lemmas on single rules\<close>

lemma default_engine [simp]:
  "re_rules (new_with_default_rules x rd c) = all_rules x rd"
  "re_use_rpc (new_with_default_rules x rd c) = cfg_enable_rpc c"
  by (simp_all add: new_with_default_rules_def add_default_rules_def rules_engine_new_def)

lemma rl_check_simps [simp]:
  "rl_check (metadata_rule x n f) item ctx = f (metadata x item) ctx"
  "rl_check (typed_rule t proj n g) item ctx =
     (case proj item of Some p \<Rightarrow> g p ctx | None \<Rightarrow> Ok (Ignore ''Wrong type''))"
  by (simp_all add: metadata_rule_def typed_rule_def)

lemma is_err_checks:
  "is_err (map (check_rule item ctx) rules) \<longleftrightarrow> (\<exists>r\<in>set rules. is_error (rl_check r item ctx))"
  by (auto simp: is_err_def list_ex_iff check_rule_def)

lemma rejected_check: "rejected (check_rule item ctx r) \<longleftrightarrow> \<not> not_rejected (rl_check r item ctx)"
  by (simp add: check_rule_def rejected_iff not_rejected_def)

lemma is_accept_checks:
  "is_accept (map (check_rule item ctx) rules) \<longleftrightarrow>
     (\<exists>r\<in>set rules. is_error (rl_check r item ctx)) \<or> (\<forall>r\<in>set rules. not_rejected (rl_check r item ctx))"
  by (simp add: is_accept_iff is_err_checks rejected_check)

lemma not_rejected_simps [simp]:
  "not_rejected (Ok Accept)" "not_rejected (Ok (Ignore m))" "\<not> not_rejected (Ok (Reject m))"
  "not_rejected (Err e)"
  by (simp_all add: not_rejected_def)

lemma chain_rule [rule_simps]:
  "is_ok (is_chain_supported p ctx)"
  "not_rejected (is_chain_supported p ctx) \<longleftrightarrow> zp_chain_id p \<in> {7777777, 999999999, 8453}"
  by (simp_all add: is_chain_supported_def Let_def)

text \<open>The signature is that of the contract admin over the premint's typed data hash.\<close>

definition signed_by_admin :: "'tc zora_ns \<Rightarrow> ext \<Rightarrow> 'tc zora_premint \<Rightarrow> bool" where
  "signed_by_admin ns x p \<longleftrightarrow>
     (case sig_from_str x (zp_signature p) of
        Inl _ \<Rightarrow> False
      | Inr sg \<Rightarrow> sig_recover x sg (ns_hash ns x (zp_premint p) (eip712_domain_of ns p)) =
          Ok (contractAdmin (zp_collection p)))"

definition signature_malformed :: "'tc zora_ns \<Rightarrow> ext \<Rightarrow> 'tc zora_premint \<Rightarrow> bool" where
  "signature_malformed ns x p \<longleftrightarrow>
     (case sig_from_str x (zp_signature p) of
        Inl _ \<Rightarrow> True
      | Inr sg \<Rightarrow> is_error (sig_recover x sg (ns_hash ns x (zp_premint p) (eip712_domain_of ns p))))"

lemma signature_rule [rule_simps]:
  "is_ok (is_valid_signature ns x p ctx) \<longleftrightarrow> \<not> signature_malformed ns x p"
  "not_rejected (is_valid_signature ns x p ctx) \<longleftrightarrow> signature_malformed ns x p \<or> signed_by_admin ns x p"
  by (auto simp: is_valid_signature_def signature_malformed_def signed_by_admin_def Let_def split: sum.splits)

lemma offline_rules [rule_simps]:
  assumes "ctx_rpc ctx = None"
  shows "is_ok (is_authorized_to_create_premint x p ctx)" "not_rejected (is_authorized_to_create_premint x p ctx)"
    "is_ok (not_minted x p ctx)" "not_rejected (not_minted x p ctx)"
    "is_ok (premint_version_supported ns x p ctx)" "not_rejected (premint_version_supported ns x p ctx)"
  using assms by (simp_all add: is_authorized_to_create_premint_def not_minted_def premint_version_supported_def)

text \<open>What the contract says when the three rules that ask it neither fail nor reject.\<close>

definition contract_agrees :: "'tc zora_ns \<Rightarrow> ext \<Rightarrow> provider \<Rightarrow> 'tc zora_premint \<Rightarrow> bool" where
  "contract_agrees ns x rpc p \<longleftrightarrow>
     (let admin = contractAdmin (zp_collection p);
          call = (\<lambda>c. eth_call x rpc PREMINT_FACTORY_ADDR (abi_encode x c))
      in (\<exists>b. call (IsAuthorizedToCreatePremint (zp_collection_address p) admin admin) = Ok b \<and>
            decode_authorized x b = Ok True) \<and>
         (\<exists>b created tok. call (PremintStatus (zp_collection_address p) (ca_uid (zp_premint p))) = Ok b \<and>
            decode_status x b = Ok (created, tok) \<and> \<not> (created \<and> tok \<noteq> 0)) \<and>
         (\<exists>b vs. call (SupportedPremintSignatureVersions (zp_collection_address p)) = Ok b \<and>
            decode_versions x b = Ok vs \<and> ns_version ns \<in> set vs))"

lemma map_err_Ok: "map_err f r = Ok v \<longleftrightarrow> r = Ok v"
  by (cases r) simp_all

lemma view_contract_call_Ok:
  "view_contract_call x dec call rpc a = Ok r \<longleftrightarrow>
     (\<exists>b. eth_call x rpc a (abi_encode x call) = Ok b \<and> dec b = Ok r)"
  by (simp add: view_contract_call_def map_err_Ok split: sum.splits)

lemma online_rules:
  assumes "ctx_rpc ctx = Some rpc"
    "is_ok (is_authorized_to_create_premint x p ctx)" "not_rejected (is_authorized_to_create_premint x p ctx)"
    "is_ok (not_minted x p ctx)" "not_rejected (not_minted x p ctx)"
    "is_ok (premint_version_supported ns x p ctx)" "not_rejected (premint_version_supported ns x p ctx)"
  shows "contract_agrees ns x rpc p"
proof -
  let ?admin = "contractAdmin (zp_collection p)"
  have "view_contract_call x (decode_authorized x)
    (IsAuthorizedToCreatePremint (zp_collection_address p) ?admin ?admin) rpc PREMINT_FACTORY_ADDR = Ok True"
    using assms(1-3) by (auto simp: is_authorized_to_create_premint_def Let_def split: sum.splits if_splits)
  moreover have "\<exists>created tok. view_contract_call x (decode_status x)
      (PremintStatus (zp_collection_address p) (ca_uid (zp_premint p))) rpc PREMINT_FACTORY_ADDR = Ok (created, tok) \<and>
      \<not> (created \<and> tok \<noteq> 0)"
    using assms(1,4,5) by (auto simp: not_minted_def Let_def split: sum.splits if_splits)
  moreover have "\<exists>vs. view_contract_call x (decode_versions x)
      (SupportedPremintSignatureVersions (zp_collection_address p)) rpc PREMINT_FACTORY_ADDR = Ok vs \<and>
      ns_version ns \<in> set vs"
    using assms(1,6,7) by (auto simp: premint_version_supported_def Let_def split: sum.splits if_splits)
  ultimately show ?thesis unfolding contract_agrees_def view_contract_call_Ok Let_def by blast
qed

section \<open>What the default rules decide\<close>

text \<open>The conditions on a premint that the store decides: URI, earlier version, claimed URI.\<close>

definition uri_length_ok :: "string \<Rightarrow> bool" where
  "uri_length_ok uri \<longleftrightarrow> 0 < length uri \<and> length uri \<le> (if starts_with uri ''data:'' then 8192 else 2048)"

definition uri_free :: "ext \<Rightarrow> premint_storage \<Rightarrow> premint_types \<Rightarrow> bool" where
  "uri_free x s p \<longleftrightarrow>
     (case get_for_token_uri x s (md_uri (metadata x p)) of
        Inr q \<Rightarrow> md_id (metadata x q) = md_id (metadata x p) | Inl _ \<Rightarrow> True)"

definition supersedes :: "ext \<Rightarrow> premint_types option \<Rightarrow> premint_types \<Rightarrow> bool" where
  "supersedes x existing p \<longleftrightarrow>
     (\<forall>q. existing = Some q \<longrightarrow> md_signer (metadata x q) = md_signer (metadata x p) \<and>
        md_version (metadata x p) > md_version (metadata x q))"

definition store_allows :: "ext \<Rightarrow> premint_storage \<Rightarrow> premint_types \<Rightarrow> bool" where
  "store_allows x s p \<longleftrightarrow> uri_length_ok (md_uri (metadata x p)) \<and> uri_free x s p \<and>
     supersedes x (existing_in x (view x s) p) p"

lemma uri_rule:
  assumes "good_store x s" "db_up s" "ctx_storage ctx = s"
  shows "is_ok (existing_token_uri x (storage_reader x) (metadata x p) ctx)"
    "not_rejected (existing_token_uri x (storage_reader x) (metadata x p) ctx) \<longleftrightarrow> uri_free x s p"
  using db.existing_token_uri_Ok(1) [OF assms] db.uri_law [OF assms(1,2), of "md_uri (metadata x p)"]
  by (auto simp: existing_token_uri_def uri_free_def assms(3) storage_reader_def split: sum.splits)

lemma general_rules_decide:
  assumes "good_store x s" "db_up s" "ctx = \<lparr>ctx_storage = s, ctx_existing = existing_in x (view x s) p, ctx_rpc = rpc\<rparr>"
  shows "\<forall>r\<in>set (general_rules x (storage_reader x)). is_ok (rl_check r p ctx)"
    "(\<forall>r\<in>set (general_rules x (storage_reader x)). not_rejected (rl_check r p ctx)) \<longleftrightarrow> store_allows x s p"
proof -
  have c: "ctx_storage ctx = s" using assms(3) by simp
  show "\<forall>r\<in>set (general_rules x (storage_reader x)). is_ok (rl_check r p ctx)"
    using uri_rule(1) [OF assms(1,2) c] by (simp add: general_rules_def rule_simps)
  show "(\<forall>r\<in>set (general_rules x (storage_reader x)). not_rejected (rl_check r p ctx)) \<longleftrightarrow> store_allows x s p"
    using uri_rule(2) [OF assms(1,2) c]
    by (auto simp: general_rules_def rule_simps store_allows_def uri_length_ok_def supersedes_def assms(3))
qed

text \<open>The V2 rules on another type are all ignored.\<close>

lemma v2_rules_other:
  "as_zora_v2 p = None \<Longrightarrow> r \<in> set (all_v2_rules x) \<Longrightarrow> rl_check r p ctx = Ok (Ignore ''Wrong type'')"
  by (auto simp: all_v2_rules_def)

lemma default_evaluation:
  assumes "good_store x s" "db_up s"
  shows "\<exists>rpc cache'. rules_rpc x (cfg_enable_rpc c) cache (md_chain_id (metadata x p)) = (rpc, cache') \<and>
    evaluate x (storage_reader x) (new_with_default_rules x (storage_reader x) c) cache p s =
      (Ok (map (check_rule p \<lparr>ctx_storage = s, ctx_existing = existing_in x (view x s) p, ctx_rpc = rpc\<rparr>)
        (all_rules x (storage_reader x))), cache')"
  by (simp add: db.evaluate_up [OF assms] run_rules_def Let_def split: prod.split)

text \<open>
  C16. Without RPC, the default rules accept a V2 premint exactly when its signature is
  malformed, or the contract admin signed it, its chain is one of the three, its URI has a legal
  length and belongs to no other token, and it supersedes the stored version: same signer and a
  higher version. So a signature that cannot be read switches every other rule off.
\<close>

theorem offline_v2_acceptance:
  assumes "good_store x s" "db_up s" "\<not> cfg_enable_rpc c"
  shows "\<exists>rs. evaluate x (storage_reader x) (new_with_default_rules x (storage_reader x) c) cache (ZoraV2 p) s =
      (Ok rs, cache) \<and>
    (is_accept rs \<longleftrightarrow> signature_malformed ns_v2 x p \<or>
       (signed_by_admin ns_v2 x p \<and> zp_chain_id p \<in> {7777777, 999999999, 8453} \<and> store_allows x s (ZoraV2 p)))"
proof -
  let ?ctx = "\<lparr>ctx_storage = s, ctx_existing = existing_in x (view x s) (ZoraV2 p), ctx_rpc = None\<rparr>"
  note g = general_rules_decide [OF assms(1,2) refl, of "ZoraV2 p" None]
  have off: "ctx_rpc ?ctx = None" by simp
  have v: "(\<exists>r\<in>set (all_v2_rules x). is_error (rl_check r (ZoraV2 p) ?ctx)) \<longleftrightarrow> signature_malformed ns_v2 x p"
    "(\<forall>r\<in>set (all_v2_rules x). not_rejected (rl_check r (ZoraV2 p) ?ctx)) \<longleftrightarrow>
      zp_chain_id p \<in> {7777777, 999999999, 8453} \<and> (signature_malformed ns_v2 x p \<or> signed_by_admin ns_v2 x p)"
    by (auto simp: all_v2_rules_def rule_simps offline_rules [OF off])
  have "is_accept (map (check_rule (ZoraV2 p) ?ctx) (all_rules x (storage_reader x))) \<longleftrightarrow>
    signature_malformed ns_v2 x p \<or>
    (signed_by_admin ns_v2 x p \<and> zp_chain_id p \<in> {7777777, 999999999, 8453} \<and> store_allows x s (ZoraV2 p))"
    unfolding is_accept_checks all_rules_def set_append ball_Un bex_Un v g(2) using g(1) by blast
  with default_evaluation [OF assms(1,2), of c cache "ZoraV2 p"] assms(3) show ?thesis
    by (auto simp: rules_rpc_off)
qed

text \<open>
  C10. Whenever the default rules accept a V2 premint and no rule failed, the contract admin
  signed it, its chain is supported, the store allows it, and the factory contract agrees if a
  connection was available: the admin may create the premint, it is not minted yet, and the
  contract supports its version.
\<close>

theorem clean_acceptance_guarantees:
  assumes "good_store x s" "db_up s" "is_accept rs" "\<not> is_err rs"
    "evaluate x (storage_reader x) (new_with_default_rules x (storage_reader x) c) cache (ZoraV2 p) s = (Ok rs, cache')"
  shows "signed_by_admin ns_v2 x p \<and> zp_chain_id p \<in> {7777777, 999999999, 8453} \<and>
    store_allows x s (ZoraV2 p) \<and>
    (\<forall>rpc. cfg_enable_rpc c \<and> fst (get_rpc x cache (zp_chain_id p)) = Ok rpc \<longrightarrow> contract_agrees ns_v2 x rpc p)"
proof -
  obtain rpc where rpc: "rules_rpc x (cfg_enable_rpc c) cache (md_chain_id (metadata x (ZoraV2 p))) = (rpc, cache')"
    and rs: "rs = map (check_rule (ZoraV2 p) \<lparr>ctx_storage = s, ctx_existing = existing_in x (view x s) (ZoraV2 p),
      ctx_rpc = rpc\<rparr>) (all_rules x (storage_reader x))"
    using default_evaluation [OF assms(1,2), of c cache "ZoraV2 p"] assms(5) by auto
  let ?ctx = "\<lparr>ctx_storage = s, ctx_existing = existing_in x (view x s) (ZoraV2 p), ctx_rpc = rpc\<rparr>"
  note g = general_rules_decide [OF assms(1,2) refl, of "ZoraV2 p" rpc]
  have fine: "\<forall>r\<in>set (all_rules x (storage_reader x)).
      is_ok (rl_check r (ZoraV2 p) ?ctx) \<and> not_rejected (rl_check r (ZoraV2 p) ?ctx)"
    using assms(3,4) unfolding rs is_accept_checks is_err_checks by blast
  then have store: "store_allows x s (ZoraV2 p)" unfolding g(2) [symmetric] all_rules_def by simp
  have v2: "\<forall>r\<in>set (all_v2_rules x). is_ok (rl_check r (ZoraV2 p) ?ctx) \<and> not_rejected (rl_check r (ZoraV2 p) ?ctx)"
    using fine by (simp add: all_rules_def)
  then have sig: "signed_by_admin ns_v2 x p" and chain: "zp_chain_id p \<in> {7777777, 999999999, 8453}"
    by (auto simp: all_v2_rules_def rule_simps)
  moreover have "contract_agrees ns_v2 x r p" if "cfg_enable_rpc c" "fst (get_rpc x cache (zp_chain_id p)) = Ok r" for r
  proof -
    have "zp_chain_id p \<noteq> 0" using chain by auto
    then have "rpc = Some r" using rpc that by (auto simp: rules_rpc_def zora_metadata_def split: prod.splits)
    then show ?thesis using v2 by (intro online_rules [of ?ctx]) (simp_all add: all_v2_rules_def)
  qed
  ultimately show ?thesis using store by blast
qed

text \<open>
  C35. No default rule looks at the signature, the chain or the contract of an ERC20V1 premint:
  it is accepted as soon as the store allows it, whoever signed it and whatever the chain says.
\<close>

theorem erc20v1_not_validated:
  assumes "good_store x s" "db_up s"
  shows "\<exists>rs cache'. evaluate x (storage_reader x) (new_with_default_rules x (storage_reader x) c) cache
      (ZoraERC20V1 p) s = (Ok rs, cache') \<and> (is_accept rs \<longleftrightarrow> store_allows x s (ZoraERC20V1 p))"
proof -
  obtain rpc cache' where e: "evaluate x (storage_reader x) (new_with_default_rules x (storage_reader x) c) cache
      (ZoraERC20V1 p) s =
      (Ok (map (check_rule (ZoraERC20V1 p) \<lparr>ctx_storage = s, ctx_existing = existing_in x (view x s) (ZoraERC20V1 p),
        ctx_rpc = rpc\<rparr>) (all_rules x (storage_reader x))), cache')"
    using default_evaluation [OF assms, of c cache "ZoraERC20V1 p"] by blast
  note g = general_rules_decide [OF assms refl, of "ZoraERC20V1 p" rpc]
  have w: "rl_check r (ZoraERC20V1 p) ctx = Ok (Ignore ''Wrong type'')" if "r \<in> set (all_v2_rules x)"
    for r and ctx :: "premint_storage rule_context"
    using that by (intro v2_rules_other) simp_all
  have "is_accept (map (check_rule (ZoraERC20V1 p) \<lparr>ctx_storage = s,
      ctx_existing = existing_in x (view x s) (ZoraERC20V1 p), ctx_rpc = rpc\<rparr>) (all_rules x (storage_reader x))) \<longleftrightarrow>
    store_allows x s (ZoraERC20V1 p)"
    unfolding is_accept_checks all_rules_def set_append ball_Un bex_Un g(2)
    using g(1) w by (auto dest: w)
  with e show ?thesis by blast
qed

section \<open>Evaluations on concrete stores\<close>

definition offline_config :: config where
  "offline_config = (config_test_default 7778)\<lparr>cfg_enable_rpc := False\<rparr>"

text \<open>The default V2 premint: its URI and its signature are empty, its chain is 0.\<close>

theorem offline_v2_acceptance_witness:
  "\<exists>rs. evaluate sample_ext (storage_reader sample_ext)
      (new_with_default_rules sample_ext (storage_reader sample_ext) offline_config) Map.empty
      (ZoraV2 v2_default) (sample_store True) = (Ok rs, Map.empty) \<and> is_accept rs"
proof -
  have "signature_malformed ns_v2 sample_ext v2_default"
    by (simp add: signature_malformed_def sample_ext_def default_defs)
  moreover have "\<not> cfg_enable_rpc offline_config" by (simp add: offline_config_def)
  ultimately show ?thesis
    using offline_v2_acceptance [OF sample_good [of True] sample_up, of offline_config Map.empty v2_default] by auto
qed

text \<open>A V2 premint by the admin whose address is the code of the character it is signed with.\<close>

definition signed_as :: "char \<Rightarrow> u32 \<Rightarrow> v2" where
  "signed_as ch v = sample_v2\<lparr>
     zp_collection := contract_config_default\<lparr>contractAdmin := ucast (of_nat (of_char ch) :: u8)\<rparr>,
     zp_premint := (zp_premint sample_v2)\<lparr>tokenConfig := v2_token_config_default\<lparr>v2_tokenURI := ''ipfs''\<rparr>,
       ca_version := v\<rparr>,
     zp_signature := [ch]\<rparr>"

abbreviation signed_v2 :: v2 where
  "signed_v2 \<equiv> signed_as (CHR ''A'') 0"

lemma signed_as_allowed: "store_allows sample_ext (sample_store b) (ZoraV2 (signed_as ch v))"
proof -
  have "uri_free sample_ext (sample_store b) (ZoraV2 (signed_as ch v))"
    using db.uri_law [OF sample_good sample_up, of b "md_uri (metadata sample_ext (ZoraV2 (signed_as ch v)))"]
    by (auto simp: uri_free_def storage_reader_def split: sum.splits)
  then show ?thesis
    by (simp add: store_allows_def supersedes_def existing_in_def uri_length_ok_def)
      (simp add: zora_metadata_def ns_v2_def signed_as_def sample_v2_def default_defs starts_with_def)
qed

lemma signed_as_clean:
  assumes "r \<in> set (all_rules sample_ext (storage_reader sample_ext))"
    "ctx = \<lparr>ctx_storage = sample_store b,
      ctx_existing = existing_in sample_ext (view sample_ext (sample_store b)) (ZoraV2 (signed_as ch v)), ctx_rpc = Some rpc\<rparr>"
  shows "is_ok (rl_check r (ZoraV2 (signed_as ch v)) ctx) \<and> not_rejected (rl_check r (ZoraV2 (signed_as ch v)) ctx)"
proof (cases "r \<in> set (general_rules sample_ext (storage_reader sample_ext))")
  case True
  then show ?thesis
    using general_rules_decide [OF sample_good sample_up assms(2)] signed_as_allowed by blast
next
  case False
  then have "r \<in> set (all_v2_rules sample_ext)" using assms(1) by (simp add: all_rules_def)
  moreover have "zp_chain_id (signed_as ch v) = 7777777" "zp_signature (signed_as ch v) = [ch]"
    "contractAdmin (zp_collection (signed_as ch v)) = ucast (of_nat (of_char ch) :: u8)" "ca_uid (zp_premint (signed_as ch v)) = 3"
    by (simp_all add: signed_as_def sample_v2_def default_defs)
  ultimately show ?thesis using assms(2)
    by (auto simp: all_v2_rules_def rule_simps is_authorized_to_create_premint_def not_minted_def
        premint_version_supported_def view_contract_call_def signature_malformed_def
        signed_by_admin_def sample_ext_def ns_v2_def)
qed

theorem clean_acceptance_guarantees_witness:
  "\<exists>rs cache'. evaluate sample_ext (storage_reader sample_ext)
      (new_with_default_rules sample_ext (storage_reader sample_ext) (config_test_default 0)) Map.empty
      (ZoraV2 signed_v2) (sample_store True) = (Ok rs, cache') \<and> is_accept rs \<and>
    contract_agrees ns_v2 sample_ext (WsProvider ''wss://rpc.zora.energy'') signed_v2"
proof -
  let ?c = "config_test_default 0"
  have rpc: "rules_rpc sample_ext (cfg_enable_rpc ?c) Map.empty (md_chain_id (metadata sample_ext (ZoraV2 signed_v2))) =
    (Some (WsProvider ''wss://rpc.zora.energy''),
     [''wss://rpc.zora.energy'' \<mapsto> WsProvider ''wss://rpc.zora.energy''])"
    using sample_rpc
    by (simp add: rules_rpc_def config_test_default_def zora_metadata_def signed_as_def sample_v2_def default_defs)
  let ?rs = "map (check_rule (ZoraV2 signed_v2) \<lparr>ctx_storage = sample_store True,
      ctx_existing = existing_in sample_ext (view sample_ext (sample_store True)) (ZoraV2 signed_v2),
      ctx_rpc = Some (WsProvider ''wss://rpc.zora.energy'')\<rparr>) (all_rules sample_ext (storage_reader sample_ext))"
  have e: "evaluate sample_ext (storage_reader sample_ext)
      (new_with_default_rules sample_ext (storage_reader sample_ext) ?c) Map.empty
      (ZoraV2 signed_v2) (sample_store True) = (Ok ?rs, [''wss://rpc.zora.energy'' \<mapsto> WsProvider ''wss://rpc.zora.energy''])"
    using default_evaluation [OF sample_good [of True] sample_up, of ?c Map.empty "ZoraV2 signed_v2"] rpc by auto
  have a: "is_accept ?rs" "\<not> is_err ?rs"
    using signed_as_clean unfolding is_accept_checks is_err_checks by blast+
  have "cfg_enable_rpc ?c" "fst (get_rpc sample_ext Map.empty (zp_chain_id signed_v2)) = Ok (WsProvider ''wss://rpc.zora.energy'')"
    using sample_rpc by (simp_all add: config_test_default_def signed_as_def sample_v2_def default_defs)
  with clean_acceptance_guarantees [OF sample_good sample_up a e] e a show ?thesis by blast
qed

theorem erc20v1_not_validated_witness:
  "\<exists>rs cache'. evaluate sample_ext (storage_reader sample_ext)
      (new_with_default_rules sample_ext (storage_reader sample_ext) offline_config) Map.empty
      (ZoraERC20V1 erc20v1_default) (sample_store True) = (Ok rs, cache')"
  using erc20v1_not_validated [OF sample_good sample_up] by blast

end
