(* ===== verification/Controller.thy ===== *)
theory Controller
  imports ZoraRules
begin

text \<open>
  The controller (\<open>src/controller.rs\<close>): it receives commands from the API, the command line and
  the chain watchers, and events from the network; it validates and stores premints, marks them
  as minted, and sends commands to the swarm. Its loop handles one input at a time; only the
  premints of a sync response are processed concurrently, up to ten at once.
\<close>

section \<open>Commands and events\<close>

text \<open>A oneshot sender, and whether the receiver still waits.\<close>

record reply_channel =
  rp_id :: nat
  rp_open :: bool

datatype swarm_command =
    ScConnectToPeer string
  | ScReturnNetworkState reply_channel
  | ScAnnounceSelf
  | ScBroadcast premint_types
  | ScReturnNodeInfo reply_channel
  | ScSendOnchainMintFound inclusion_claim
  | ScSync query_options

datatype p2p_event =
    EvNetworkState network_state
  | EvPremintReceived premint_types
  | EvMintSeenOnchain peer_inclusion_claim
  | EvSyncRequest query_options reply_channel
  | EvSyncResponse "premint_types list"

datatype db_query = ListAll reply_channel | Direct reply_channel

datatype controller_command =
    CcConnectToPeer string
  | CcReturnNetworkState reply_channel
  | CcAnnounceSelf
  | CcBroadcast premint_types reply_channel
  | CcReturnNodeInfo reply_channel
  | CcQuery db_query
  | CcResolveOnchainMint inclusion_claim
  | CcSync

text \<open>What is sent back; a pool is a handle on the database of the store.\<close>

datatype reply =
    ReplyDone "(unit, report) result"
  | ReplyPremints "(premint_types list, report) result"
  | ReplyPool

section \<open>The state\<close>

text \<open>
  The queue to the swarm holds what was sent and is closed when the swarm is gone. The rules
  are given what the chain client does at the time. The connections are those of the process.
\<close>

record controller =
  ct_swarm :: "swarm_command list"
  ct_swarm_open :: bool
  ct_replies :: "(nat \<times> reply) list"
  ct_store :: premint_storage
  ct_rules :: "ext \<Rightarrow> premint_storage rules_engine"
  ct_chains :: rpc_cache
  ct_config :: config

definition controller_new ::
  "config \<Rightarrow> premint_storage \<Rightarrow> (ext \<Rightarrow> premint_storage rules_engine) \<Rightarrow> controller" where
  "controller_new cfg s rules =
     \<lparr>ct_swarm = [], ct_swarm_open = True, ct_replies = [], ct_store = s, ct_rules = rules,
      ct_chains = Map.empty, ct_config = cfg\<rparr>"

definition send_swarm :: "swarm_command \<Rightarrow> controller \<Rightarrow> (unit, report) result \<times> controller" where
  "send_swarm cmd c =
     (if ct_swarm_open c then (Ok (), c\<lparr>ct_swarm := ct_swarm c @ [cmd]\<rparr>)
      else (Err (Eyre ''channel closed''), c))"

text \<open>The flag says whether the receiver got the reply.\<close>

definition send_reply :: "reply_channel \<Rightarrow> reply \<Rightarrow> controller \<Rightarrow> bool \<times> controller" where
  "send_reply ch v c =
     (if rp_open ch then (True, c\<lparr>ct_replies := ct_replies c @ [(rp_id ch, v)]\<rparr>) else (False, c))"

section \<open>Storing premints\<close>

definition validate_and_insert ::
  "ext \<Rightarrow> premint_types \<Rightarrow> controller \<Rightarrow> (results, report) result \<times> controller" where
  "validate_and_insert x premint c =
     (case evaluate x (storage_reader x) (ct_rules c x) (ct_chains c) premint (storage_clone (ct_store c)) of
        (Inl e, cache) \<Rightarrow> (Err e, c\<lparr>ct_chains := cache\<rparr>)
      | (Inr evaluation, cache) \<Rightarrow>
          (if is_accept evaluation then
             (case store x (ct_store c) premint of
                (Inl e, s) \<Rightarrow>
                  (Err (Context ''Failed to store premint'' e), c\<lparr>ct_chains := cache, ct_store := s\<rparr>)
              | (Inr _, s) \<Rightarrow> (Ok evaluation, c\<lparr>ct_chains := cache, ct_store := s\<rparr>))
           else (Err (Context ''Premint failed validation'' (Validation evaluation)),
                 c\<lparr>ct_chains := cache\<rparr>)))"

section \<open>Sync responses\<close>

text \<open>
  The tasks of a sync response run \<open>validate_and_insert\<close> with its awaits between reading the
  existing premint, running the rules, and storing; a semaphore lets ten of them work. A
  schedule says which task goes on at each turn; what it leaves undone is then done in order.
\<close>

datatype sync_task =
    Queued premint_types
  | Found premint_types "(premint_types option, report) result"
  | Evaluated premint_types results
  | Finished

fun holds_permit :: "sync_task \<Rightarrow> bool" where
  "holds_permit (Found _ _) = True"
| "holds_permit (Evaluated _ _) = True"
| "holds_permit _ = False"

fun advance_task :: "ext \<Rightarrow> nat \<Rightarrow> sync_task \<Rightarrow> controller \<Rightarrow> sync_task \<times> controller" where
  "advance_task x working (Queued p) c =
     (if working < 10
      then (Found p (lookup_existing x (storage_reader x) p (storage_clone (ct_store c))), c)
      else (Queued p, c))"
| "advance_task x working (Found p (Inl e)) c = (Finished, c)"
| "advance_task x working (Found p (Inr existing)) c =
     (let (results, cache) =
            run_rules x (ct_rules c x) (ct_chains c) p (storage_clone (ct_store c)) existing
      in (Evaluated p results, c\<lparr>ct_chains := cache\<rparr>))"
| "advance_task x working (Evaluated p results) c =
     (if is_accept results then (Finished, c\<lparr>ct_store := snd (store x (ct_store c) p)\<rparr>)
      else (Finished, c))"
| "advance_task x working Finished c = (Finished, c)"

definition advance :: "ext \<Rightarrow> nat \<Rightarrow> sync_task list \<times> controller \<Rightarrow> sync_task list \<times> controller" where
  "advance x i st =
     (case st of (tasks, c) \<Rightarrow>
        (if i < length tasks then
           (let working = length (filter holds_permit tasks);
                (t, c') = advance_task x working (tasks ! i) c
            in (tasks[i := t], c'))
         else (tasks, c)))"

text \<open>Two rounds of three turns for each task finish whatever a schedule has left.\<close>

definition remaining_turns :: "nat \<Rightarrow> nat list" where
  "remaining_turns n =
     (let round = concat (map (\<lambda>i. [i, i, i]) [0..<n]) in round @ round)"

definition run_sync :: "ext \<Rightarrow> nat list \<Rightarrow> premint_types list \<Rightarrow> controller \<Rightarrow> sync_task list \<times> controller" where
  "run_sync x schedule premints c =
     fold (advance x) (schedule @ remaining_turns (length premints)) (map Queued premints, c)"

section \<open>Claims of peers\<close>

definition handle_event_onchain_claim ::
  "ext \<Rightarrow> peer_inclusion_claim \<Rightarrow> controller \<Rightarrow> (unit, report) result outcome \<times> controller" where
  "handle_event_onchain_claim x peer_claim c =
     (let claim = pc_claim peer_claim
      in case cfg_chain_inclusion_mode (ct_config c) of
           Trust \<Rightarrow>
             (if pc_from_peer_id peer_claim \<in> set (trusted_peers x (ct_config c)) then
                (let (r, s) = mark_seen_on_chain x (ct_store c) claim in (Returns r, c\<lparr>ct_store := s\<rparr>))
              else (Returns (Ok ()), c))
         | _ \<Rightarrow>
             (case get_for_id_and_kind x (st_db (ct_store c)) (cl_premint_id claim)
                     (PremintName (cl_kind claim)) of
                Inl err \<Rightarrow>
                  (Returns (Err (Eyre (''Error getting premint for onchain claim: '' @ report_text x err))), c)
              | Inr premint \<Rightarrow>
                  (case inclusion_claim_correct x (ct_chains c) premint claim of
                     (Panic, cache) \<Rightarrow> (Panic, c\<lparr>ct_chains := cache\<rparr>)
                   | (Returns (Inr True), cache) \<Rightarrow>
                       (let (r, s) = mark_seen_on_chain x (ct_store c) claim
                        in (Returns r, c\<lparr>ct_chains := cache, ct_store := s\<rparr>))
                   | (Returns _, cache) \<Rightarrow> (Returns (Ok ()), c\<lparr>ct_chains := cache\<rparr>))))"

section \<open>Requests for synchronisation\<close>

text \<open>
  The arithmetic wraps, as in a release build; a time before the earliest date, or a swarm that
  is gone, panics.
\<close>

definition request_sync :: "ext \<Rightarrow> int \<Rightarrow> controller \<Rightarrow> unit outcome \<times> controller" where
  "request_sync x now c =
     (let lookback = 60 * 60 * cfg_sync_lookback_hours (ct_config c);
          from = now - uint lookback
      in if from < time_min x then (Panic, c)
         else (case send_swarm (ScSync (query_options_default\<lparr>qo_from := Some from\<rparr>)) c of
                 (Inl e, c') \<Rightarrow> (Panic, c')
               | (Inr _, c') \<Rightarrow> (Returns (), c')))"

section \<open>Handlers\<close>

fun handle_event ::
  "ext \<Rightarrow> nat list \<Rightarrow> p2p_event \<Rightarrow> controller \<Rightarrow> unit outcome \<times> controller" where
  "handle_event x schedule (EvNetworkState network_state) c = (Returns (), c)"
| "handle_event x schedule (EvPremintReceived premint) c =
     (Returns (), snd (validate_and_insert x premint c))"
| "handle_event x schedule (EvMintSeenOnchain claim) c =
     (case handle_event_onchain_claim x claim c of
        (Panic, c') \<Rightarrow> (Panic, c')
      | (Returns _, c') \<Rightarrow> (Returns (), c'))"
| "handle_event x schedule (EvSyncRequest query channel) c =
     (Returns (), snd (send_reply channel
        (ReplyPremints (list_all_with_options x (st_db (ct_store c)) query)) c))"
| "handle_event x schedule (EvSyncResponse premints) c =
     (Returns (), snd (run_sync x schedule premints c))"

text \<open>The debug text of the value that could not be sent is left out of the error.\<close>

definition reply_or_fail :: "reply_channel \<Rightarrow> reply \<Rightarrow> controller \<Rightarrow> (unit, report) result \<times> controller" where
  "reply_or_fail ch v c =
     (let (sent, c') = send_reply ch v c
      in (if sent then Ok () else Err (Eyre ''error broadcasting via channel''), c'))"

fun handle_command ::
  "ext \<Rightarrow> int \<Rightarrow> controller_command \<Rightarrow> controller \<Rightarrow> (unit, report) result outcome \<times> controller" where
  "handle_command x now (CcConnectToPeer addr) c =
     (let (r, c') = send_swarm (ScConnectToPeer addr) c in (Returns r, c'))"
| "handle_command x now (CcReturnNetworkState channel) c =
     (let (r, c') = send_swarm (ScReturnNetworkState channel) c in (Returns r, c'))"
| "handle_command x now CcAnnounceSelf c =
     (let (r, c') = send_swarm ScAnnounceSelf c in (Returns r, c'))"
| "handle_command x now (CcBroadcast message channel) c =
     (case validate_and_insert x message c of
        (Inr _, c1) \<Rightarrow>
          (case send_swarm (ScBroadcast message) c1 of
             (Inl err, c2) \<Rightarrow>
               (let (r, c3) = reply_or_fail channel
                      (ReplyDone (Err (Eyre ''Error broadcasing premint: SendError { .. }''))) c2
                in (Returns r, c3))
           | (Inr _, c2) \<Rightarrow>
               (let (r, c3) = reply_or_fail channel (ReplyDone (Ok ())) c2 in (Returns r, c3)))
      | (Inl err, c1) \<Rightarrow>
          (let (r, c2) = reply_or_fail channel (ReplyDone (Err err)) c1 in (Returns r, c2)))"
| "handle_command x now (CcReturnNodeInfo channel) c =
     (let (r, c') = send_swarm (ScReturnNodeInfo channel) c in (Returns r, c'))"
| "handle_command x now (CcQuery (ListAll chan)) c =
     (Returns (Ok ()), snd (send_reply chan (ReplyPremints (list_all_premints x (st_db (ct_store c)))) c))"
| "handle_command x now (CcQuery (Direct chan)) c =
     (Returns (Ok ()), snd (send_reply chan ReplyPool c))"
| "handle_command x now (CcResolveOnchainMint claim) c =
     (let c1 = c\<lparr>ct_store := snd (mark_seen_on_chain x (ct_store c) claim)\<rparr>
      in (Returns (Ok ()),
          if cfg_chain_inclusion_mode (ct_config c) = Check
          then snd (send_swarm (ScSendOnchainMintFound claim) c1) else c1))"
| "handle_command x now CcSync c =
     (case request_sync x now c of
        (Panic, c') \<Rightarrow> (Panic, c')
      | (Returns _, c') \<Rightarrow> (Returns (Ok ()), c'))"

section \<open>The loop\<close>

datatype controller_input =
    InCommand controller_command
  | InEvent p2p_event "nat list"
  | InTick

text \<open>One turn of \<open>run_loop\<close>: an error of a command is logged, a panic ends the task.\<close>

fun loop_turn :: "ext \<Rightarrow> int \<Rightarrow> controller_input \<Rightarrow> controller \<Rightarrow> unit outcome \<times> controller" where
  "loop_turn x now (InCommand command) c =
     (case handle_command x now command c of
        (Panic, c') \<Rightarrow> (Panic, c')
      | (Returns _, c') \<Rightarrow> (Returns (), c'))"
| "loop_turn x now (InEvent event schedule) c = handle_event x schedule event c"
| "loop_turn x now InTick c = request_sync x now c"

end
