(* ===== verification/Utf8.thy ===== *)
theory Utf8
  imports Prelude
begin

text \<open>
  Text that comes from the network: \<open>String::from_utf8_lossy\<close> and \<open>String::from_utf8\<close> of
  the Rust standard library, on the bytes of a message. A sequence that is not UTF-8 is replaced,
  up to the first byte that cannot continue it, by the replacement character.
\<close>

section \<open>The chunks of a byte string\<close>

definition utf8_width :: "nat \<Rightarrow> nat" where
  "utf8_width b =
     (if b < 0x80 then 1
      else if 0xC2 \<le> b \<and> b \<le> 0xDF then 2
      else if 0xE0 \<le> b \<and> b \<le> 0xEF then 3
      else if 0xF0 \<le> b \<and> b \<le> 0xF4 then 4
      else 0)"

definition is_cont :: "nat \<Rightarrow> bool" where
  "is_cont b \<longleftrightarrow> 0x80 \<le> b \<and> b \<le> 0xBF"

text \<open>The second byte excludes overlong forms, surrogates and what is beyond \<open>U+10FFFF\<close>.\<close>

definition second_ok :: "nat \<Rightarrow> nat \<Rightarrow> bool" where
  "second_ok a b \<longleftrightarrow>
     (if a = 0xE0 then 0xA0 \<le> b \<and> b \<le> 0xBF
      else if a = 0xED then 0x80 \<le> b \<and> b \<le> 0x9F
      else if a = 0xF0 then 0x90 \<le> b \<and> b \<le> 0xBF
      else if a = 0xF4 then 0x80 \<le> b \<and> b \<le> 0x8F
      else is_cont b)"

text \<open>Past the end a byte reads as zero, which continues nothing.\<close>

definition byte_at :: "string \<Rightarrow> nat \<Rightarrow> nat" where
  "byte_at s i = (if i < length s then of_char (s ! i) else 0)"

text \<open>Whether the string begins with a character, and the length of the first chunk.\<close>

definition utf8_chunk :: "string \<Rightarrow> bool \<times> nat" where
  "utf8_chunk s =
     (let w = utf8_width (byte_at s 0)
      in if w = 0 then (False, 1)
         else if w = 1 then (True, 1)
         else if \<not> second_ok (byte_at s 0) (byte_at s 1) then (False, 1)
         else if w = 2 then (True, 2)
         else if \<not> is_cont (byte_at s 2) then (False, 2)
         else if w = 3 then (True, 3)
         else if \<not> is_cont (byte_at s 3) then (False, 3)
         else (True, 4))"

fun from_utf8_lossy :: "string \<Rightarrow> string" where
  "from_utf8_lossy [] = []"
| "from_utf8_lossy (c # cs) =
     (case utf8_chunk (c # cs) of
        (valid, n) \<Rightarrow>
          (if valid then take n (c # cs) else [CHR 0xEF, CHR 0xBF, CHR 0xBD]) @
            from_utf8_lossy (drop (n - 1) cs))"

fun valid_utf8 :: "string \<Rightarrow> bool" where
  "valid_utf8 [] = True"
| "valid_utf8 (c # cs) =
     (case utf8_chunk (c # cs) of (valid, n) \<Rightarrow> valid \<and> valid_utf8 (drop (n - 1) cs))"

text \<open>\<open>String::from_utf8\<close>\<close>

definition from_utf8 :: "string \<Rightarrow> string option" where
  "from_utf8 s = (if valid_utf8 s then Some s else None)"

section \<open>Text that is UTF-8 is read as it is\<close>

lemma utf8_chunk_pos: "utf8_chunk s = (v, n) \<Longrightarrow> 0 < n"
  by (auto simp: utf8_chunk_def Let_def split: if_splits)

lemma lossy_valid: "valid_utf8 s \<Longrightarrow> from_utf8_lossy s = s"
proof (induction s rule: valid_utf8.induct)
  case (2 c cs)
  obtain v n where u: "utf8_chunk (c # cs) = (v, n)" by (cases "utf8_chunk (c # cs)")
  obtain m where n: "n = Suc m" using utf8_chunk_pos [OF u] by (cases n) auto
  from 2 u show ?case by (simp add: n)
qed simp

lemma ascii_chunk: "of_char c < (0x80 :: nat) \<Longrightarrow> utf8_chunk (c # cs) = (True, 1)"
  by (simp add: utf8_chunk_def byte_at_def utf8_width_def)

lemma valid_utf8_ascii: "\<forall>c\<in>set s. of_char c < (0x80 :: nat) \<Longrightarrow> valid_utf8 s"
  by (induction s) (simp_all add: ascii_chunk)

lemma valid_utf8_ascii_append:
  "\<forall>c\<in>set s. of_char c < (0x80 :: nat) \<Longrightarrow> valid_utf8 (s @ t) = valid_utf8 t"
  by (induction s) (simp_all add: ascii_chunk)

text \<open>Whatever the bytes, what is read is text.\<close>

lemma byte_at_pos: "0 < byte_at s i \<Longrightarrow> i < length s"
  by (simp add: byte_at_def split: if_splits)

lemma second_ok_pos: "second_ok a b \<Longrightarrow> 0 < b"
  by (simp add: second_ok_def is_cont_def split: if_splits)

lemma is_cont_pos: "is_cont b \<Longrightarrow> 0 < b"
  by (simp add: is_cont_def)

lemma byte_at_take: "i < n \<Longrightarrow> n \<le> length s \<Longrightarrow> byte_at (take n s @ t) i = byte_at s i"
  by (simp add: byte_at_def nth_append)

text \<open>A valid chunk, by the number of its bytes.\<close>

lemma chunk_valid_cases:
  "utf8_chunk s = (True, n) \<longleftrightarrow>
     n = utf8_width (byte_at s 0) \<and> 0 < n \<and>
     (1 < n \<longrightarrow> second_ok (byte_at s 0) (byte_at s 1)) \<and>
     (2 < n \<longrightarrow> is_cont (byte_at s 2)) \<and> (3 < n \<longrightarrow> is_cont (byte_at s 3))"
proof -
  define w where "w = utf8_width (byte_at s 0)"
  have w: "w = 0 \<or> w = 1 \<or> w = 2 \<or> w = 3 \<or> w = 4" by (simp add: w_def utf8_width_def)
  show ?thesis unfolding utf8_chunk_def w_def [symmetric] Let_def
    using w by (elim disjE) auto
qed

lemma chunk_take:
  assumes "utf8_chunk s = (True, n)" "s \<noteq> []"
  shows "n \<le> length s \<and> utf8_chunk (take n s @ t) = (True, n)"
proof -
  note c = assms(1) [unfolded chunk_valid_cases]
  have "n \<le> 4" using c by (simp add: utf8_width_def split: if_splits)
  have len: "n \<le> length s"
  proof -
    have "n - 1 < length s"
    proof (cases "n = 1")
      case True
      then show ?thesis using assms(2) by simp
    next
      case False
      then have "n = 2 \<or> n = 3 \<or> n = 4" using c \<open>n \<le> 4\<close> by auto
      then show ?thesis
        using c byte_at_pos [of s "n - 1"] second_ok_pos is_cont_pos by (elim disjE) auto
    qed
    then show ?thesis by simp
  qed
  then have "byte_at (take n s @ t) i = byte_at s i" if "i < n" for i
    using that by (rule byte_at_take [rotated])
  with c len show ?thesis by (simp add: chunk_valid_cases)
qed

lemma valid_utf8_chunk:
  "utf8_chunk (c # cs) = (True, n) \<Longrightarrow> valid_utf8 (take n (c # cs) @ t) = valid_utf8 t"
proof -
  assume u: "utf8_chunk (c # cs) = (True, n)"
  obtain m where n: "n = Suc m" using utf8_chunk_pos [OF u] by (cases n) auto
  from chunk_take [OF u, where t = t] n have "m \<le> length cs"
    "utf8_chunk (c # take m cs @ t) = (True, Suc m)" by simp_all
  then show ?thesis by (simp add: n)
qed

lemma valid_replacement: "valid_utf8 ([CHR 0xEF, CHR 0xBF, CHR 0xBD] @ t) = valid_utf8 t"
  by (simp add: utf8_chunk_def byte_at_def utf8_width_def second_ok_def is_cont_def Let_def)

lemma lossy_is_valid: "valid_utf8 (from_utf8_lossy s)"
proof (induction s rule: from_utf8_lossy.induct)
  case (2 c cs)
  obtain v n where u: "utf8_chunk (c # cs) = (v, n)" by (cases "utf8_chunk (c # cs)")
  have IH: "valid_utf8 (from_utf8_lossy (drop (n - 1) cs))" by (rule 2 [OF u [symmetric]])
  show ?case
  proof (cases v)
    case True
    with u IH show ?thesis by (simp only: from_utf8_lossy.simps prod.case if_True valid_utf8_chunk)
  next
    case False
    with u IH show ?thesis
      by (simp only: from_utf8_lossy.simps prod.case if_False valid_replacement)
  qed
qed simp

end
