(* ===== verification/P2P.thy ===== *)
theory P2P
  imports Controller Utf8
begin

text \<open>
  The swarm controller (\<open>src/p2p.rs\<close>, \<open>src/multiaddr_ext.rs\<close>): the task that owns the
  \<open>libp2p\<close> swarm. It executes the commands of the controller, turns what arrives from the
  network into events for the controller, and answers sync requests. The swarm is third party
  code: the model records each call made to it, with what the swarm reported about itself at the
  time, and takes the results of the calls and their effects as parameters.
\<close>

section \<open>Addresses\<close>

text \<open>The last peer id of an address.\<close>

definition peer_id_of :: "multiaddr \<Rightarrow> peer_id option" where
  "peer_id_of a =
     fold (\<lambda>component last. case component of P2p key \<Rightarrow> Some key | _ \<Rightarrow> last) a None"

definition is_relayed :: "multiaddr \<Rightarrow> bool" where
  "is_relayed a \<longleftrightarrow> (\<exists>addr\<in>set a. addr = P2pCircuit)"

section \<open>Messages\<close>

datatype sync_response = SrPremints "premint_types list" | SrError string

definition announce_topic :: string where
  "announce_topic = ''mintpool::announce''"

definition topic_to_record_key :: "string \<Rightarrow> string" where
  "topic_to_record_key topic = ''topic::'' @ topic"

text \<open>
  A message as the code reads it. The peer is the one that passed the message on, not the one
  that published it.
\<close>

record gossip_message =
  gm_topic :: string
  gm_data :: string
  gm_propagated_by :: peer_id

section \<open>The swarm\<close>

text \<open>
  With a peer id the dial is made only if the peer is neither connected nor being dialed.
\<close>

datatype dial_opts = DialPeer peer_id "multiaddr list" | DialAddress multiaddr

datatype swarm_error = DialPeerConditionFalse | SwarmError string

datatype swarm_call =
    ListenOn multiaddr
  | AddExternalAddress multiaddr
  | RemoveExternalAddress multiaddr
  | CloseConnection nat
  | Dial dial_opts
  | Publish string string
  | Subscribe string
  | Unsubscribe string
  | StartProviding string
  | StopProviding string
  | GetProviders string
  | Bootstrap
  | SendRequest peer_id query_options
  | SendResponse nat sync_response
  | RelayAddAddress peer_id multiaddr
  | RelaySetPeerRtt peer_id nat nat
  | RelayRandomSelect

text \<open>What the swarm tells about itself.\<close>

record swarm_view =
  sv_local_peer_id :: peer_id
  sv_listeners :: "multiaddr list"
  sv_external_addresses :: "multiaddr list"
  sv_num_peers :: nat
  sv_kbuckets :: "multiaddr list list list"
  sv_provided :: "string list"
  sv_mesh_peers :: "peer_id list"
  sv_topics :: "string list"
  sv_nat_status :: nat_status

text \<open>
  The third party functions of this component: parsing and formatting, the JSON of claims, the
  digest of the \<open>sha256\<close> crate, the protocol name of relays, and what a call to the swarm
  returns and changes.
\<close>

record net =
  parse_multiaddr :: "string \<Rightarrow> (multiaddr, string) result"
  multiaddr_text :: "multiaddr \<Rightarrow> string"
  claim_to_json :: "inclusion_claim \<Rightarrow> (string, string) result"
  claim_from_json :: "string \<Rightarrow> (inclusion_claim, string) result"
  sha256_digest :: "string \<Rightarrow> string"
  hop_protocol :: string
  call_result :: "swarm_call \<Rightarrow> swarm_view \<Rightarrow> (unit, swarm_error) result"
  call_effect :: "swarm_call \<Rightarrow> swarm_view \<Rightarrow> swarm_view"

datatype swarm_reply = SrNetworkState network_state | SrNodeInfo mintpool_node_info

text \<open>
  The queue to the controller holds what was sent and is closed when the controller is gone.
\<close>

record swarm_controller =
  sc_view :: swarm_view
  sc_calls :: "(swarm_call \<times> swarm_view) list"
  sc_events :: "p2p_event list"
  sc_events_open :: bool
  sc_replies :: "(nat \<times> swarm_reply) list"
  sc_premint_names :: "premint_name list"
  sc_config :: config

definition do_call ::
  "net \<Rightarrow> swarm_call \<Rightarrow> swarm_controller \<Rightarrow> (unit, swarm_error) result \<times> swarm_controller" where
  "do_call net k c =
     (call_result net k (sc_view c),
      c\<lparr>sc_view := call_effect net k (sc_view c), sc_calls := sc_calls c @ [(k, sc_view c)]\<rparr>)"

definition send_event :: "p2p_event \<Rightarrow> swarm_controller \<Rightarrow> (unit, report) result \<times> swarm_controller" where
  "send_event ev c =
     (if sc_events_open c then (Ok (), c\<lparr>sc_events := sc_events c @ [ev]\<rparr>)
      else (Err (Eyre ''channel closed''), c))"

definition send_swarm_reply :: "reply_channel \<Rightarrow> swarm_reply \<Rightarrow> swarm_controller \<Rightarrow> swarm_controller" where
  "send_swarm_reply ch v c =
     (if rp_open ch then c\<lparr>sc_replies := sc_replies c @ [(rp_id ch, v)]\<rparr> else c)"

section \<open>Construction and start\<close>

text \<open>
  The settings the swarm is built with (\<open>make_swarm_controller\<close>); times are in seconds, and what
  is left at the library's defaults is not listed. The function of the message ids is
  \<open>gossipsub_message_id\<close> below. A relay server has no relay client and no relay manager.
\<close>

record relay_manager_config =
  rm_auto_connect :: bool
  rm_auto_relay :: bool
  rm_limit :: "nat option"
  rm_backoff :: nat

datatype swarm_transport = TcpTransport (tcp_port_reuse: bool) (tcp_nodelay: bool) | Quic | Dns | RelayClient

record mintpool_behaviour =
  mb_transports :: "swarm_transport list"
  mb_gossipsub_heartbeat :: nat
  mb_gossipsub_strict :: bool
  mb_gossipsub_protocol :: string
  mb_gossipsub_signed :: bool
  mb_identify_protocol :: string
  mb_request_response_protocols :: "string list"
  mb_autonat_boot_delay :: nat
  mb_relay :: bool
  mb_relay_client :: bool
  mb_relay_manager :: "relay_manager_config option"
  mb_idle_connection_timeout :: nat

definition make_swarm_controller :: "config \<Rightarrow> mintpool_behaviour" where
  "make_swarm_controller cfg =
     (let (relay, relay_client, relay_manager) =
            (if cfg_enable_relay_server cfg then (True, False, None)
             else (False, True, Some \<lparr>rm_auto_connect = True, rm_auto_relay = True, rm_limit = Some 5,
                     rm_backoff = 15\<rparr>))
      in \<lparr>mb_transports = [TcpTransport True True, Quic, Dns, RelayClient],
          mb_gossipsub_heartbeat = 10, mb_gossipsub_strict = True,
          mb_gossipsub_protocol = ''/mintpool/0.1.0'', mb_gossipsub_signed = True,
          mb_identify_protocol = ''mintpool/0.1.0'', mb_request_response_protocols = [''/mintpool-sync/1''],
          mb_autonat_boot_delay = 15, mb_relay = relay, mb_relay_client = relay_client,
          mb_relay_manager = relay_manager, mb_idle_connection_timeout = 60\<rparr>)"

definition has_relay_manager :: "swarm_controller \<Rightarrow> bool" where
  "has_relay_manager c \<longleftrightarrow> mb_relay_manager (make_swarm_controller (sc_config c)) \<noteq> None"

lemma has_relay_manager_iff: "has_relay_manager c \<longleftrightarrow> \<not> cfg_enable_relay_server (sc_config c)"
  by (simp add: has_relay_manager_def make_swarm_controller_def)

text \<open>Whatever their configuration, nodes speak the same protocols, and one of the two ends of a relay.\<close>

lemma relay_ends: "mb_relay (make_swarm_controller cfg) \<longleftrightarrow> \<not> mb_relay_client (make_swarm_controller cfg)"
  "mb_relay_client (make_swarm_controller cfg) \<longleftrightarrow> mb_relay_manager (make_swarm_controller cfg) \<noteq> None"
  by (simp_all add: make_swarm_controller_def)

lemma same_protocols: "mb_gossipsub_protocol (make_swarm_controller cfg) = mb_gossipsub_protocol (make_swarm_controller cfg')"
  "mb_request_response_protocols (make_swarm_controller cfg) = mb_request_response_protocols (make_swarm_controller cfg')"
  by (simp_all add: make_swarm_controller_def split_beta)

definition swarm_new :: "net \<Rightarrow> config \<Rightarrow> swarm_view \<Rightarrow> swarm_controller" where
  "swarm_new net cfg swarm =
     (let c = \<lparr>sc_view = swarm, sc_calls = [], sc_events = [], sc_events_open = True,
            sc_replies = [], sc_premint_names = premint_names cfg, sc_config = cfg\<rparr>
      in case cfg_external_address cfg of
           None \<Rightarrow> c
         | Some text \<Rightarrow>
             (case parse_multiaddr net text of
                Inl err \<Rightarrow> c
              | Inr addr \<Rightarrow> snd (do_call net (AddExternalAddress addr) c)))"

definition node_info :: "swarm_controller \<Rightarrow> mintpool_node_info" where
  "node_info c =
     \<lparr>ni_peer_id = sv_local_peer_id (sc_view c), ni_addr = sv_listeners (sc_view c)\<rparr>"

definition swarm_failed :: "(unit, swarm_error) result \<Rightarrow> (unit, report) result" where
  "swarm_failed r =
     map_err (\<lambda>e. case e of SwarmError s \<Rightarrow> Eyre s | DialPeerConditionFalse \<Rightarrow> Eyre ''dial condition false'') r"

definition gossip_subscribe ::
  "net \<Rightarrow> string \<Rightarrow> swarm_controller \<Rightarrow> (unit, report) result \<times> swarm_controller" where
  "gossip_subscribe net topic c =
     (case do_call net (Subscribe topic) c of
        (Inl e, c1) \<Rightarrow> (swarm_failed (Err e), c1)
      | (Inr _, c1) \<Rightarrow>
          (let (r, c2) = do_call net (StartProviding (topic_to_record_key topic)) c1
           in (swarm_failed r, c2)))"

definition gossip_unsubscribe ::
  "net \<Rightarrow> string \<Rightarrow> swarm_controller \<Rightarrow> (unit, report) result \<times> swarm_controller" where
  "gossip_unsubscribe net topic c =
     (case do_call net (Unsubscribe topic) c of
        (Inl e, c1) \<Rightarrow> (swarm_failed (Err e), c1)
      | (Inr _, c1) \<Rightarrow> (Ok (), snd (do_call net (StopProviding (topic_to_record_key topic)) c1)))"

definition listen_on ::
  "net \<Rightarrow> string \<Rightarrow> swarm_controller \<Rightarrow> (unit, report) result \<times> swarm_controller" where
  "listen_on net text c =
     (case parse_multiaddr net text of
        Inl e \<Rightarrow> (Err (Eyre e), c)
      | Inr addr \<Rightarrow> (let (r, c') = do_call net (ListenOn addr) c in (swarm_failed r, c')))"

text \<open>\<open>run\<close> up to its loop: an error of a premint's topic is logged, the others end the task.\<close>

definition swarm_start ::
  "net \<Rightarrow> u64 \<Rightarrow> string \<Rightarrow> swarm_controller \<Rightarrow> (unit, report) result \<times> swarm_controller" where
  "swarm_start net port listen_ip c =
     (case listen_on net (''/ip4/'' @ listen_ip @ ''/udp/'' @ show_u64 port @ ''/quic-v1'') c of
        (Inl e, c1) \<Rightarrow> (Err e, c1)
      | (Inr _, c1) \<Rightarrow>
          (case listen_on net (''/ip4/'' @ listen_ip @ ''/tcp/'' @ show_u64 port) c1 of
             (Inl e, c2) \<Rightarrow> (Err e, c2)
           | (Inr _, c2) \<Rightarrow>
               (case gossip_subscribe net announce_topic c2 of
                  (Inl e, c3) \<Rightarrow> (Err e, c3)
                | (Inr _, c3) \<Rightarrow>
                    (Ok (), fold (\<lambda>topic c. snd (gossip_subscribe net topic c))
                       (concat (map (\<lambda>name. [msg_topic name, claims_topic name]) (sc_premint_names c3)))
                       c3))))"

section \<open>State and limits\<close>

definition make_network_state :: "net \<Rightarrow> swarm_controller \<Rightarrow> network_state" where
  "make_network_state net c =
     \<lparr>nst_local_peer_id = sv_local_peer_id (sc_view c),
      nst_num_peers = sv_num_peers (sc_view c),
      nst_dht_peers = concat (sv_kbuckets (sc_view c)),
      nst_gossipsub_peers = sv_mesh_peers (sc_view c),
      nst_external_addresses = sv_external_addresses (sc_view c),
      nst_providing = sv_provided (sc_view c),
      nst_listeners = sv_listeners (sc_view c),
      nst_nat_status =
        (case cfg_external_address (sc_config c) of
           Some addr \<Rightarrow>
             (case parse_multiaddr net addr of Inr a \<Rightarrow> NatPublic a | Inl _ \<Rightarrow> NatUnknown)
         | None \<Rightarrow> sv_nat_status (sc_view c))\<rparr>"

definition reject_connection_if_over_max ::
  "net \<Rightarrow> nat \<Rightarrow> swarm_controller \<Rightarrow> bool \<times> swarm_controller" where
  "reject_connection_if_over_max net connection_id c =
     (if unat (cfg_peer_limit (sc_config c)) < nst_num_peers (make_network_state net c)
      then (True, snd (do_call net (CloseConnection connection_id) c))
      else (False, c))"

definition safe_dial :: "net \<Rightarrow> multiaddr \<Rightarrow> swarm_controller \<Rightarrow> swarm_controller" where
  "safe_dial net address c =
     (if length (nst_gossipsub_peers (make_network_state net c)) \<ge> unat (cfg_peer_limit (sc_config c))
      then c
      else snd (do_call net
        (Dial (case peer_id_of address of
                 Some peer_id \<Rightarrow> DialPeer peer_id [address] | None \<Rightarrow> DialAddress address)) c))"

section \<open>Publishing\<close>

text \<open>The debug text of the value that could not be published is left out of the error.\<close>

definition broadcast_message ::
  "net \<Rightarrow> ext \<Rightarrow> premint_types \<Rightarrow> swarm_controller \<Rightarrow> (unit, report) result \<times> swarm_controller" where
  "broadcast_message net x message c =
     (let topic = msg_topic (md_kind (metadata x message))
      in case to_json x message of
           Inl e \<Rightarrow> (Err (Context ''failed to serialize message'' e), c)
         | Inr msg \<Rightarrow>
             (let (r, c') = do_call net (Publish topic msg) c
              in (map_err (Context ''failed to publish message to topic '') (swarm_failed r), c')))"

definition broadcast_claim ::
  "net \<Rightarrow> inclusion_claim \<Rightarrow> swarm_controller \<Rightarrow> (unit, report) result \<times> swarm_controller" where
  "broadcast_claim net claim c =
     (let topic = claims_topic (PremintName (cl_kind claim))
      in case claim_to_json net claim of
           Inl e \<Rightarrow> (Err (Context ''failed to serialize claim'' (Serde e)), c)
         | Inr msg \<Rightarrow>
             (let (r, c') = do_call net (Publish topic msg) c
              in (map_err (Context ''failed to publish claim message to topic '') (swarm_failed r), c')))"

definition announce_self :: "net \<Rightarrow> swarm_controller \<Rightarrow> swarm_controller" where
  "announce_self net c =
     (let peer_id = sv_local_peer_id (sc_view c);
          value = (case sv_listeners (sc_view c) of
                     addr # _ \<Rightarrow> multiaddr_text net (addr @ [P2p peer_id])
                   | [] \<Rightarrow> peer_id)
      in snd (do_call net (Publish announce_topic value) c))"

definition gossipsub_message_id :: "net \<Rightarrow> ext \<Rightarrow> gossip_message \<Rightarrow> string" where
  "gossipsub_message_id net x message =
     (if gm_topic message = announce_topic then sha256_digest net (from_utf8_lossy (gm_data message))
      else (case from_json x (from_utf8_lossy (gm_data message)) of
              Inr premint \<Rightarrow> sha256_digest net (md_id (metadata x premint))
            | Inl _ \<Rightarrow> ''likely_spam''))"

section \<open>Synchronisation\<close>

text \<open>\<open>pick\<close> is the random number that chooses a peer.\<close>

definition do_sync :: "net \<Rightarrow> nat \<Rightarrow> query_options \<Rightarrow> swarm_controller \<Rightarrow> swarm_controller" where
  "do_sync net pick query c =
     (case nst_gossipsub_peers (make_network_state net c) of
        [] \<Rightarrow> c
      | peers \<Rightarrow> snd (do_call net (SendRequest (peers ! (pick mod length peers)) query) c))"

text \<open>
  The request is passed to the controller with a channel for its reply; \<open>answer\<close> is the reply,
  or \<open>None\<close> if the controller drops the channel.
\<close>

type_synonym controller_answer = "(premint_types list, report) result option"

definition make_sync_response_query ::
  "controller_answer \<Rightarrow> nat \<Rightarrow> query_options \<Rightarrow> swarm_controller \<Rightarrow>
     (premint_types list, string) result \<times> swarm_controller" where
  "make_sync_response_query answer snd_id request c =
     (case send_event (EvSyncRequest request \<lparr>rp_id = snd_id, rp_open = True\<rparr>) c of
        (Inl _, c') \<Rightarrow> (Err ''Controller error'', c')
      | (Inr _, c') \<Rightarrow>
          (case answer of
             None \<Rightarrow> (Err ''Channel error'', c')
           | Some (Inl _) \<Rightarrow> (Err ''Query error'', c')
           | Some (Inr result) \<Rightarrow> (Ok result, c')))"

definition make_sync_response ::
  "controller_answer \<Rightarrow> nat \<Rightarrow> query_options \<Rightarrow> swarm_controller \<Rightarrow> sync_response \<times> swarm_controller" where
  "make_sync_response answer request_id request c =
     (case make_sync_response_query answer request_id request c of
        (Inr premints, c') \<Rightarrow> (SrPremints premints, c')
      | (Inl err, c') \<Rightarrow> (SrError err, c'))"

datatype request_response_event =
    RrRequest nat query_options nat
  | RrResponse nat sync_response
  | RrOther

fun handle_request_response_event ::
  "net \<Rightarrow> controller_answer \<Rightarrow> request_response_event \<Rightarrow> swarm_controller \<Rightarrow>
     (unit, report) result \<times> swarm_controller" where
  "handle_request_response_event net answer (RrRequest request_id request channel) c =
     (let (resp, c1) = make_sync_response answer request_id request c;
          (r, c2) = do_call net (SendResponse channel resp) c1
      in (map_err (\<lambda>_. Eyre ''Error sending response: '') r, c2))"
| "handle_request_response_event net answer (RrResponse request_id (SrPremints premints)) c =
     send_event (EvSyncResponse premints) c"
| "handle_request_response_event net answer (RrResponse request_id (SrError err)) c = (Ok (), c)"
| "handle_request_response_event net answer RrOther c = (Ok (), c)"

section \<open>Events of the swarm\<close>

datatype gossipsub_event = GsMessage gossip_message | GsOther

fun handle_gossipsub_event ::
  "net \<Rightarrow> ext \<Rightarrow> gossipsub_event \<Rightarrow> swarm_controller \<Rightarrow> (unit, report) result \<times> swarm_controller" where
  "handle_gossipsub_event net x (GsMessage message) c =
     (let msg = from_utf8_lossy (gm_data message)
      in if gm_topic message = announce_topic then
           (case parse_multiaddr net msg of
              Inl e \<Rightarrow> (Err (Context (''invalid address found from announce: '' @ msg) (Eyre e)), c)
            | Inr addr \<Rightarrow> (Ok (), safe_dial net addr c))
         else if gm_topic message \<in> set (claims_topic_hashes (sc_premint_names c)) then
           (case claim_from_json net msg of
              Inl e \<Rightarrow> (Err (Context ''Error parsing inclusion claim'' (Serde e)), c)
            | Inr claim \<Rightarrow>
                (let (r, c') = send_event
                       (EvMintSeenOnchain \<lparr>pc_claim = claim, pc_from_peer_id = gm_propagated_by message\<rparr>) c
                 in (map_err (Context ''failed to send mint seen onchain event'') r, c')))
         else
           (case premint_from_json x msg of
              Inl err \<Rightarrow> (Ok (), c)
            | Inr premint \<Rightarrow>
                (let (r, c') = send_event (EvPremintReceived premint) c
                 in (map_err (Context ''failed to send premint event'') r, c'))))"
| "handle_gossipsub_event net x GsOther c = (Ok (), c)"

datatype kad_event = KadRoutingUpdated bool | KadOther

fun handle_kad_event ::
  "net \<Rightarrow> kad_event \<Rightarrow> swarm_controller \<Rightarrow> (unit, report) result \<times> swarm_controller" where
  "handle_kad_event net (KadRoutingUpdated is_new_peer) c =
     (if is_new_peer \<and> length (sv_kbuckets (sc_view c)) = 1
      then (Ok (), snd (do_call net Bootstrap c)) else (Ok (), c))"
| "handle_kad_event net KadOther c = (Ok (), c)"

datatype autonat_event = AutonatStatusChanged nat_status | AutonatOther

fun handle_autonat_event ::
  "net \<Rightarrow> autonat_event \<Rightarrow> swarm_controller \<Rightarrow> (unit, report) result \<times> swarm_controller" where
  "handle_autonat_event net (AutonatStatusChanged NatPrivate) c =
     (Ok (), if has_relay_manager c then snd (do_call net RelayRandomSelect c) else c)"
| "handle_autonat_event net (AutonatStatusChanged _) c = (Ok (), c)"
| "handle_autonat_event net AutonatOther c = (Ok (), c)"

text \<open>The events the code acts on; the others it only logs.\<close>

datatype swarm_event =
    SeNewListenAddr multiaddr
  | SeExpiredListenAddr multiaddr
  | SeListenerClosed "multiaddr list"
  | SeIncomingConnection nat
  | SeConnectionEstablished peer_id nat
  | SeKad kad_event
  | SeGossipsub gossipsub_event
  | SeRequestResponse request_response_event
  | SeIdentifyReceived peer_id "string list" "multiaddr list"
  | SePing peer_id nat "(nat, string) result"
  | SeAutonat autonat_event
  | SeOther

fun handle_swarm_event ::
  "net \<Rightarrow> ext \<Rightarrow> controller_answer \<Rightarrow> swarm_event \<Rightarrow> swarm_controller \<Rightarrow> swarm_controller" where
  "handle_swarm_event net x answer (SeNewListenAddr address) c =
     (if is_relayed address \<and> address \<notin> set (sv_external_addresses (sc_view c))
      then snd (do_call net (AddExternalAddress address) c) else c)"
| "handle_swarm_event net x answer (SeExpiredListenAddr address) c =
     (if is_relayed address then snd (do_call net (RemoveExternalAddress address) c) else c)"
| "handle_swarm_event net x answer (SeListenerClosed addresses) c =
     fold (\<lambda>address c. if is_relayed address
                       then snd (do_call net (RemoveExternalAddress address) c) else c) addresses c"
| "handle_swarm_event net x answer (SeIncomingConnection connection_id) c =
     snd (reject_connection_if_over_max net connection_id c)"
| "handle_swarm_event net x answer (SeConnectionEstablished peer_id connection_id) c =
     snd (reject_connection_if_over_max net connection_id c)"
| "handle_swarm_event net x answer (SeKad kad_event) c = snd (handle_kad_event net kad_event c)"
| "handle_swarm_event net x answer (SeGossipsub event) c = snd (handle_gossipsub_event net x event c)"
| "handle_swarm_event net x answer (SeRequestResponse event) c =
     snd (handle_request_response_event net answer event c)"
| "handle_swarm_event net x answer (SeIdentifyReceived peer_id protocols listen_addrs) c =
     (if has_relay_manager c \<and> hop_protocol net \<in> set protocols
      then fold (\<lambda>addr c. snd (do_call net (RelayAddAddress peer_id addr) c)) listen_addrs c else c)"
| "handle_swarm_event net x answer (SePing peer connection (Inr rtt)) c =
     (if has_relay_manager c then snd (do_call net (RelaySetPeerRtt peer connection rtt) c) else c)"
| "handle_swarm_event net x answer (SePing peer connection (Inl _)) c = c"
| "handle_swarm_event net x answer (SeAutonat event) c = snd (handle_autonat_event net event c)"
| "handle_swarm_event net x answer SeOther c = c"

section \<open>Commands of the controller and the loop\<close>

fun handle_swarm_command ::
  "net \<Rightarrow> ext \<Rightarrow> nat \<Rightarrow> swarm_command \<Rightarrow> swarm_controller \<Rightarrow> swarm_controller" where
  "handle_swarm_command net x pick (ScConnectToPeer address) c =
     (case parse_multiaddr net address of Inr addr \<Rightarrow> safe_dial net addr c | Inl err \<Rightarrow> c)"
| "handle_swarm_command net x pick (ScReturnNetworkState channel) c =
     send_swarm_reply channel (SrNetworkState (make_network_state net c)) c"
| "handle_swarm_command net x pick ScAnnounceSelf c = announce_self net c"
| "handle_swarm_command net x pick (ScBroadcast message) c = snd (broadcast_message net x message c)"
| "handle_swarm_command net x pick (ScReturnNodeInfo channel) c =
     send_swarm_reply channel (SrNodeInfo (node_info c)) c"
| "handle_swarm_command net x pick (ScSendOnchainMintFound claim) c = snd (broadcast_claim net claim c)"
| "handle_swarm_command net x pick (ScSync query) c = do_sync net pick query c"

datatype swarm_ticker = TickBootstrap | TickDiscoverGossipPeers

datatype swarm_input =
    SiCommand swarm_command nat
  | SiEvent swarm_event controller_answer
  | SiTick swarm_ticker

text \<open>One turn of \<open>run_loop\<close>.\<close>

fun swarm_turn :: "net \<Rightarrow> ext \<Rightarrow> swarm_input \<Rightarrow> swarm_controller \<Rightarrow> swarm_controller" where
  "swarm_turn net x (SiCommand command pick) c = handle_swarm_command net x pick command c"
| "swarm_turn net x (SiEvent event answer) c = handle_swarm_event net x answer event c"
| "swarm_turn net x (SiTick TickBootstrap) c = snd (do_call net Bootstrap c)"
| "swarm_turn net x (SiTick TickDiscoverGossipPeers) c =
     fold (\<lambda>topic c. snd (do_call net (GetProviders (topic_to_record_key topic)) c))
       (sv_topics (sc_view c)) c"

end
