(* ===== verification/ControllerProps.thy ===== *)
theory ControllerProps
  imports Controller
begin

text \<open>
  The properties of the controller: what storing a premint does, what is broadcast, which claims
  of peers are acted on, the invariant of the loop over every run, and the concurrent
  processing of a sync response.
\<close>

section \<open>The store a controller reads and writes\<close>

lemma storage_clone_simps [simp]:
  "good_store x (storage_clone s) = good_store x s" "db_up (storage_clone s) = db_up s"
  "view x (storage_clone s) = view x s" "st_db (storage_clone s) = st_db s"
  by (simp_all add: storage_clone_def good_store_def store_ok_def db_up_def view_def fun_eq_iff)

lemma uri_clone [simp]: "get_for_token_uri x (storage_clone s) = get_for_token_uri x s"
  by (simp add: get_for_token_uri_def fun_eq_iff)

lemma lookup_clone:
  "good_store x s \<Longrightarrow> db_up s \<Longrightarrow>
    lookup_existing x (storage_reader x) p (storage_clone s) = Ok (existing_in x (view x s) p)"
  using db.lookup_up [of x "storage_clone s" p] by simp

text \<open>Two environments that differ only in what the chain and the process environment do.\<close>

definition same_text :: "ext \<Rightarrow> ext \<Rightarrow> bool" where
  "same_text x y \<longleftrightarrow> addr_debug x = addr_debug y \<and> addr_checksum x = addr_checksum y \<and>
     u256_text x = u256_text y \<and> sqlx_text x = sqlx_text y \<and>
     premint_to_json x = premint_to_json y \<and> premint_from_json x = premint_from_json y"

lemma same_text_refl [simp]: "same_text x x"
  by (simp add: same_text_def)

lemma same_metadata: "same_text x y \<Longrightarrow> metadata x = metadata y"
proof
  fix p assume "same_text x y"
  then show "metadata x p = metadata y p"
    by (cases p) (simp_all add: same_text_def simple_metadata_def zora_metadata_def guid_def)
qed

lemma same_json: "same_text x y \<Longrightarrow> to_json x = to_json y" "same_text x y \<Longrightarrow> decode_row x = decode_row y"
  by (simp_all add: same_text_def to_json_def decode_row_def from_json_def fun_eq_iff)

lemma same_store:
  assumes "same_text x y"
  shows "store x = store y" "mark_seen_on_chain x = mark_seen_on_chain y"
    "good_store x = good_store y" "view x = view y" "premint_key x = premint_key y"
    "version_of x = version_of y"
proof -
  note m = same_metadata [OF assms] and j = same_json [OF assms]
  have t: "addr_checksum x = addr_checksum y" "u256_text x = u256_text y" "sqlx_text x = sqlx_text y"
    "addr_text_ok x = addr_text_ok y" "serde_ok x = serde_ok y"
    using assms by (simp_all add: same_text_def addr_text_ok_def serde_ok_def)
  have r: "premint_row x = premint_row y" by (simp add: premint_row_def fun_eq_iff m t Let_def)
  show k: "premint_key x = premint_key y" "version_of x = version_of y"
    by (simp_all add: premint_key_def version_of_def fun_eq_iff m)
  show "store x = store y" by (intro HOL.ext) (simp only: store_def j t r)
  show "mark_seen_on_chain x = mark_seen_on_chain y"
    by (intro HOL.ext) (simp only: mark_seen_on_chain_def t)
  have "row_ok x = row_ok y" by (intro HOL.ext) (simp only: row_ok_def j k m t)
  then show "good_store x = good_store y"
    by (intro HOL.ext) (simp only: good_store_def store_ok_def db_ok_def t)
  have "row_entry x = row_entry y" by (intro HOL.ext) (simp only: row_entry_def j)
  then show "view x = view y" by (intro HOL.ext) (simp only: view_def)
qed

lemma same_run_db: "same_text x y \<Longrightarrow> run_db x s ws = run_db y s ws"
proof (induction ws arbitrary: s)
  case (Cons w ws)
  then show ?case by (cases w) (simp_all add: same_store)
qed simp

text \<open>The store changed by writes only.\<close>

definition written :: "ext \<Rightarrow> premint_storage \<Rightarrow> premint_storage \<Rightarrow> bool" where
  "written x s s' \<longleftrightarrow> (\<exists>ws. s' = run_db x s ws)"

lemma written_refl [simp, intro]: "written x s s"
  unfolding written_def by (rule exI [where x = "[]"]) simp

lemma run_db_append: "run_db x s (ws @ vs) = run_db x (run_db x s ws) vs"
  by (induction ws arbitrary: s) simp_all

lemma written_trans [trans]: "written x s t \<Longrightarrow> written x t u \<Longrightarrow> written x s u"
  unfolding written_def by (metis run_db_append)

lemma written_store [simp, intro]: "written x s (snd (store x s p))"
  unfolding written_def by (rule exI [where x = "[StoreOp p]"]) simp

lemma written_mark [simp, intro]: "written x s (snd (mark_seen_on_chain x s cl))"
  unfolding written_def by (rule exI [where x = "[MarkOp cl]"]) simp

lemma written_good: "written x s s' \<Longrightarrow> good_store x s \<Longrightarrow> good_store x s'"
  by (auto simp: written_def run_db_good)

section \<open>Frames of the operations\<close>

lemma send_swarm_frame [simp]:
  "ct_store (snd (send_swarm cmd c)) = ct_store c" "ct_chains (snd (send_swarm cmd c)) = ct_chains c"
  "ct_config (snd (send_swarm cmd c)) = ct_config c" "ct_replies (snd (send_swarm cmd c)) = ct_replies c"
  "ct_rules (snd (send_swarm cmd c)) = ct_rules c"
  "ct_swarm_open (snd (send_swarm cmd c)) = ct_swarm_open c"
  "ct_swarm (snd (send_swarm cmd c)) = (if ct_swarm_open c then ct_swarm c @ [cmd] else ct_swarm c)"
  "is_ok (fst (send_swarm cmd c)) \<longleftrightarrow> ct_swarm_open c"
  by (simp_all add: send_swarm_def)

lemma send_reply_frame [simp]:
  "ct_store (snd (send_reply ch v c)) = ct_store c" "ct_chains (snd (send_reply ch v c)) = ct_chains c"
  "ct_config (snd (send_reply ch v c)) = ct_config c" "ct_swarm (snd (send_reply ch v c)) = ct_swarm c"
  "ct_swarm_open (snd (send_reply ch v c)) = ct_swarm_open c"
  "ct_replies (snd (send_reply ch v c)) = ct_replies c @ (if rp_open ch then [(rp_id ch, v)] else [])"
  by (simp_all add: send_reply_def)

lemma reply_or_fail_snd [simp]: "snd (reply_or_fail ch v c) = snd (send_reply ch v c)"
  by (simp add: reply_or_fail_def split: prod.split)

lemma validate_frame [simp]:
  "ct_swarm (snd (validate_and_insert x p c)) = ct_swarm c"
  "ct_swarm_open (snd (validate_and_insert x p c)) = ct_swarm_open c"
  "ct_replies (snd (validate_and_insert x p c)) = ct_replies c"
  "ct_config (snd (validate_and_insert x p c)) = ct_config c"
  "ct_rules (snd (validate_and_insert x p c)) = ct_rules c"
  by (simp_all add: validate_and_insert_def split: prod.split sum.split)

lemma validate_written: "written x (ct_store c) (ct_store (snd (validate_and_insert x p c)))"
  using written_store [of x "ct_store c" p]
  by (auto simp: validate_and_insert_def simp del: written_store split: prod.split sum.split)

lemma validate_cache:
  assumes "connect_ok x" "cache_ok (ct_chains c)"
  shows "cache_ok (ct_chains (snd (validate_and_insert x p c)))"
  using evaluate_cache_ok [OF assms, of "storage_reader x" "ct_rules c x" p "storage_clone (ct_store c)"]
  by (auto simp: validate_and_insert_def split: prod.split sum.split)

section \<open>Storing a premint\<close>

lemma validate_store:
  assumes "good_store x (ct_store c)" "db_up (ct_store c)"
    "rs = fst (run_rules x (ct_rules c x) (ct_chains c) p (storage_clone (ct_store c))
     (existing_in x (view x (ct_store c)) p))"
  shows "fst (validate_and_insert x p c) =
      (if is_accept rs then
         (case fst (store x (ct_store c) p) of
            Inr _ \<Rightarrow> Ok rs | Inl e \<Rightarrow> Err (Context ''Failed to store premint'' e))
       else Err (Context ''Premint failed validation'' (Validation rs)))"
    and "ct_store (snd (validate_and_insert x p c)) =
      (if is_accept rs then snd (store x (ct_store c) p) else ct_store c)"
proof -
  have e: "evaluate x (storage_reader x) (ct_rules c x) (ct_chains c) p (storage_clone (ct_store c)) =
    (Ok rs, snd (run_rules x (ct_rules c x) (ct_chains c) p (storage_clone (ct_store c))
     (existing_in x (view x (ct_store c)) p)))"
    unfolding assms(3) by (simp add: evaluate_def lookup_clone [OF assms(1,2)] split: prod.split)
  show "fst (validate_and_insert x p c) =
      (if is_accept rs then
         (case fst (store x (ct_store c) p) of
            Inr _ \<Rightarrow> Ok rs | Inl e \<Rightarrow> Err (Context ''Failed to store premint'' e))
       else Err (Context ''Premint failed validation'' (Validation rs)))"
    by (simp add: validate_and_insert_def e split: prod.split sum.split)
  show "ct_store (snd (validate_and_insert x p c)) =
      (if is_accept rs then snd (store x (ct_store c) p) else ct_store c)"
    by (simp add: validate_and_insert_def e split: prod.split sum.split)
qed

text \<open>
  C1. A premint that arrives is stored exactly when the rules accept it, judged against the
  stored premint of the same kind and identifier, and it is new or of a higher version. Then
  the result is the evaluation and the store holds it under its key; in every other case the
  result is an error, which carries the evaluation if the rules rejected and is that of the store
  if they accepted, and the store is unchanged.
\<close>

theorem validate_and_insert_decides:
  assumes "good_store x (ct_store c)" "db_up (ct_store c)"
    "fst (run_rules x (ct_rules c x) (ct_chains c) p (storage_clone (ct_store c))
       (existing_in x (view x (ct_store c)) p)) = rs"
  shows "(fst (validate_and_insert x p c) = Ok rs \<longleftrightarrow>
      is_accept rs \<and> spec_accepts x (view x (ct_store c)) p) \<and>
    view x (ct_store (snd (validate_and_insert x p c))) =
      (if is_accept rs \<and> spec_accepts x (view x (ct_store c)) p
       then spec_put x p (view x (ct_store c)) else view x (ct_store c)) \<and>
    (\<not> is_accept rs \<longrightarrow> (\<exists>r. fst (validate_and_insert x p c) = Err r \<and> downcast_results r = Some rs)) \<and>
    (is_accept rs \<and> \<not> spec_accepts x (view x (ct_store c)) p \<longrightarrow> (\<exists>e. fst (store x (ct_store c) p) = Err e \<and>
       fst (validate_and_insert x p c) = Err (Context ''Failed to store premint'' e)))"
proof -
  have s: "is_ok (fst (store x (ct_store c) p)) \<longleftrightarrow> spec_accepts x (view x (ct_store c)) p"
    "view x (snd (store x (ct_store c) p)) =
      (if spec_accepts x (view x (ct_store c)) p
       then spec_put x p (view x (ct_store c)) else view x (ct_store c))"
    using db.put_law [OF assms(1,2), of p] assms(1,2) store_view [of x "ct_store c" p]
    by (auto simp: good_store_def is_ok_iff)
  show ?thesis
    unfolding validate_store [OF assms(1,2) assms(3) [symmetric]] using s
    by (cases "fst (store x (ct_store c) p)") auto
qed

section \<open>Broadcasting\<close>

text \<open>A premint that was inserted is what the store returns for it.\<close>

lemma inserted_is_stored:
  assumes "good_store x (ct_store c)" "validate_and_insert x m c = (Ok rs, c1)"
  shows "get_for_id_and_kind x (st_db (ct_store c1)) (md_id (metadata x m)) (md_kind (metadata x m)) = Ok m"
proof -
  have up: "db_up (ct_store c)"
  proof (rule ccontr)
    assume "\<not> db_up (ct_store c)"
    then obtain e where "evaluate x (storage_reader x) (ct_rules c x) (ct_chains c) m (storage_clone (ct_store c)) =
        (Err e, ct_chains c)" using db.evaluate_down [of "storage_clone (ct_store c)" x] by fastforce
    with assms(2) show False by (auto simp: validate_and_insert_def)
  qed
  have s: "fst (store x (ct_store c) m) = Ok ()" "ct_store c1 = snd (store x (ct_store c) m)"
    using assms(2) validate_store [OF assms(1) up refl, of m]
    by (cases "fst (store x (ct_store c) m)"; auto split: if_splits)+
  from db.put_get [OF assms(1) s(1)] s(2) show ?thesis by (simp add: storage_reader_def)
qed

text \<open>
  A broadcast command sends the premint to the swarm only if it was just stored, so that
  the node's own store returns it, and answers the caller with the outcome: success exactly when
  it was sent, else the error of the validation or of the swarm.
\<close>

lemma broadcast_only_if_stored:
  assumes "good_store x (ct_store c)" "handle_command x now (CcBroadcast m ch) c = (out, c')"
  shows "ct_swarm c' = ct_swarm c @
      (if is_ok (fst (validate_and_insert x m c)) \<and> ct_swarm_open c then [ScBroadcast m] else []) \<and>
    (is_ok (fst (validate_and_insert x m c)) \<longrightarrow>
      get_for_id_and_kind x (st_db (ct_store c')) (md_id (metadata x m)) (md_kind (metadata x m)) = Ok m) \<and>
    (rp_open ch \<longrightarrow> (\<exists>r. ct_replies c' = ct_replies c @ [(rp_id ch, ReplyDone r)] \<and>
      (is_ok r \<longleftrightarrow> is_ok (fst (validate_and_insert x m c)) \<and> ct_swarm_open c)))"
proof -
  obtain r c1 where v: "validate_and_insert x m c = (r, c1)" by (cases "validate_and_insert x m c")
  have c1: "c1 = snd (validate_and_insert x m c)" using v by simp
  note frame = validate_frame [of x m c, folded c1]
  define answer :: "(unit, report) result" where "answer =
    (case r of Inl e \<Rightarrow> Err e
     | Inr _ \<Rightarrow> if ct_swarm_open c then Ok () else Err (Eyre ''Error broadcasing premint: SendError { .. }''))"
  have c': "c' = snd (send_reply ch (ReplyDone answer) (if is_ok r then snd (send_swarm (ScBroadcast m) c1) else c1))"
    using assms(2) v frame(2) unfolding answer_def
    by (cases r) (auto simp: reply_or_fail_def send_swarm_def split: prod.splits)
  have st: "ct_store c' = ct_store c1" by (simp add: c')
  have stored: "get_for_id_and_kind x (st_db (ct_store c1)) (md_id (metadata x m)) (md_kind (metadata x m)) = Ok m"
    if "is_ok r"
    using that inserted_is_stored [OF assms(1)] v by (auto simp: is_ok_iff)
  have ok: "is_ok answer \<longleftrightarrow> is_ok r \<and> ct_swarm_open c" by (cases r) (simp_all add: answer_def)
  have "ct_swarm c' = ct_swarm c @ (if is_ok r \<and> ct_swarm_open c then [ScBroadcast m] else [])"
    "ct_replies c' = ct_replies c @ (if rp_open ch then [(rp_id ch, ReplyDone answer)] else [])"
    by (simp_all add: c' frame)
  with stored st ok show ?thesis by (simp add: v)
qed

section \<open>Claims of peers\<close>

text \<open>A check that passes is about a V2 premint: the check of the other types panics or fails.\<close>

lemma zora_verify_kind: "zora_verify_claim ns x p ch tx log cl \<Longrightarrow> cl_kind cl = ''zora_premint_v2''"
  by (auto simp: zora_verify_claim_def Let_def split: sum.splits)

lemma correct_is_v2:
  assumes "fst (inclusion_claim_correct x cache premint cl) = Returns (Ok True)"
    "name_of (md_kind (metadata x premint)) = cl_kind cl"
  shows "\<exists>p. premint = ZoraV2 p"
proof (cases premint)
  case (Simple sp)
  then show ?thesis using assms(1)
    by (auto simp: inclusion_claim_correct_def split: prod.splits sum.splits option.splits)
next
  case (ZoraERC20V1 p)
  then have "cl_kind cl = ''zora_premint_v2''" using assms(1)
    by (auto simp: inclusion_claim_correct_def dest: zora_verify_kind split: prod.splits sum.splits option.splits)
  with assms(2) ZoraERC20V1 show ?thesis by (simp add: zora_metadata_def ns_erc20v1_def)
qed blast

text \<open>
  A claim received from a peer changes the store only with a reason. In mode \<open>trust\<close> the
  peer is one of the configured ones. In the other modes the store holds a V2 premint under the
  claim's identifier, and the receipt of the transaction the claim names has a log of the
  factory that mints this premint.
\<close>

lemma peer_claims_need_evidence:
  assumes "good_store x (ct_store c)" "ct_store (snd (handle_event_onchain_claim x pc c)) \<noteq> ct_store c"
  shows "(cfg_chain_inclusion_mode (ct_config c) = Trust \<and> pc_from_peer_id pc \<in> set (trusted_peers x (ct_config c))) \<or>
    (cfg_chain_inclusion_mode (ct_config c) \<noteq> Trust \<and>
     (\<exists>p rpc tx log. get_for_id_and_kind x (st_db (ct_store c)) (cl_premint_id (pc_claim pc))
         (PremintName (cl_kind (pc_claim pc))) = Ok (ZoraV2 p) \<and>
       receipt_of x rpc (cl_tx_hash (pc_claim pc)) = Ok (Some tx) \<and> log \<in> set (rc_logs tx) \<and>
       zora_mint_of ns_v2 x p tx log))"
proof (cases "cfg_chain_inclusion_mode (ct_config c) = Trust")
  case True
  with assms(2) show ?thesis
    by (auto simp: handle_event_onchain_claim_def Let_def split: if_splits prod.splits)
next
  case False
  let ?cl = "pc_claim pc"
  obtain q where q: "get_for_id_and_kind x (st_db (ct_store c)) (cl_premint_id ?cl) (PremintName (cl_kind ?cl)) = Ok q"
    "fst (inclusion_claim_correct x (ct_chains c) q ?cl) = Returns (Ok True)"
    using assms(2) False
    by (auto simp: handle_event_onchain_claim_def Let_def
        split: chain_inclusion_mode.splits sum.splits prod.splits outcome.splits bool.splits)
  have "premint_key x q = (cl_kind ?cl, cl_premint_id ?cl)"
    using db.get_key [OF assms(1)] q(1) by (fastforce simp: storage_reader_def)
  then obtain p where p: "q = ZoraV2 p" using correct_is_v2 [OF q(2)] by (auto simp: premint_key_def)
  from q(2) p obtain rpc tx log where "receipt_of x rpc (cl_tx_hash ?cl) = Ok (Some tx)" "log \<in> set (rc_logs tx)"
    "zora_verify_claim ns_v2 x p (cl_chain_id ?cl) tx log ?cl"
    by (auto elim: inclusion_correctE)
  with v2.check_mint q(1) p False show ?thesis by blast
qed

text \<open>
  C37. A claim about a stored premint of type \<open>Simple\<close> that names any transaction of any chain
  with enough logs panics, which ends the controller's loop, exactly if the node is not in mode
  \<open>trust\<close>: the check of such claims is not implemented, and in the modes \<open>check\<close> and \<open>verify\<close> any peer
  can send one. In mode \<open>trust\<close> no check is made and the loop goes on.
\<close>

theorem simple_claim_ends_controller:
  assumes "get_for_id_and_kind x (st_db (ct_store c)) (cl_premint_id cl) (PremintName (cl_kind cl)) = Ok (Simple sp)"
    "get_rpc x (ct_chains c) (cl_chain_id cl) = (Ok rpc, cache')"
    "receipt_of x rpc (cl_tx_hash cl) = Ok (Some tx)" "unat (cl_log_index cl) < length (rc_logs tx)"
  shows "fst (loop_turn x now (InEvent (EvMintSeenOnchain \<lparr>pc_claim = cl, pc_from_peer_id = peer\<rparr>) schedule) c) = Panic \<longleftrightarrow>
    cfg_chain_inclusion_mode (ct_config c) \<noteq> Trust"
  using assms
  by (auto simp: handle_event_onchain_claim_def inclusion_claim_correct_def nth_opt_def Let_def
      split: chain_inclusion_mode.split prod.split)

section \<open>Sync responses\<close>

definition same_but_store :: "controller \<Rightarrow> controller \<Rightarrow> bool" where
  "same_but_store c c' \<longleftrightarrow> ct_swarm c' = ct_swarm c \<and> ct_config c' = ct_config c \<and>
     ct_replies c' = ct_replies c \<and> ct_swarm_open c' = ct_swarm_open c \<and> ct_rules c' = ct_rules c"

lemma advance_task_frame:
  "written x (ct_store c) (ct_store (snd (advance_task x w t c))) \<and>
   same_but_store c (snd (advance_task x w t c))"
  by (cases "(x, w, t, c)" rule: advance_task.cases)
    (simp_all add: same_but_store_def split: prod.split)

lemma advance_task_cache:
  assumes "connect_ok x" "cache_ok (ct_chains c)"
  shows "cache_ok (ct_chains (snd (advance_task x w t c)))"
proof (cases "(x, w, t, c)" rule: advance_task.cases)
  case (3 x' w' p existing c')
  with run_rules_cache_ok [OF assms, of "ct_rules c x" p "storage_clone (ct_store c)" existing]
  show ?thesis by (simp split: prod.split) (metis snd_conv)
qed (simp_all add: assms)

lemma advance_simps:
  "snd (advance x i (ts, c)) =
     (if i < length ts then snd (advance_task x (length (filter holds_permit ts)) (ts ! i) c) else c)"
  "fst (advance x i (ts, c)) =
     (if i < length ts then ts[i := fst (advance_task x (length (filter holds_permit ts)) (ts ! i) c)] else ts)"
  by (simp_all add: advance_def Let_def split: prod.split)

lemma advance_frame:
  "written x (ct_store (snd st)) (ct_store (snd (advance x i st)))"
  "same_but_store (snd st) (snd (advance x i st))"
  "connect_ok x \<Longrightarrow> cache_ok (ct_chains (snd st)) \<Longrightarrow> cache_ok (ct_chains (snd (advance x i st)))"
proof -
  obtain ts c where st: "st = (ts, c)" by (cases st)
  note t = advance_task_frame [of x c "length (filter holds_permit ts)" "ts ! i"]
  show "written x (ct_store (snd st)) (ct_store (snd (advance x i st)))"
    "same_but_store (snd st) (snd (advance x i st))"
    using t by (simp_all add: st advance_simps same_but_store_def)
  show "cache_ok (ct_chains (snd (advance x i st)))" if "connect_ok x" "cache_ok (ct_chains (snd st))"
    using that by (simp add: st advance_simps advance_task_cache)
qed

lemma fold_advance_frame:
  "written x (ct_store (snd st)) (ct_store (snd (fold (advance x) is st))) \<and>
   same_but_store (snd st) (snd (fold (advance x) is st)) \<and>
   (connect_ok x \<longrightarrow> cache_ok (ct_chains (snd st)) \<longrightarrow> cache_ok (ct_chains (snd (fold (advance x) is st))))"
proof (induction "is" arbitrary: st)
  case (Cons i "is")
  from Cons.IH [of "advance x i st"] advance_frame [where st = st and i = i and x = x] show ?case
    by (auto simp: same_but_store_def intro: written_trans)
qed (simp add: same_but_store_def)

lemma run_sync_frame:
  "written x (ct_store c) (ct_store (snd (run_sync x schedule ps c)))"
  "same_but_store c (snd (run_sync x schedule ps c))"
  "connect_ok x \<Longrightarrow> cache_ok (ct_chains c) \<Longrightarrow> cache_ok (ct_chains (snd (run_sync x schedule ps c)))"
  using fold_advance_frame [of x "(map Queued ps, c)" "schedule @ remaining_turns (length ps)"]
  by (simp_all add: run_sync_def)

section \<open>Every task of a sync response finishes\<close>

definition settled :: "sync_task \<Rightarrow> bool" where
  "settled t \<longleftrightarrow> \<not> holds_permit t"

lemma settled_cases: "settled t \<longleftrightarrow> t = Finished \<or> (\<exists>p. t = Queued p)"
  by (cases t) (simp_all add: settled_def)

lemma advance_length [simp]: "length (fst (advance x i st)) = length (fst st)"
  by (cases st) (simp add: advance_simps)

lemma fold_advance_length [simp]: "length (fst (fold (advance x) is st)) = length (fst st)"
  by (induction "is" arbitrary: st) simp_all

lemma advance_other: "j \<noteq> i \<Longrightarrow> fst (advance x i st) ! j = fst st ! j"
  by (cases st) (simp add: advance_simps)

lemma fold_advance_other: "j \<notin> set is \<Longrightarrow> fst (fold (advance x) is st) ! j = fst st ! j"
  by (induction "is" arbitrary: st) (simp_all add: advance_other)

lemma advance_at:
  assumes "i < length (fst st)"
  shows "fst (advance x i st) ! i =
    fst (advance_task x (length (filter holds_permit (fst st))) (fst st ! i) (snd st))"
  using assms by (cases st) (simp add: advance_simps)

lemma three_turns:
  assumes "i < length (fst st)"
  shows "settled (fst (fold (advance x) [i, i, i] st) ! i)"
    and "\<forall>t\<in>set (fst st). settled t \<Longrightarrow> fst (fold (advance x) [i, i, i] st) ! i = Finished"
proof -
  define st1 where "st1 = advance x i st"
  define st2 where "st2 = advance x i st1"
  have len: "i < length (fst st1)" "i < length (fst st2)" using assms by (simp_all add: st1_def st2_def)
  have s1: "fst st1 ! i = fst (advance_task x (length (filter holds_permit (fst st))) (fst st ! i) (snd st))"
    using advance_at [OF assms] by (simp add: st1_def)
  have s2: "fst st2 ! i = fst (advance_task x (length (filter holds_permit (fst st1))) (fst st1 ! i) (snd st1))"
    using advance_at [OF len(1)] by (simp add: st2_def)
  have s3: "fst (fold (advance x) [i, i, i] st) ! i =
      fst (advance_task x (length (filter holds_permit (fst st2))) (fst st2 ! i) (snd st2))"
    using advance_at [OF len(2)] by (simp add: st1_def st2_def)
  have found: "fst (advance_task x w2 (fst (advance_task x w1 (Found p r) c1)) c2) = Finished" for w1 w2 p r c1 c2
    by (cases r) (simp_all split: prod.split)
  have eval: "fst (advance_task x w2 (fst (advance_task x w1 (Evaluated p rs) c1)) c2) = Finished" for w1 w2 p rs c1 c2
    by simp
  have fin: "fst (advance_task x w Finished c) = Finished" for w c by simp
  have run: "fst (fold (advance x) [i, i, i] st) ! i = Finished"
    if "\<forall>p. fst st ! i = Queued p \<longrightarrow> length (filter holds_permit (fst st)) < 10"
  proof (cases "fst st ! i")
    case (Queued p)
    with that s1 obtain r where "fst st1 ! i = Found p r" by simp
    with found s2 s3 show ?thesis by simp
  next
    case (Found p r)
    with found s1 s2 s3 fin show ?thesis by simp
  next
    case (Evaluated p rs)
    with eval s1 s2 s3 fin show ?thesis by simp
  next
    case Finished
    with s1 s2 s3 fin show ?thesis by simp
  qed
  show "settled (fst (fold (advance x) [i, i, i] st) ! i)"
  proof (cases "\<exists>p. fst st ! i = Queued p \<and> 10 \<le> length (filter holds_permit (fst st))")
    case True
    then obtain p where q: "fst st ! i = Queued p" "10 \<le> length (filter holds_permit (fst st))" by blast
    then have "advance x i st = st"
      by (cases st) (simp add: advance_def Let_def list_update_same_conv)
    with q show ?thesis by (simp add: settled_def)
  next
    case False
    then have "\<forall>p. fst st ! i = Queued p \<longrightarrow> length (filter holds_permit (fst st)) < 10" by auto
    from run [OF this] show ?thesis by (simp only: settled_def holds_permit.simps not_False_eq_True)
  qed
  show "fst (fold (advance x) [i, i, i] st) ! i = Finished" if "\<forall>t\<in>set (fst st). settled t"
  proof (rule run)
    have "filter holds_permit (fst st) = []" using that by (simp add: settled_def filter_empty_conv)
    then show "\<forall>p. fst st ! i = Queued p \<longrightarrow> length (filter holds_permit (fst st)) < 10" by simp
  qed
qed

definition turns_upto :: "nat \<Rightarrow> nat list" where
  "turns_upto k = concat (map (\<lambda>i. [i, i, i]) [0..<k])"

lemma turns_upto_Suc: "turns_upto (Suc k) = turns_upto k @ [k, k, k]"
  by (simp add: turns_upto_def)

lemma turns_upto_set: "set (turns_upto k) = {0..<k}"
  by (induction k) (auto simp: turns_upto_Suc turns_upto_def)

lemma remaining_turns_alt: "remaining_turns n = turns_upto n @ turns_upto n"
  by (simp add: remaining_turns_def turns_upto_def Let_def)

lemma round_settles:
  "k \<le> length (fst st) \<Longrightarrow> \<forall>j<k. settled (fst (fold (advance x) (turns_upto k) st) ! j)"
proof (induction k)
  case (Suc k)
  let ?st = "fold (advance x) (turns_upto k) st"
  have k: "k < length (fst ?st)" using Suc.prems by simp
  have "settled (fst (fold (advance x) [k, k, k] ?st) ! j)" if "j < Suc k" for j
  proof (cases "j = k")
    case True
    then show ?thesis using three_turns(1) [OF k] by simp
  next
    case False
    with that Suc have "settled (fst ?st ! j)" by simp
    with False show ?thesis using fold_advance_other [of j "[k, k, k]" x ?st] by simp
  qed
  then show ?case by (simp add: turns_upto_Suc)
qed simp

lemma round_finishes:
  "k \<le> length (fst st) \<Longrightarrow> \<forall>t\<in>set (fst st). settled t \<Longrightarrow>
    (\<forall>j<k. fst (fold (advance x) (turns_upto k) st) ! j = Finished) \<and>
    (\<forall>t\<in>set (fst (fold (advance x) (turns_upto k) st)). settled t)"
proof (induction k)
  case (Suc k)
  let ?st = "fold (advance x) (turns_upto k) st"
  let ?st' = "fold (advance x) [k, k, k] ?st"
  have k: "k < length (fst ?st)" using Suc.prems by simp
  have IH: "\<forall>j<k. fst ?st ! j = Finished" "\<forall>t\<in>set (fst ?st). settled t" using Suc by auto
  have fin: "fst ?st' ! j = Finished" if "j < Suc k" for j
    using that IH(1) three_turns(2) [OF k IH(2), of x] fold_advance_other [of j "[k, k, k]" x ?st]
    by (cases "j = k") simp_all
  moreover have "settled (fst ?st' ! j)" if "j < length (fst ?st')" for j
  proof (cases "j = k")
    case True
    then show ?thesis using three_turns(1) [OF k] by simp
  next
    case False
    then show ?thesis using that IH(2) fold_advance_other [of j "[k, k, k]" x ?st] by simp
  qed
  ultimately show ?case by (simp only: turns_upto_Suc fold_append comp_apply all_set_conv_all_nth) blast
qed (simp add: turns_upto_def)

lemma each_task_finishes:
  assumes "i < length premints"
  shows "fst (run_sync x schedule premints c) ! i = Finished"
proof -
  define st where "st = fold (advance x) schedule (map Queued premints, c)"
  define n where "n = length premints"
  have n: "n = length (fst st)" by (simp add: st_def n_def)
  let ?st1 = "fold (advance x) (turns_upto n) st"
  have "\<forall>t\<in>set (fst ?st1). settled t"
    using round_settles [of n st x] n by (simp add: all_set_conv_all_nth)
  then have "\<forall>j<n. fst (fold (advance x) (turns_upto n) ?st1) ! j = Finished"
    using round_finishes [of n ?st1 x] n by simp
  moreover have "fst (run_sync x schedule premints c) = fst (fold (advance x) (turns_upto n) ?st1)"
    by (simp add: run_sync_def remaining_turns_alt st_def n_def)
  ultimately show ?thesis using assms by (simp add: n_def)
qed

text \<open>
  C26. However the tasks of a sync response are interleaved, each of them comes to its end, so
  that the controller goes on to its next input: no schedule leaves a premint waiting for the
  semaphore.
\<close>

theorem sync_response_completes:
  "fst (run_sync x schedule premints c) = replicate (length premints) Finished"
proof (intro nth_equalityI)
  have len: "length (fst (run_sync x schedule premints c)) = length premints" by (simp add: run_sync_def)
  then show "length (fst (run_sync x schedule premints c)) = length (replicate (length premints) Finished)" by simp
  show "fst (run_sync x schedule premints c) ! i = replicate (length premints) Finished ! i"
    if "i < length (fst (run_sync x schedule premints c))" for i
    using that by (simp add: len each_task_finishes)
qed

lemma finished_turns: "(\<forall>t\<in>set ts. t = Finished) \<Longrightarrow> fold (advance x) is (ts, c) = (ts, c)"
proof (induction "is")
  case (Cons i "is")
  have "advance x i (ts, c) = (ts, c)"
  proof (cases "i < length ts")
    case True
    with Cons.prems have "ts ! i = Finished" by simp
    with True show ?thesis by (simp add: advance_def Let_def list_update_same_conv)
  qed (simp add: advance_def)
  with Cons show ?case by simp
qed simp

lemma three_turns_sequential:
  assumes "i < length ts" "\<forall>t\<in>set ts. settled t" "ts ! i = Queued p"
  shows "fold (advance x) [i, i, i] (ts, c) = (ts[i := Finished], snd (validate_and_insert x p c))"
proof -
  define L where "L = lookup_existing x (storage_reader x) p (storage_clone (ct_store c))"
  have w: "filter holds_permit ts = []" using assms(2) by (simp add: settled_def filter_empty_conv)
  have s1: "advance x i (ts, c) = (ts[i := Found p L], c)"
    using assms(1,3) by (simp add: advance_def w L_def Let_def)
  show ?thesis
  proof (cases L)
    case (Inl e)
    have "snd (validate_and_insert x p c) = c"
      using Inl by (simp add: validate_and_insert_def evaluate_def flip: L_def)
    with s1 Inl assms(1) show ?thesis by (simp add: advance_def Let_def)
  next
    case (Inr existing)
    obtain rs cache where r: "run_rules x (ct_rules c x) (ct_chains c) p (storage_clone (ct_store c)) existing = (rs, cache)"
      by fastforce
    have e: "evaluate x (storage_reader x) (ct_rules c x) (ct_chains c) p (storage_clone (ct_store c)) = (Ok rs, cache)"
      using Inr by (simp add: evaluate_def r flip: L_def)
    have v: "snd (validate_and_insert x p c) =
        (if is_accept rs then c\<lparr>ct_chains := cache, ct_store := snd (store x (ct_store c) p)\<rparr> else c\<lparr>ct_chains := cache\<rparr>)"
      by (simp add: validate_and_insert_def e split: prod.split sum.split)
    show ?thesis using s1 Inr assms(1) r by (simp add: advance_def v Let_def)
  qed
qed

lemma sequential_round:
  "k \<le> length ps \<Longrightarrow> fold (advance x) (turns_upto k) (map Queued ps, c) =
    (replicate k Finished @ map Queued (drop k ps), fold (\<lambda>p c. snd (validate_and_insert x p c)) (take k ps) c)"
proof (induction k)
  case (Suc k)
  let ?ts = "replicate k Finished @ map Queued (drop k ps)"
  have k: "k < length ps" using Suc.prems by simp
  have d: "drop k ps = ps ! k # drop (Suc k) ps" using k by (rule Cons_nth_drop_Suc [symmetric])
  have "?ts ! k = Queued (ps ! k)" by (simp add: nth_append d)
  moreover have "\<forall>t\<in>set ?ts. settled t" by (auto simp: settled_def)
  moreover have "?ts[k := Finished] = replicate (Suc k) Finished @ map Queued (drop (Suc k) ps)"
    by (simp add: d list_update_append replicate_app_Cons_same)
  ultimately have "fold (advance x) [k, k, k] (?ts, c') =
      (replicate (Suc k) Finished @ map Queued (drop (Suc k) ps), snd (validate_and_insert x (ps ! k) c'))" for c'
    using three_turns_sequential [of k ?ts "ps ! k" x c'] k by simp
  with Suc show ?case by (simp add: turns_upto_Suc take_Suc_conv_app_nth k del: fold_simps)
qed (simp add: turns_upto_def)

lemma run_sync_in_order:
  "snd (run_sync x [] ps c) = fold (\<lambda>p c. snd (validate_and_insert x p c)) ps c"
  using sequential_round [of "length ps" ps x c]
  by (simp add: run_sync_def remaining_turns_alt finished_turns)

text \<open>
  C27. When they overlap it may not: two versions of one premint whose evaluations both begin
  before either is stored are both judged as new, so that the higher version replaces the lower
  whoever its signer is, which the rule that signers match would refuse one after the other.
\<close>

theorem overlapping_sync_skips_signer_check:
  assumes "good_store x (ct_store c)" "db_up (ct_store c)"
    "premint_key x p = premint_key x q" "view x (ct_store c) (premint_key x p) = None"
    "version_of x p < version_of x q"
    "run_rules x (ct_rules c x) (ct_chains c) p (storage_clone (ct_store c)) None = (rs, cache)" "is_accept rs"
    "run_rules x (ct_rules c x) cache q (storage_clone (ct_store c)) None = (rs', cache')" "is_accept rs'"
  shows "\<exists>e. view x (ct_store (snd (run_sync x [0, 1, 0, 1, 0, 1] [p, q] c))) (premint_key x p) = Some e \<and>
    en_premint e = q"
proof -
  have n: "existing_in x (view x (ct_store c)) p = None" "existing_in x (view x (ct_store c)) q = None"
    using assms(3,4) by (simp_all add: existing_in_def)
  let ?s1 = "snd (store x (ct_store c) p)"
  let ?s2 = "snd (store x ?s1 q)"
  have "fold (advance x) [0, 1, 0, 1, 0, 1] ([Queued p, Queued q], c) =
    ([Finished, Finished], c\<lparr>ct_chains := cache', ct_store := ?s2\<rparr>)"
    by (simp add: advance_def Let_def lookup_clone [OF assms(1,2)] n assms(6-9))
  then have r: "ct_store (snd (run_sync x [0, 1, 0, 1, 0, 1] [p, q] c)) = ?s2"
    by (simp add: run_sync_def finished_turns)
  have "fst (store x (ct_store c) p) = Ok ()" using db.put_law [OF assms(1,2)] assms(4) by (simp add: spec_accepts_def)
  note p = db.put_Ok [OF assms(1) this] db.put_good [OF assms(1), of p]
  have up: "db_up ?s1" using p db.put_up by simp
  have "fst (store x ?s1 q) = Ok ()"
    using db.put_law [OF p(2) up] p(1) assms(3-5) by (simp add: spec_accepts_def spec_put_def)
  from db.put_Ok [OF p(2) this] p(1) assms(3,4) show ?thesis unfolding r by (simp add: spec_put_def)
qed

section \<open>The loop\<close>

text \<open>
  A turn of the loop in a world that agrees with \<open>x\<close> on how premints are written, and what
  happens between turns: connections expire, and the database's connection, clock and scan order
  change.
\<close>

inductive controller_step :: "ext \<Rightarrow> controller \<Rightarrow> controller \<Rightarrow> bool" for x where
  turn: "same_text x y \<Longrightarrow> connect_ok y \<Longrightarrow> loop_turn y now i c = (Returns (), c') \<Longrightarrow> controller_step x c c'"
| expire: "controller_step x c (c\<lparr>ct_chains := cache_expire idle (ct_chains c)\<rparr>)"
| database: "scan_ok db \<Longrightarrow> db_rows db = db_rows (st_db (ct_store c)) \<Longrightarrow>
    controller_step x c (c\<lparr>ct_store := (ct_store c)\<lparr>st_db := db\<rparr>\<rparr>)"

inductive reachable :: "ext \<Rightarrow> controller \<Rightarrow> controller \<Rightarrow> bool" for x c where
  start: "reachable x c c"
| more: "reachable x c c1 \<Longrightarrow> controller_step x c1 c2 \<Longrightarrow> reachable x c c2"

inductive_cases controller_stepE: "controller_step x c c'"

lemma claim_frame:
  "written x (ct_store c) (ct_store (snd (handle_event_onchain_claim x pc c))) \<and>
   ct_swarm (snd (handle_event_onchain_claim x pc c)) = ct_swarm c \<and>
   ct_config (snd (handle_event_onchain_claim x pc c)) = ct_config c"
  by (auto simp: handle_event_onchain_claim_def Let_def
      split: chain_inclusion_mode.split prod.split sum.split outcome.split bool.split)
    (metis snd_conv written_mark)+

text \<open>What an operation of the loop may change.\<close>

definition only_check_mode_announces :: "controller \<Rightarrow> bool" where
  "only_check_mode_announces c \<longleftrightarrow>
     (\<forall>cl. ScSendOnchainMintFound cl \<in> set (ct_swarm c) \<longrightarrow> cfg_chain_inclusion_mode (ct_config c) = Check)"

definition conforms :: "ext \<Rightarrow> controller \<Rightarrow> controller \<Rightarrow> bool" where
  "conforms x c c' \<longleftrightarrow> written x (ct_store c) (ct_store c') \<and> ct_config c' = ct_config c \<and>
     (cache_ok (ct_chains c) \<longrightarrow> cache_ok (ct_chains c')) \<and>
     (only_check_mode_announces c \<longrightarrow> only_check_mode_announces c')"

lemma conformsI:
  "written x (ct_store c) (ct_store c') \<Longrightarrow> ct_config c' = ct_config c \<Longrightarrow>
    (cache_ok (ct_chains c) \<Longrightarrow> cache_ok (ct_chains c')) \<Longrightarrow>
    (\<forall>cl. ScSendOnchainMintFound cl \<in> set (ct_swarm c') \<longrightarrow>
      ScSendOnchainMintFound cl \<in> set (ct_swarm c) \<or> cfg_chain_inclusion_mode (ct_config c) = Check) \<Longrightarrow>
    conforms x c c'"
  by (auto simp: conforms_def only_check_mode_announces_def)

lemma request_sync_frame:
  "ct_store (snd (request_sync x now c)) = ct_store c" "ct_chains (snd (request_sync x now c)) = ct_chains c"
  "ct_config (snd (request_sync x now c)) = ct_config c"
  "ScSendOnchainMintFound cl \<in> set (ct_swarm (snd (request_sync x now c))) \<longleftrightarrow>
    ScSendOnchainMintFound cl \<in> set (ct_swarm c)"
  by (auto simp: request_sync_def Let_def send_swarm_def)

lemma inclusion_cache:
  "connect_ok x \<Longrightarrow> cache_ok cache \<Longrightarrow> cache_ok (snd (inclusion_claim_correct x cache p cl))"
  using get_rpc_cache_ok [of x cache "cl_chain_id cl"]
  by (auto simp: inclusion_claim_correct_def split: prod.splits sum.splits)

lemma claim_cache:
  assumes "connect_ok x" "cache_ok (ct_chains c)"
  shows "cache_ok (ct_chains (snd (handle_event_onchain_claim x pc c)))"
proof -
  have "cache_ok cache" if "inclusion_claim_correct x (ct_chains c) p cl = (r, cache)" for r cache p cl
    using inclusion_cache [OF assms, of p cl] that by simp
  with assms(2) show ?thesis
    by (auto simp: handle_event_onchain_claim_def Let_def
      split: chain_inclusion_mode.split prod.split sum.split outcome.split bool.split)
qed

lemma event_conforms: "connect_ok x \<Longrightarrow> conforms x c (snd (handle_event x schedule ev c))"
proof (cases ev)
  case (EvPremintReceived p)
  assume "connect_ok x"
  with EvPremintReceived show ?thesis by (simp add: conformsI validate_written validate_cache)
next
  case (EvMintSeenOnchain pc)
  assume "connect_ok x"
  have "snd (handle_event x schedule ev c) = snd (handle_event_onchain_claim x pc c)"
    by (simp add: EvMintSeenOnchain split: prod.split outcome.split)
  with claim_frame [of x c pc] claim_cache [OF \<open>connect_ok x\<close>, of c pc] show ?thesis
    by (simp add: conformsI)
next
  case (EvSyncResponse ps)
  assume "connect_ok x"
  with EvSyncResponse run_sync_frame [where x = x and c = c and schedule = schedule and ps = ps] show ?thesis
    by (intro conformsI) (simp_all add: same_but_store_def)
qed (simp_all add: conformsI)

lemma command_conforms: "connect_ok x \<Longrightarrow> conforms x c (snd (handle_command x now cmd c))"
proof (cases cmd)
  case (CcBroadcast m ch)
  assume "connect_ok x"
  have "conforms x c (snd (case validate_and_insert x m c of (r, c1) \<Rightarrow> (r, c1)))"
    using \<open>connect_ok x\<close> by (simp add: conformsI validate_written validate_cache)
  show ?thesis
    by (rule conformsI) (simp_all add: CcBroadcast split_beta validate_written validate_cache \<open>connect_ok x\<close> split: sum.split)
next
  case (CcQuery q)
  then show ?thesis by (cases q) (simp_all add: conformsI)
next
  case CcSync
  then show ?thesis by (simp add: conformsI request_sync_frame split_beta split: outcome.split)
qed (auto intro!: conformsI simp: Let_def split_beta split: if_splits)

lemma turn_conforms:
  assumes "connect_ok x"
  shows "conforms x c (snd (loop_turn x now i c))"
proof (cases i)
  case (InCommand cmd)
  then show ?thesis using command_conforms [OF assms, of c now cmd]
    by (simp add: split_beta split: outcome.split)
next
  case (InEvent ev schedule)
  then show ?thesis using event_conforms [OF assms] by simp
next
  case InTick
  then show ?thesis by (simp add: conformsI request_sync_frame)
qed

lemma written_same: "same_text x y \<Longrightarrow> written y s s' \<Longrightarrow> written x s s'"
  unfolding written_def using same_run_db by metis

text \<open>The store of another time: the same rows in the same table.\<close>

lemma database_view:
  assumes "db_rows db = db_rows (st_db s)"
  shows "view x (s\<lparr>st_db := db\<rparr>) = view x s"
    "scan_ok db \<Longrightarrow> good_store x s \<Longrightarrow> good_store x (s\<lparr>st_db := db\<rparr>)"
  using assms by (simp_all add: view_def fun_eq_iff good_store_def store_ok_def db_ok_def)

definition controller_inv :: "ext \<Rightarrow> config \<Rightarrow> controller \<Rightarrow> bool" where
  "controller_inv x cfg c \<longleftrightarrow> good_store x (ct_store c) \<and> cache_ok (ct_chains c) \<and>
     ct_config c = cfg \<and> only_check_mode_announces c"

lemma step_inv:
  assumes "controller_step x c c'" "controller_inv x cfg c"
  shows "controller_inv x cfg c'"
  using assms
proof (cases rule: controller_step.cases)
  case (turn y now i)
  then have "conforms y c c'" using turn_conforms [of y c now i] by simp
  with turn assms(2) show ?thesis
    by (auto simp: controller_inv_def conforms_def same_store(3) dest: written_good)
next
  case (expire idle)
  with assms(2) show ?thesis
    by (auto simp: controller_inv_def only_check_mode_announces_def cache_ok_expire)
next
  case (database db)
  with assms(2) show ?thesis
    by (auto simp: controller_inv_def only_check_mode_announces_def database_view)
qed

text \<open>
  C12. From its start on a good store, whatever commands, events and ticks the controller
  receives, whatever the chain answers and however the database fails, the store keeps its
  invariant, the cached connections are to the urls they are cached under, and mints found on
  chain are only announced in mode \<open>check\<close>.
\<close>

theorem loop_invariant:
  assumes "good_store x s" "reachable x (controller_new cfg s rules) c"
  shows "good_store x (ct_store c) \<and> cache_ok (ct_chains c) \<and> ct_config c = cfg \<and>
    (\<forall>cl. ScSendOnchainMintFound cl \<in> set (ct_swarm c) \<longrightarrow> cfg_chain_inclusion_mode cfg = Check)"
proof -
  have "controller_inv x cfg (controller_new cfg s rules)"
    using assms(1) by (simp add: controller_inv_def controller_new_def only_check_mode_announces_def)
  with assms(2) have "controller_inv x cfg c" by (induction) (auto intro: step_inv)
  then show ?thesis by (auto simp: controller_inv_def only_check_mode_announces_def)
qed

text \<open>An entry as it may look later on a node that does not prune.\<close>

definition later_entry :: "ext \<Rightarrow> entry \<Rightarrow> entry \<Rightarrow> bool" where
  "later_entry x e e' \<longleftrightarrow> version_of x (en_premint e) \<le> version_of x (en_premint e') \<and> (en_seen e \<longrightarrow> en_seen e')"

lemma run_db_later:
  assumes "good_store x s" "\<not> st_prune_minted_premints s" "view x s k = Some e"
  shows "\<exists>e'. view x (run_db x s ws) k = Some e' \<and> later_entry x e e'"
  using assms
proof (induction ws arbitrary: s e)
  case (Cons w ws)
  have "\<exists>e1. view x (db_step x s w) k = Some e1 \<and> later_entry x e e1"
    using db.put_mono [OF Cons.prems(1,3)] db.mark_mono [OF Cons.prems(1,3,2)]
    unfolding later_entry_def by (cases w) (auto, force)
  then obtain e1 where e1: "view x (db_step x s w) k = Some e1" "later_entry x e e1" by blast
  have "good_store x (db_step x s w)" "\<not> st_prune_minted_premints (db_step x s w)"
    using Cons.prems by (simp_all add: db_step_good db_step_prunes)
  from Cons.IH [OF this e1(1)] e1(2) show ?case by (fastforce simp: later_entry_def)
qed (simp add: later_entry_def)

lemma run_db_prunes: "st_prune_minted_premints (run_db x s ws) = st_prune_minted_premints s"
  by (induction ws arbitrary: s) (simp_all add: db_step_prunes)

lemma step_later:
  assumes "controller_step x c c'" "good_store x (ct_store c)" "\<not> st_prune_minted_premints (ct_store c)"
    "view x (ct_store c) k = Some e"
  shows "\<not> st_prune_minted_premints (ct_store c') \<and> (\<exists>e'. view x (ct_store c') k = Some e' \<and> later_entry x e e')"
  using assms
proof (cases rule: controller_step.cases)
  case (turn y now i)
  then have "written x (ct_store c) (ct_store c')"
    using turn_conforms [of y c now i] by (auto simp: conforms_def dest: written_same)
  with assms run_db_later [OF assms(2-4)] show ?thesis by (auto simp: written_def run_db_prunes)
qed (simp_all add: database_view later_entry_def)

lemma step_good:
  assumes "controller_step x c c'" "good_store x (ct_store c)"
  shows "good_store x (ct_store c')"
  using assms
proof (cases rule: controller_step.cases)
  case (turn y now i)
  then have "written x (ct_store c) (ct_store c')"
    using turn_conforms [of y c now i] by (auto simp: conforms_def dest: written_same)
  with assms(2) show ?thesis by (rule written_good [rotated])
qed (simp_all add: database_view)

text \<open>
  C15. On a node that does not prune, whatever the controller goes through, including sync
  responses whose tasks overlap, a stored premint stays stored, its version never goes down, and
  what was seen on chain stays seen.
\<close>

theorem premints_only_grow:
  assumes "reachable x c c'" "good_store x (ct_store c)"
    "\<not> st_prune_minted_premints (ct_store c)" "view x (ct_store c) k = Some e"
  shows "\<exists>e'. view x (ct_store c') k = Some e' \<and>
    version_of x (en_premint e) \<le> version_of x (en_premint e') \<and> (en_seen e \<longrightarrow> en_seen e')"
proof -
  have "good_store x (ct_store c') \<and> \<not> st_prune_minted_premints (ct_store c') \<and>
    (\<exists>e'. view x (ct_store c') k = Some e' \<and> later_entry x e e')"
    using assms(1)
  proof induction
    case start
    then show ?case using assms by (simp add: later_entry_def)
  next
    case (more c1 c2)
    then obtain e1 where g: "good_store x (ct_store c1)"
      "\<not> st_prune_minted_premints (ct_store c1)" "view x (ct_store c1) k = Some e1" "later_entry x e e1" by blast
    obtain e2 where "\<not> st_prune_minted_premints (ct_store c2)" "view x (ct_store c2) k = Some e2" "later_entry x e1 e2"
      using step_later [OF more(2) g(1-3)] by blast
    with step_good [OF more(2) g(1)] g(4) show ?case by (auto simp: later_entry_def)
  qed
  then show ?thesis by (auto simp: later_entry_def)
qed

end
