(* ===== verification/ControllerRuns.thy ===== *)
theory ControllerRuns
  imports ControllerProps
begin

text \<open>
  The properties of the controller at concrete inputs: a node with the default rules, the sample
  chain, and stores of at most one premint.
\<close>

section \<open>A controller to evaluate\<close>

definition sample_config :: "chain_inclusion_mode \<Rightarrow> config" where
  "sample_config m = (config_test_default 0)\<lparr>cfg_chain_inclusion_mode := m\<rparr>"

definition default_rules :: "ext \<Rightarrow> premint_storage rules_engine" where
  "default_rules x = new_with_default_rules x (storage_reader x) (config_test_default 0)"

definition sample_controller :: "chain_inclusion_mode \<Rightarrow> premint_storage \<Rightarrow> controller" where
  "sample_controller m s = controller_new (sample_config m) s default_rules"

lemma sample_controller_sel [simp]:
  "ct_store (sample_controller m s) = s" "ct_chains (sample_controller m s) = Map.empty"
  "ct_rules (sample_controller m s) = default_rules" "ct_swarm_open (sample_controller m s)"
  "ct_swarm (sample_controller m s) = []" "ct_replies (sample_controller m s) = []"
  "cfg_chain_inclusion_mode (ct_config (sample_controller m s)) = m"
  by (simp_all add: sample_controller_def controller_new_def sample_config_def)

definition zora_cache :: rpc_cache where
  "zora_cache = [''wss://rpc.zora.energy'' \<mapsto> WsProvider ''wss://rpc.zora.energy'']"

lemma sample_rpc_cached:
  "cache \<in> {Map.empty, zora_cache} \<Longrightarrow>
     get_rpc sample_ext cache 7777777 = (Ok (WsProvider ''wss://rpc.zora.energy''), zora_cache)"
  using sample_rpc by (auto simp: zora_cache_def get_rpc_def zora_url connect_def starts_with_def)

lemma storage_clone_sample [simp]: "storage_clone (sample_store b) = sample_store False"
  by (simp add: storage_clone_def sample_store_def)

lemma signed_as_key: "premint_key sample_ext (ZoraV2 (signed_as ch v)) = premint_key sample_ext (ZoraV2 (signed_as ch' v'))"
  by (simp add: premint_key_def zora_metadata_def signed_as_def)

lemma signed_as_accepted:
  assumes "cache \<in> {Map.empty, zora_cache}"
  shows "\<exists>rs. run_rules sample_ext (default_rules sample_ext) cache (ZoraV2 (signed_as ch v)) (sample_store False) None =
    (rs, zora_cache) \<and> is_accept rs"
proof -
  have "md_chain_id (metadata sample_ext (ZoraV2 (signed_as ch v))) = 7777777"
    by (simp add: zora_metadata_def signed_as_def sample_v2_def default_defs)
  then have "rules_rpc sample_ext (re_use_rpc (default_rules sample_ext)) cache
      (md_chain_id (metadata sample_ext (ZoraV2 (signed_as ch v)))) = (Some (WsProvider ''wss://rpc.zora.energy''), zora_cache)"
    using sample_rpc_cached [OF assms] by (simp add: rules_rpc_def default_rules_def config_test_default_def)
  moreover have "is_accept (map (check_rule (ZoraV2 (signed_as ch v)) \<lparr>ctx_storage = sample_store False,
      ctx_existing = None, ctx_rpc = Some (WsProvider ''wss://rpc.zora.energy'')\<rparr>)
      (all_rules sample_ext (storage_reader sample_ext)))"
    using signed_as_clean [of _ "\<lparr>ctx_storage = sample_store False, ctx_existing = None,
      ctx_rpc = Some (WsProvider ''wss://rpc.zora.energy'')\<rparr>" False ch v]
    unfolding is_accept_checks by (simp add: existing_in_def)
  ultimately show ?thesis by (simp add: run_rules_def default_rules_def)
qed

lemma signed_as_run:
  obtains rs where "fst (run_rules sample_ext (ct_rules (sample_controller m (sample_store b)) sample_ext)
      (ct_chains (sample_controller m (sample_store b))) (ZoraV2 (signed_as ch v))
      (storage_clone (ct_store (sample_controller m (sample_store b))))
      (existing_in sample_ext (view sample_ext (ct_store (sample_controller m (sample_store b)))) (ZoraV2 (signed_as ch v)))) = rs"
    "is_accept rs"
  using signed_as_accepted [of Map.empty ch v] by (auto simp: existing_in_def)

section \<open>Storing and broadcasting\<close>

theorem validate_and_insert_decides_witness:
  "view sample_ext (ct_store (snd (validate_and_insert sample_ext (ZoraV2 signed_v2)
      (sample_controller Verify (sample_store True))))) =
    spec_put sample_ext (ZoraV2 signed_v2) Map.empty"
proof -
  obtain rs where rs: "fst (run_rules sample_ext (ct_rules (sample_controller Verify (sample_store True)) sample_ext)
      (ct_chains (sample_controller Verify (sample_store True))) (ZoraV2 signed_v2)
      (storage_clone (ct_store (sample_controller Verify (sample_store True))))
      (existing_in sample_ext (view sample_ext (ct_store (sample_controller Verify (sample_store True)))) (ZoraV2 signed_v2))) = rs"
    "is_accept rs" by (rule signed_as_run)
  from validate_and_insert_decides [OF _ _ rs(1)] rs(2) show ?thesis by (simp add: spec_accepts_def)
qed

lemma signed_as_stored:
  "is_ok (fst (validate_and_insert sample_ext (ZoraV2 (signed_as ch v)) (sample_controller m (sample_store b))))"
proof -
  obtain rs where rs: "fst (run_rules sample_ext (ct_rules (sample_controller m (sample_store b)) sample_ext)
      (ct_chains (sample_controller m (sample_store b))) (ZoraV2 (signed_as ch v))
      (storage_clone (ct_store (sample_controller m (sample_store b))))
      (existing_in sample_ext (view sample_ext (ct_store (sample_controller m (sample_store b)))) (ZoraV2 (signed_as ch v)))) = rs"
    "is_accept rs" by (rule signed_as_run)
  have "fst (store sample_ext (sample_store b) (ZoraV2 (signed_as ch v))) = Ok ()"
    by (simp add: db.put_law spec_accepts_def)
  with rs show ?thesis
    using validate_store(1) [of sample_ext "sample_controller m (sample_store b)" rs] by simp
qed

theorem broadcast_only_if_stored_witness:
  "\<exists>out c'. handle_command sample_ext 0 (CcBroadcast (ZoraV2 signed_v2) \<lparr>rp_id = 4, rp_open = True\<rparr>)
      (sample_controller Check (sample_store True)) = (out, c') \<and>
    ct_swarm c' = [ScBroadcast (ZoraV2 signed_v2)] \<and>
    (\<exists>r. ct_replies c' = [(4, ReplyDone r)] \<and> is_ok r)"
proof -
  let ?c = "sample_controller Check (sample_store True)"
  obtain out c' where h: "handle_command sample_ext 0 (CcBroadcast (ZoraV2 signed_v2) \<lparr>rp_id = 4, rp_open = True\<rparr>) ?c = (out, c')"
    by fastforce
  have "good_store sample_ext (ct_store ?c)" by simp
  from broadcast_only_if_stored [OF this h] h signed_as_stored [of "CHR ''A''" 0 Check True] show ?thesis by auto
qed

section \<open>Claims\<close>

definition one_v2 :: premint_storage where
  "one_v2 = snd (store sample_ext (sample_store False) (ZoraV2 sample_v2))"

lemma one_v2_facts [simp]:
  "good_store sample_ext one_v2" "db_up one_v2" "\<not> st_prune_minted_premints one_v2"
  "view sample_ext one_v2 = spec_put sample_ext (ZoraV2 sample_v2) Map.empty"
proof -
  have ok: "fst (store sample_ext (sample_store False) (ZoraV2 sample_v2)) = Ok ()"
    by (simp add: db.put_law spec_accepts_def)
  show "good_store sample_ext one_v2" "db_up one_v2" "\<not> st_prune_minted_premints one_v2"
    by (simp_all add: one_v2_def db.put_good store_frame) (simp add: sample_store_def)
  show "view sample_ext one_v2 = spec_put sample_ext (ZoraV2 sample_v2) Map.empty"
    using db.put_Ok [OF sample_good ok] by (simp add: one_v2_def)
qed

lemma sample_claim_sel: "cl_premint_id sample_claim = md_id (metadata sample_ext (ZoraV2 sample_v2))"
  "cl_kind sample_claim = ''zora_premint_v2''" "cl_chain_id sample_claim = 7777777"
  by (simp_all add: sample_claim_def zora_metadata_def sample_v2_def default_defs)

lemma one_v2_get: "get_for_id_and_kind sample_ext (st_db one_v2) (cl_premint_id sample_claim)
    (PremintName (cl_kind sample_claim)) = Ok (ZoraV2 sample_v2)"
proof -
  have "premint_key sample_ext (ZoraV2 sample_v2) = (cl_kind sample_claim, cl_premint_id sample_claim)"
    by (simp add: premint_key_def sample_claim_sel) (simp add: zora_metadata_def ns_v2_def)
  then show ?thesis
    using db.get_law [OF one_v2_facts(1,2), of "cl_premint_id sample_claim" "PremintName (cl_kind sample_claim)"]
    by (simp add: storage_reader_def spec_put_def)
qed

definition simple_claim :: inclusion_claim where
  "simple_claim = \<lparr>cl_premint_id = snd (simple_key sample_ext), cl_chain_id = 7777777, cl_tx_hash = 7,
     cl_log_index = 0, cl_kind = ''simple''\<rparr>"

theorem simple_claim_ends_controller_witness:
  "fst (loop_turn sample_ext 0 (InEvent (EvMintSeenOnchain \<lparr>pc_claim = simple_claim, pc_from_peer_id = ''peer''\<rparr>) [])
     (sample_controller Verify (sample_one True))) = Panic"
proof -
  let ?c = "sample_controller Verify (sample_one True)"
  have "(cl_kind simple_claim, cl_premint_id simple_claim) = simple_key sample_ext"
    by (simp add: simple_claim_def simple_key_def)
  then have g: "get_for_id_and_kind sample_ext (st_db (ct_store ?c)) (cl_premint_id simple_claim)
      (PremintName (cl_kind simple_claim)) = Ok (Simple (simple_premint_default\<lparr>sp_version := 1, sp_media := ''a''\<rparr>))"
    using db.get_law [OF sample_one_good(1,2), of True "cl_premint_id simple_claim" "PremintName (cl_kind simple_claim)"]
    by (simp add: storage_reader_def) (simp add: simple_v_def)
  have r: "get_rpc sample_ext (ct_chains ?c) (cl_chain_id simple_claim) =
      (Ok (WsProvider ''wss://rpc.zora.energy''), zora_cache)"
    using sample_rpc_cached by (simp add: simple_claim_def)
  have t: "receipt_of sample_ext (WsProvider ''wss://rpc.zora.energy'') (cl_tx_hash simple_claim) = Ok (Some sample_receipt)"
    by (simp add: simple_claim_def sample_receipt_of)
  have l: "unat (cl_log_index simple_claim) < length (rc_logs sample_receipt)"
    by (simp add: simple_claim_def sample_receipt_def)
  show ?thesis unfolding simple_claim_ends_controller [OF g r t l] by simp
qed

section \<open>Overlapping tasks and runs\<close>

theorem overlapping_sync_skips_signer_check_witness:
  "\<exists>e. view sample_ext (ct_store (snd (run_sync sample_ext [0, 1, 0, 1, 0, 1]
      [ZoraV2 (signed_as (CHR ''A'') 1), ZoraV2 (signed_as (CHR ''B'') 2)]
      (sample_controller Verify (sample_store True))))) (premint_key sample_ext (ZoraV2 signed_v2)) = Some e \<and>
    en_premint e = ZoraV2 (signed_as (CHR ''B'') 2) \<and>
    md_signer (metadata sample_ext (en_premint e)) \<noteq>
      md_signer (metadata sample_ext (ZoraV2 (signed_as (CHR ''A'') 1)))"
proof -
  let ?c = "sample_controller Verify (sample_store True)"
  let ?p = "ZoraV2 (signed_as (CHR ''A'') 1)" and ?q = "ZoraV2 (signed_as (CHR ''B'') 2)"
  obtain rs where p: "run_rules sample_ext (ct_rules ?c sample_ext) (ct_chains ?c) ?p (storage_clone (ct_store ?c)) None =
    (rs, zora_cache)" "is_accept rs" using signed_as_accepted [of Map.empty "CHR ''A''" 1] by auto
  obtain rs' where q: "run_rules sample_ext (ct_rules ?c sample_ext) zora_cache ?q (storage_clone (ct_store ?c)) None =
    (rs', zora_cache)" "is_accept rs'" using signed_as_accepted [of zora_cache "CHR ''B''" 2] by auto
  have v: "version_of sample_ext ?p < version_of sample_ext ?q"
    by (simp add: version_of_def zora_metadata_def signed_as_def)
  have "md_signer (metadata sample_ext ?q) \<noteq> md_signer (metadata sample_ext ?p)"
    by (simp add: zora_metadata_def signed_as_def contract_config_default_def)
  with overlapping_sync_skips_signer_check [of sample_ext ?c ?p ?q rs zora_cache rs' zora_cache] p q v
    signed_as_key [of "CHR ''A''" 1 "CHR ''B''" 2] signed_as_key [of "CHR ''A''" 1 "CHR ''A''" 0]
  show ?thesis by auto
qed

lemma sample_step:
  "controller_step sample_ext (sample_controller Check s) (snd (loop_turn sample_ext 0
     (InCommand (CcResolveOnchainMint simple_claim)) (sample_controller Check s)))"
  by (rule turn [where y = sample_ext and now = 0 and i = "InCommand (CcResolveOnchainMint simple_claim)"]) simp_all

lemma sample_reachable:
  "reachable sample_ext (sample_controller Check s) (snd (loop_turn sample_ext 0
     (InCommand (CcResolveOnchainMint simple_claim)) (sample_controller Check s)))"
  by (rule more [OF start sample_step])

theorem loop_invariant_witness:
  "good_store sample_ext (ct_store (snd (loop_turn sample_ext 0
     (InCommand (CcResolveOnchainMint simple_claim)) (sample_controller Check (sample_one False)))))"
  using loop_invariant [OF sample_one_good(1) sample_reachable [unfolded sample_controller_def]]
  unfolding sample_controller_def by blast

theorem premints_only_grow_witness:
  "\<exists>e. view sample_ext (ct_store (snd (loop_turn sample_ext 0
     (InCommand (CcResolveOnchainMint simple_claim)) (sample_controller Check (sample_one False)))))
     (simple_key sample_ext) = Some e"
proof -
  let ?c = "sample_controller Check (sample_one False)"
  have "good_store sample_ext (ct_store ?c)" "\<not> st_prune_minted_premints (ct_store ?c)"
    "view sample_ext (ct_store ?c) (simple_key sample_ext) = Some (sample_entry (simple_v 1 ''a'') ''a'')"
    by simp_all
  from premints_only_grow [OF sample_reachable this] show ?thesis by blast
qed

end
