(* ===== verification/P2PProps.thy ===== *)
theory P2PProps
  imports P2P ControllerRuns
begin

text \<open>
  The properties of the swarm controller: every call it makes to the swarm over a whole run, the
  topics it subscribes to, and what one node makes of what another publishes.
\<close>

section \<open>Which calls are made\<close>

text \<open>
  A call, what the swarm reported when it was made, and the commands that were taken up to then:
  dialing leaves room among the mesh peers, closing a connection is for the limit only, a sync
  request passes the query of a command on to a mesh peer, and what is published is what a
  command asked for: the node's announcement, or a premint or claim under the topic of its kind.
\<close>

fun sanctioned ::
  "net \<Rightarrow> ext \<Rightarrow> config \<Rightarrow> swarm_command set \<Rightarrow> swarm_call \<times> swarm_view \<Rightarrow> bool" where
  "sanctioned net x cfg K (Dial opts, v) \<longleftrightarrow> length (sv_mesh_peers v) < unat (cfg_peer_limit cfg)"
| "sanctioned net x cfg K (CloseConnection i, v) \<longleftrightarrow> unat (cfg_peer_limit cfg) < sv_num_peers v"
| "sanctioned net x cfg K (SendRequest p q, v) \<longleftrightarrow> p \<in> set (sv_mesh_peers v) \<and> ScSync q \<in> K"
| "sanctioned net x cfg K (Publish t d, v) \<longleftrightarrow>
     (t = announce_topic \<and> ScAnnounceSelf \<in> K) \<or>
     (\<exists>m. t = msg_topic (md_kind (metadata x m)) \<and> to_json x m = Ok d \<and> ScBroadcast m \<in> K) \<or>
     (\<exists>cl. t = claims_topic (PremintName (cl_kind cl)) \<and> claim_to_json net cl = Ok d \<and>
        ScSendOnchainMintFound cl \<in> K)"
| "sanctioned net x cfg K (RemoveExternalAddress a, v) \<longleftrightarrow> is_relayed a"
| "sanctioned net x cfg K (RelayAddAddress p a, v) \<longleftrightarrow> \<not> cfg_enable_relay_server cfg"
| "sanctioned net x cfg K (RelaySetPeerRtt p i r, v) \<longleftrightarrow> \<not> cfg_enable_relay_server cfg"
| "sanctioned net x cfg K (RelayRandomSelect, v) \<longleftrightarrow> \<not> cfg_enable_relay_server cfg"
| "sanctioned net x cfg K _ \<longleftrightarrow> True"

lemma sanctioned_mono: "sanctioned net x cfg K k \<Longrightarrow> K \<subseteq> L \<Longrightarrow> sanctioned net x cfg L k"
  by (cases "(net, x, cfg, K, k)" rule: sanctioned.cases) auto

definition proceeds ::
  "net \<Rightarrow> ext \<Rightarrow> swarm_command set \<Rightarrow> swarm_controller \<Rightarrow> swarm_controller \<Rightarrow> bool" where
  "proceeds net x K c c' \<longleftrightarrow>
     sc_config c' = sc_config c \<and> sc_premint_names c' = sc_premint_names c \<and>
     (\<exists>ks. sc_calls c' = sc_calls c @ ks \<and> (\<forall>k\<in>set ks. sanctioned net x (sc_config c) K k))"

lemma proceeds_refl [simp]: "proceeds net x K c c"
  by (simp add: proceeds_def)

lemma proceeds_trans: "proceeds net x K c d \<Longrightarrow> proceeds net x K d e \<Longrightarrow> proceeds net x K c e"
  by (auto simp: proceeds_def)

lemma proceeds_call:
  "sanctioned net x (sc_config c) K (k, sc_view c) \<Longrightarrow> proceeds net x K c (snd (do_call net k c))"
  by (simp add: proceeds_def do_call_def)

lemma proceeds_fold: "(\<And>a c. proceeds net x K c (f a c)) \<Longrightarrow> proceeds net x K c (fold f as c)"
  by (induction as arbitrary: c) (auto intro: proceeds_trans)

lemma proceeds_event: "proceeds net x K c (snd (send_event ev c))"
  by (simp add: proceeds_def send_event_def)

lemma proceeds_reply: "proceeds net x K c (send_swarm_reply ch v c)"
  by (simp add: proceeds_def send_swarm_reply_def)

lemma proceeds_dial: "proceeds net x K c (safe_dial net a c)"
  by (simp add: safe_dial_def make_network_state_def proceeds_call)

lemma proceeds_reject: "proceeds net x K c (snd (reject_connection_if_over_max net i c))"
  by (simp add: reject_connection_if_over_max_def make_network_state_def proceeds_call)

lemma proceeds_publish:
  "ScBroadcast m \<in> K \<Longrightarrow> proceeds net x K c (snd (broadcast_message net x m c))"
  "ScSendOnchainMintFound cl \<in> K \<Longrightarrow> proceeds net x K c (snd (broadcast_claim net cl c))"
  "ScAnnounceSelf \<in> K \<Longrightarrow> proceeds net x K c (announce_self net c)"
  by (auto simp: broadcast_message_def broadcast_claim_def announce_self_def Let_def
      intro!: proceeds_call split: sum.splits prod.splits) (metis proceeds_call snd_conv sanctioned.simps(4))+

lemma proceeds_sync: "ScSync q \<in> K \<Longrightarrow> proceeds net x K c (do_sync net pick q c)"
proof (cases "sv_mesh_peers (sc_view c)")
  case (Cons p ps)
  assume "ScSync q \<in> K"
  have "(p # ps) ! (pick mod length (p # ps)) \<in> set (p # ps)" by (intro nth_mem) simp
  with Cons \<open>ScSync q \<in> K\<close> show ?thesis
    by (simp add: do_sync_def make_network_state_def proceeds_call del: set_simps)
qed (simp add: do_sync_def make_network_state_def)

lemma snd_case_result [simp]: "snd (case p of (r, c') \<Rightarrow> (f r, c')) = snd p"
  by (simp split: prod.splits)

lemma proceeds_response: "proceeds net x K c (snd (handle_request_response_event net answer ev c))"
proof (cases ev)
  case (RrRequest i q ch)
  obtain r d where m: "make_sync_response answer i q c = (r, d)" by (cases "make_sync_response answer i q c")
  then have "d = snd (send_event (EvSyncRequest q \<lparr>rp_id = i, rp_open = True\<rparr>) c)"
    by (auto simp: make_sync_response_def make_sync_response_query_def send_event_def
        split: sum.splits option.splits if_splits)
  then have "proceeds net x K c d" by (simp only: proceeds_event)
  moreover have "proceeds net x K d (snd (do_call net (SendResponse ch r) d))" by (simp add: proceeds_call)
  ultimately have "proceeds net x K c (snd (do_call net (SendResponse ch r) d))" by (rule proceeds_trans)
  with RrRequest m show ?thesis by (simp add: case_prod_unfold Let_def)
next
  case (RrResponse i r)
  then show ?thesis by (cases r) (simp_all add: proceeds_event)
qed simp

lemma proceeds_gossip: "proceeds net x K c (snd (handle_gossipsub_event net x ev c))"
proof (cases ev)
  case (GsMessage m)
  then show ?thesis
    using proceeds_event [of net x K c] proceeds_dial [of net x K c]
    by (auto simp: Let_def split: sum.splits)
qed simp

lemma proceeds_swarm_event: "proceeds net x K c (handle_swarm_event net x answer ev c)"
proof (cases ev)
  case (SeListenerClosed as)
  have "proceeds net x K c (fold (\<lambda>a c. if is_relayed a then snd (do_call net (RemoveExternalAddress a) c)
    else c) as c)" by (rule proceeds_fold) (simp add: proceeds_call)
  with SeListenerClosed show ?thesis by simp
next
  case (SeIdentifyReceived p protocols as)
  have "proceeds net x K c (fold (\<lambda>a c. snd (do_call net (RelayAddAddress p a) c)) as c)"
    if "has_relay_manager c"
    using that
  proof (induction as arbitrary: c)
    case (Cons a as)
    let ?d = "snd (do_call net (RelayAddAddress p a) c)"
    have "has_relay_manager ?d" using Cons.prems by (simp add: has_relay_manager_iff do_call_def)
    from Cons.IH [OF this] Cons.prems show ?case
      by (auto simp: has_relay_manager_iff intro!: proceeds_trans [of net x K c ?d] proceeds_call)
  qed simp
  with SeIdentifyReceived show ?thesis by simp
next
  case (SePing p i r)
  then show ?thesis by (cases r) (simp_all add: proceeds_call has_relay_manager_iff)
next
  case (SeKad k)
  then show ?thesis by (cases k) (simp_all add: proceeds_call)
next
  case (SeAutonat a)
  then show ?thesis
    by (cases "(net, a, c)" rule: handle_autonat_event.cases) (simp_all add: proceeds_call has_relay_manager_iff)
qed (simp_all add: proceeds_call proceeds_reject proceeds_gossip proceeds_response)

lemma proceeds_command: "cmd \<in> K \<Longrightarrow> proceeds net x K c (handle_swarm_command net x pick cmd c)"
  by (cases cmd) (simp_all add: proceeds_dial proceeds_reply proceeds_publish proceeds_sync split: sum.split)

fun turn_commands :: "swarm_input \<Rightarrow> swarm_command list" where
  "turn_commands (SiCommand command pick) = [command]"
| "turn_commands _ = []"

lemma proceeds_turn: "set (turn_commands inp) \<subseteq> K \<Longrightarrow> proceeds net x K c (swarm_turn net x inp c)"
proof (cases inp)
  case (SiTick t)
  have "proceeds net x K c (fold (\<lambda>topic c. snd (do_call net (GetProviders (topic_to_record_key topic)) c))
    topics c)" for topics by (rule proceeds_fold) (simp add: proceeds_call)
  with SiTick show ?thesis by (cases t) (simp_all add: proceeds_call)
qed (simp_all add: proceeds_command proceeds_swarm_event)

lemma proceeds_subscribe: "proceeds net x K c (snd (gossip_subscribe net topic c))"
proof -
  let ?c1 = "snd (do_call net (Subscribe topic) c)"
  have "proceeds net x K c ?c1" by (simp add: proceeds_call)
  moreover have "proceeds net x K ?c1 (snd (do_call net (StartProviding (topic_to_record_key topic)) ?c1))"
    by (simp add: proceeds_call)
  ultimately show ?thesis
    using proceeds_trans
    by (fastforce simp: gossip_subscribe_def do_call_def split: sum.splits)
qed

lemma proceeds_listen: "proceeds net x K c (snd (listen_on net text c))"
  by (simp add: listen_on_def proceeds_call split: sum.split)

text \<open>A step that may fail, and what follows when it does not.\<close>

lemma proceeds_try:
  assumes "proceeds net x K c (snd p)"
    and "\<And>d. proceeds net x K c d \<Longrightarrow> proceeds net x K c (snd (f d))"
  shows "proceeds net x K c (snd (case p of (Inl e, d) \<Rightarrow> (Inl e, d) | (Inr _, d) \<Rightarrow> f d))"
  using assms by (auto split: prod.split sum.split)

lemma proceeds_after: "proceeds net x K c d \<Longrightarrow> (\<And>d. proceeds net x K d (f d)) \<Longrightarrow> proceeds net x K c (f d)"
  by (blast intro: proceeds_trans)

lemma proceeds_start: "proceeds net x K c (snd (swarm_start net port ip c))"
  unfolding swarm_start_def
proof (intro proceeds_try)
  fix d assume "proceeds net x K c d"
  then show "proceeds net x K c (snd (Ok (), fold (\<lambda>topic c. snd (gossip_subscribe net topic c))
      (concat (map (\<lambda>name. [msg_topic name, claims_topic name]) (sc_premint_names d))) d))"
    unfolding snd_conv by (rule proceeds_after) (intro proceeds_fold proceeds_subscribe)
qed (auto intro: proceeds_after proceeds_listen proceeds_subscribe)

lemma proceeds_new:
  "sc_config (swarm_new net cfg v) = cfg \<and> sc_premint_names (swarm_new net cfg v) = premint_names cfg \<and>
   (\<forall>k\<in>set (sc_calls (swarm_new net cfg v)). sanctioned net x cfg K k)"
  by (simp add: swarm_new_def do_call_def Let_def split: option.split sum.split)

section \<open>Runs\<close>

text \<open>
  What the task can go through once it has started, and the commands it has taken: the swarm
  changes by itself between the turns of the loop, and the controller may go away.
\<close>

inductive running :: "net \<Rightarrow> ext \<Rightarrow> config \<Rightarrow> swarm_controller \<Rightarrow> swarm_command list \<Rightarrow> bool"
  for net :: net and x :: ext and cfg :: config where
  running_start: "swarm_start net port ip (swarm_new net cfg v) = (Ok (), c) \<Longrightarrow> running net x cfg c []"
| running_turn: "running net x cfg c cmds \<Longrightarrow>
    running net x cfg (swarm_turn net x inp c) (cmds @ turn_commands inp)"
| running_swarm: "running net x cfg c cmds \<Longrightarrow> running net x cfg (c\<lparr>sc_view := v\<rparr>) cmds"
| running_closed: "running net x cfg c cmds \<Longrightarrow> running net x cfg (c\<lparr>sc_events_open := False\<rparr>) cmds"

lemma running_sanctioned:
  "running net x cfg c cmds \<Longrightarrow> sc_config c = cfg \<and> sc_premint_names c = premint_names cfg \<and>
     (\<forall>k\<in>set (sc_calls c). sanctioned net x cfg (set cmds) k)"
proof (induction rule: running.induct)
  case (running_start port ip v c)
  then show ?case
    using proceeds_start [of net x "{}" "swarm_new net cfg v" port ip] proceeds_new [of net cfg v x "{}"]
    by (auto simp: proceeds_def)
next
  case (running_turn c cmds inp)
  then show ?case using proceeds_turn [of inp "set (cmds @ turn_commands inp)" net x c]
    by (auto simp: proceeds_def intro: sanctioned_mono)
qed simp_all

text \<open>
  C13. Over every run of the swarm task, whatever commands, network events and ticks it handles
  and however the swarm changes meanwhile, it dials only while there is room among the mesh
  peers, closes a connection only above the limit of peers, asks only mesh peers for premints
  and only with the queries of the commands it took, publishes nothing but what those commands
  asked for, its announcement and premints and claims under the topic of their kind, and drops
  only relayed external addresses.
\<close>

theorem swarm_calls_sanctioned:
  assumes "running net x cfg c cmds" "k \<in> set (sc_calls c)"
  shows "sanctioned net x cfg (set cmds) k"
  using running_sanctioned [OF assms(1)] assms(2) by blast

section \<open>Subscriptions\<close>

text \<open>A topic was asked for, and announced in the table of providers if that worked.\<close>

definition subscribed :: "net \<Rightarrow> swarm_controller \<Rightarrow> string \<Rightarrow> bool" where
  "subscribed net c t \<longleftrightarrow>
     (\<exists>v. (Subscribe t, v) \<in> set (sc_calls c) \<and>
        (call_result net (Subscribe t) v = Ok () \<longrightarrow>
           (\<exists>v'. (StartProviding (topic_to_record_key t), v') \<in> set (sc_calls c))))"

definition more_calls :: "swarm_controller \<Rightarrow> swarm_controller \<Rightarrow> bool" where
  "more_calls c d \<longleftrightarrow> set (sc_calls c) \<subseteq> set (sc_calls d)"

lemma subscribed_more: "more_calls c d \<Longrightarrow> subscribed net c t \<Longrightarrow> subscribed net d t"
  by (auto simp: more_calls_def subscribed_def)

lemma gossip_subscribe_subscribes:
  "subscribed net (snd (gossip_subscribe net t c)) t \<and> more_calls c (snd (gossip_subscribe net t c))"
  by (auto simp: gossip_subscribe_def subscribed_def more_calls_def do_call_def split: sum.split)

lemma subscribe_all:
  "t \<in> set ts \<or> subscribed net c t \<Longrightarrow>
     subscribed net (fold (\<lambda>topic c. snd (gossip_subscribe net topic c)) ts c) t"
proof (induction ts arbitrary: c)
  case (Cons a ts)
  let ?d = "snd (gossip_subscribe net a c)"
  have "t \<in> set ts \<or> subscribed net ?d t"
    using Cons.prems gossip_subscribe_subscribes [of net a c] subscribed_more [of c ?d] by auto
  from Cons.IH [OF this] show ?case by simp
qed simp

lemma gossip_subscribe_names: "sc_premint_names (snd (gossip_subscribe net t c)) = sc_premint_names c"
  using proceeds_subscribe [where net = net and c = c and topic = t] by (simp add: proceeds_def)

text \<open>
  Once the swarm task is in its loop it has asked for the topic of announcements and for
  both topics of every configured premint type, and announced itself as a provider of each topic
  it could subscribe to; a topic that fails does not keep it from the next.
\<close>

lemma start_subscribes:
  assumes "swarm_start net port ip (swarm_new net cfg v) = (Ok (), c)"
  shows "subscribed net c announce_topic \<and>
    (\<forall>n\<in>set (premint_names cfg). subscribed net c (msg_topic n) \<and> subscribed net c (claims_topic n))"
proof -
  let ?names = "\<lambda>d. concat (map (\<lambda>n. [msg_topic n, claims_topic n]) (sc_premint_names d))"
  from assms obtain c2 c3 u where g: "gossip_subscribe net announce_topic c2 = (Inr u, c3)"
    and c: "c = fold (\<lambda>topic c. snd (gossip_subscribe net topic c)) (?names c3) c3"
    by (auto simp: swarm_start_def split: prod.splits sum.splits)
  have "sc_premint_names c = sc_premint_names c3"
    unfolding c using proceeds_fold [where net = net and x = undefined and as = "?names c3" and c = c3
        and f = "\<lambda>t c. snd (gossip_subscribe net t c)", OF proceeds_subscribe]
    by (simp add: proceeds_def)
  moreover have "sc_premint_names c = premint_names cfg"
    using proceeds_start [of net undefined "{}" "swarm_new net cfg v" port ip]
      proceeds_new [of net cfg v undefined "{}"]
    by (simp add: assms proceeds_def)
  ultimately have n: "sc_premint_names c3 = premint_names cfg" by simp
  have "subscribed net c3 announce_topic"
    using gossip_subscribe_subscribes [of net announce_topic c2] g by simp
  moreover have "subscribed net c t" if "t \<in> set (?names c3) \<or> subscribed net c3 t" for t
    unfolding c by (rule subscribe_all [OF that])
  ultimately show ?thesis by (simp add: n) blast
qed

section \<open>Topics tell their messages apart\<close>

lemma str_debug_inj [simp]: "str_debug s = str_debug t \<longleftrightarrow> s = t"
proof -
  let ?f = "\<lambda>c. if c = CHR 0x22 \<or> c = CHR 0x5C then [CHR 0x5C, c] else [c]"
  have "concat (map ?f s) = concat (map ?f t) \<Longrightarrow> s = t" for s t :: string
  proof (induction s arbitrary: t)
    case Nil
    then show ?case by (cases t) (simp_all split: if_splits)
  next
    case (Cons c cs)
    then obtain d ds where t: "t = d # ds" by (cases t) (auto split: if_splits)
    with Cons.prems have "c = d \<and> concat (map ?f cs) = concat (map ?f ds)" by (auto split: if_splits)
    with Cons.IH t show ?case by blast
  qed
  then show ?thesis by (auto simp: str_debug_def)
qed

lemma claims_topic_inj [simp]: "claims_topic n = claims_topic m \<longleftrightarrow> n = m"
  by (cases n; cases m) (simp add: claims_topic_def name_debug_def)

lemma topics_differ [simp]:
  "msg_topic n \<noteq> announce_topic" "claims_topic n \<noteq> announce_topic" "msg_topic n \<noteq> claims_topic m"
  by (simp_all add: msg_topic_def claims_topic_def announce_topic_def)

lemma claims_topic_known [simp]: "claims_topic n \<in> set (claims_topic_hashes ns) \<longleftrightarrow> n \<in> set ns"
  "msg_topic n \<notin> set (claims_topic_hashes ns)"
  by (auto simp: claims_topic_hashes_def)

section \<open>What one node publishes and another receives\<close>

text \<open>
  \<open>serde_json\<close> writes a Rust \<open>String\<close>, which is UTF-8; the JSON of a claim is parsed back
  and is not that of a premint, which names its variant.
\<close>

definition json_text_ok :: "ext \<Rightarrow> bool" where
  "json_text_ok x \<longleftrightarrow> (\<forall>p s. premint_to_json x p = Ok s \<longrightarrow> valid_utf8 s)"

definition claim_wire_ok :: "net \<Rightarrow> ext \<Rightarrow> bool" where
  "claim_wire_ok net x \<longleftrightarrow>
     (\<forall>cl. \<exists>s. claim_to_json net cl = Ok s \<and> valid_utf8 s \<and> claim_from_json net s = Ok cl \<and>
        (\<exists>e. premint_from_json x s = Err e))"

lemma premint_published:
  assumes "serde_ok x" "json_text_ok x"
  shows "\<exists>d. snd (broadcast_message net x m c) = snd (do_call net (Publish (msg_topic (md_kind (metadata x m))) d) c) \<and>
    from_utf8_lossy d = d \<and> premint_from_json x d = Ok m"
proof -
  obtain d where d: "premint_to_json x m = Ok d" "premint_from_json x d = Ok m"
    using assms(1) by (rule serde_okE [where p = m])
  with assms(2) have "from_utf8_lossy d = d" by (simp add: json_text_ok_def lossy_valid)
  with d show ?thesis by (auto simp: broadcast_message_def to_json_def Let_def)
qed

lemma claim_published:
  assumes "claim_wire_ok net x"
  shows "\<exists>d e. snd (broadcast_claim net cl c) = snd (do_call net (Publish (claims_topic (PremintName (cl_kind cl))) d) c) \<and>
    from_utf8_lossy d = d \<and> claim_from_json net d = Ok cl \<and> premint_from_json x d = Err e"
proof -
  obtain d e where "claim_to_json net cl = Ok d" "valid_utf8 d" "claim_from_json net d = Ok cl"
    "premint_from_json x d = Err e" using assms unfolding claim_wire_ok_def by blast
  then show ?thesis by (auto simp: broadcast_claim_def Let_def lossy_valid)
qed

lemma published_call: "sc_calls (snd (do_call net k c)) = sc_calls c @ [(k', v)] \<longleftrightarrow> k = k' \<and> v = sc_view c"
  by (auto simp: do_call_def)

lemma published_message:
  assumes "serde_ok x" "json_text_ok x"
    and "sc_calls (handle_swarm_command net x pick (ScBroadcast m) a) = sc_calls a @ [(Publish t d, v)]"
  shows "t = msg_topic (md_kind (metadata x m))" "from_utf8_lossy d = d" "premint_from_json x d = Ok m"
  using premint_published [OF assms(1,2), of net m a] assms(3) by (auto simp: published_call)

lemma published_claim:
  assumes "claim_wire_ok net x"
    and "sc_calls (handle_swarm_command net x pick (ScSendOnchainMintFound cl) a) = sc_calls a @ [(Publish t d, v)]"
  shows "t = claims_topic (PremintName (cl_kind cl))" "from_utf8_lossy d = d"
    "claim_from_json net d = Ok cl" "\<exists>e. premint_from_json x d = Err e"
  using claim_published [OF assms(1), of cl a] assms(2) by (auto simp: published_call)

text \<open>
  A premint that one node publishes is handed to the controller of every node that receives
  the message, as it was, whatever premint types the receiver is configured for.
\<close>

lemma published_premint_is_received:
  assumes "serde_ok x" "json_text_ok x" "sc_events_open b"
    and "sc_calls (handle_swarm_command net x pick (ScBroadcast m) a) = sc_calls a @ [(Publish t d, v)]"
  shows "handle_swarm_event net x answer (SeGossipsub (GsMessage \<lparr>gm_topic = t, gm_data = d, gm_propagated_by = peer\<rparr>)) b =
    b\<lparr>sc_events := sc_events b @ [EvPremintReceived m]\<rparr>"
  using published_message [OF assms(1,2,4)] assms(3) by (simp add: send_event_def)

text \<open>
  A claim that one node publishes reaches the controller of a receiving node, with the peer
  that passed it on, exactly if the receiver is configured for the claim's premint type.
\<close>

lemma published_claim_is_received:
  assumes "claim_wire_ok net x" "sc_events_open b"
    and "sc_calls (handle_swarm_command net x pick (ScSendOnchainMintFound cl) a) = sc_calls a @ [(Publish t d, v)]"
  shows "handle_swarm_event net x answer (SeGossipsub (GsMessage \<lparr>gm_topic = t, gm_data = d, gm_propagated_by = peer\<rparr>)) b =
    (if PremintName (cl_kind cl) \<in> set (sc_premint_names b)
     then b\<lparr>sc_events := sc_events b @ [EvMintSeenOnchain \<lparr>pc_claim = cl, pc_from_peer_id = peer\<rparr>]\<rparr>
     else b)"
  using published_claim [OF assms(1,3)] assms(2) by (auto simp: send_event_def)

text \<open>
  A node that listens somewhere announces an address that other nodes dial as this peer: a
  receiver with room among its mesh peers dials the announcing node under its own peer id, and a
  receiver without room does nothing.
\<close>

lemma announcement_is_dialed:
  assumes "sv_listeners (sc_view a) = addr # others"
    and "sc_calls (handle_swarm_command net x pick ScAnnounceSelf a) = sc_calls a @ [(Publish t d, v)]"
    and "let full = addr @ [P2p (sv_local_peer_id (sc_view a))]
         in valid_utf8 (multiaddr_text net full) \<and> parse_multiaddr net (multiaddr_text net full) = Ok full"
  shows "handle_swarm_event net x answer (SeGossipsub (GsMessage \<lparr>gm_topic = t, gm_data = d, gm_propagated_by = peer\<rparr>)) b =
    (if length (sv_mesh_peers (sc_view b)) < unat (cfg_peer_limit (sc_config b))
     then snd (do_call net (Dial (DialPeer (sv_local_peer_id (sc_view a))
       [addr @ [P2p (sv_local_peer_id (sc_view a))]])) b) else b)"
proof -
  let ?full = "addr @ [P2p (sv_local_peer_id (sc_view a))]"
  from assms(2) have "t = announce_topic" "d = multiaddr_text net ?full"
    by (auto simp: announce_self_def assms(1) published_call)
  moreover have "peer_id_of ?full = Some (sv_local_peer_id (sc_view a))" by (simp add: peer_id_of_def)
  ultimately show ?thesis
    using assms(3) by (simp add: lossy_valid safe_dial_def make_network_state_def Let_def)
qed

text \<open>
  C30. The network recognises premint messages by the identifier of the premint alone: the
  message id of a published premint is the digest of its identifier, whoever passes it on. So two
  premints of one identifier, such as a premint and a new version of it, are published as different
  texts with one and the same message id, and the second passes for a message already seen.
\<close>

theorem message_id_ignores_version:
  assumes "serde_ok x" "json_text_ok x"
    and "sc_calls (handle_swarm_command net x pick (ScBroadcast p) a) = sc_calls a @ [(Publish t d, v)]"
    and "sc_calls (handle_swarm_command net x pick' (ScBroadcast q) b) = sc_calls b @ [(Publish t' d', v')]"
  shows "gossipsub_message_id net x \<lparr>gm_topic = t, gm_data = d, gm_propagated_by = s\<rparr> =
      sha256_digest net (md_id (metadata x p)) \<and>
    (md_id (metadata x p) = md_id (metadata x q) \<and> p \<noteq> q \<longrightarrow> d \<noteq> d' \<and>
      gossipsub_message_id net x \<lparr>gm_topic = t, gm_data = d, gm_propagated_by = s\<rparr> =
      gossipsub_message_id net x \<lparr>gm_topic = t', gm_data = d', gm_propagated_by = s'\<rparr>)"
  using published_message [OF assms(1,2,3)] published_message [OF assms(1,2,4)]
  by (auto simp: gossipsub_message_id_def from_json_def)

text \<open>
  C31. All claims that nodes publish have one and the same message id, that of spam: a network
  that drops repeated ids passes on the first claim only.
\<close>

theorem claims_share_message_id:
  assumes "claim_wire_ok net x"
    and "sc_calls (handle_swarm_command net x pick (ScSendOnchainMintFound cl) a) = sc_calls a @ [(Publish t d, v)]"
  shows "gossipsub_message_id net x \<lparr>gm_topic = t, gm_data = d, gm_propagated_by = s\<rparr> = ''likely_spam''"
  using published_claim [OF assms] by (auto simp: gossipsub_message_id_def from_json_def)

end
