(* ===== verification/P2PRuns.thy ===== *)
theory P2PRuns
  imports P2PProps
begin

text \<open>
  The properties of the swarm controller at concrete inputs: a swarm whose calls all succeed,
  that keeps what it is told of addresses and topics.
\<close>

section \<open>A swarm to evaluate\<close>

definition put_claim :: "inclusion_claim \<Rightarrow> nat list" where
  "put_claim c =
     put_str (cl_premint_id c) @ put_word (cl_chain_id c) @ put_word (cl_tx_hash c) @
     put_word (cl_log_index c) @ put_str (cl_kind c)"

definition get_claim :: "nat list \<Rightarrow> inclusion_claim \<times> nat list" where
  "get_claim ns =
     (let (i, ns) = get_str ns; (c, ns) = get_word ns; (h, ns) = get_word ns;
          (l, ns) = get_word ns; (k, ns) = get_str ns
      in (\<lparr>cl_premint_id = i, cl_chain_id = c, cl_tx_hash = h, cl_log_index = l, cl_kind = k\<rparr>, ns))"

lemma get_claim_put [simp]: "get_claim (put_claim c @ r) = (c, r)"
  by (simp add: get_claim_def put_claim_def)

definition sample_full :: multiaddr where
  "sample_full = [OtherProtocol ''/ip4/10.0.0.1/tcp/7778'', P2p ''alice'']"

fun sample_effect :: "swarm_call \<Rightarrow> swarm_view \<Rightarrow> swarm_view" where
  "sample_effect (ListenOn a) v = v\<lparr>sv_listeners := sv_listeners v @ [a]\<rparr>"
| "sample_effect (AddExternalAddress a) v = v\<lparr>sv_external_addresses := sv_external_addresses v @ [a]\<rparr>"
| "sample_effect (Subscribe t) v = v\<lparr>sv_topics := sv_topics v @ [t]\<rparr>"
| "sample_effect _ v = v"

definition sample_net :: net where
  "sample_net =
     \<lparr>parse_multiaddr = (\<lambda>s. if s = ''/ip4/10.0.0.1/tcp/7778/p2p/alice'' then Ok sample_full
         else if starts_with s ''/'' then Ok [OtherProtocol s] else Err ''invalid multiaddr''),
      multiaddr_text = (\<lambda>a. concat (map (\<lambda>p. case p of P2p i \<Rightarrow> ''/p2p/'' @ i
         | P2pCircuit \<Rightarrow> ''/p2p-circuit'' | OtherProtocol s \<Rightarrow> s) a)),
      claim_to_json = (\<lambda>cl. Ok (pack (3 # put_claim cl))),
      claim_from_json = (\<lambda>s. case unpack s of [] \<Rightarrow> Err ''no claim''
         | n # ns \<Rightarrow> if n = 3 then Ok (fst (get_claim ns)) else Err ''no claim''),
      sha256_digest = (\<lambda>s. s),
      hop_protocol = ''/libp2p/circuit/relay/0.2.0/hop'',
      call_result = (\<lambda>k v. Ok ()),
      call_effect = sample_effect\<rparr>"

lemma dec_digits_ascii: "c \<in> set (dec_digits n) \<Longrightarrow> of_char c < (0x80 :: nat)"
  using dec_digits_set [of n] by auto

lemma pack_ascii: "valid_utf8 (pack ns)"
  by (rule valid_utf8_ascii) (auto simp: pack_def dec_digits_ascii)

lemma sample_json_text_ok [simp]: "json_text_ok sample_ext"
proof -
  have "valid_utf8 s" if "sample_to_json p = Ok s" for p s
    using that pack_ascii by (cases p) auto
  then show ?thesis by (simp add: json_text_ok_def sample_ext_def)
qed

lemma sample_claim_wire_ok [simp]: "claim_wire_ok sample_net sample_ext"
  using get_claim_put [where r = "[]"]
  by (simp add: claim_wire_ok_def sample_net_def sample_ext_def pack_ascii sample_from_json_def)

definition sample_view :: "peer_id \<Rightarrow> peer_id list \<Rightarrow> swarm_view" where
  "sample_view pid peers =
     \<lparr>sv_local_peer_id = pid, sv_listeners = [[OtherProtocol ''/ip4/10.0.0.1/tcp/7778'']],
      sv_external_addresses = [], sv_num_peers = length peers, sv_kbuckets = [], sv_provided = [],
      sv_mesh_peers = peers, sv_topics = [], sv_nat_status = NatUnknown\<rparr>"

definition sample_swarm :: "peer_id \<Rightarrow> peer_id list \<Rightarrow> swarm_controller" where
  "sample_swarm pid peers = swarm_new sample_net (config_test_default 0) (sample_view pid peers)"

lemma sample_swarm_sel [simp]:
  "sc_view (sample_swarm pid peers) = sample_view pid peers" "sc_calls (sample_swarm pid peers) = []"
  "sc_events_open (sample_swarm pid peers)" "sc_events (sample_swarm pid peers) = []"
  "sc_config (sample_swarm pid peers) = config_test_default 0"
  "sc_premint_names (sample_swarm pid peers) = premint_names (config_test_default 0)"
  by (simp_all add: sample_swarm_def swarm_new_def config_test_default_def)

lemma sample_sends [simp]:
  "do_call sample_net k c = (Ok (), c\<lparr>sc_view := sample_effect k (sc_view c),
     sc_calls := sc_calls c @ [(k, sc_view c)]\<rparr>)"
  by (simp add: do_call_def sample_net_def)

lemma sample_claim_json: "claim_to_json sample_net cl = Ok (pack (3 # put_claim cl))"
  by (simp add: sample_net_def)

section \<open>Messages\<close>

definition sample_mint_claim :: inclusion_claim where
  "sample_mint_claim =
     \<lparr>cl_premint_id = ''7777777:0x5:3'', cl_chain_id = 7777777, cl_tx_hash = 7, cl_log_index = 0,
      cl_kind = ''zora_premint_v2''\<rparr>"

lemma sample_claim_published: "\<exists>t d.
  sc_calls (handle_swarm_command sample_net sample_ext 0 (ScSendOnchainMintFound cl)
    (sample_swarm ''alice'' peers)) =
  sc_calls (sample_swarm ''alice'' peers) @ [(Publish t d, sample_view ''alice'' peers)]"
  by (simp add: broadcast_claim_def sample_claim_json)

lemma sample_names: "PremintName ''zora_premint_v2'' \<in> set (premint_names (config_test_default 0))"
  by (simp add: premint_names_def config_test_default_def)

theorem message_id_ignores_version_witness:
  "\<exists>t d v t' d' v'.
     sc_calls (handle_swarm_command sample_net sample_ext 0 (ScBroadcast (ZoraV2 sample_v2))
       (sample_swarm ''alice'' [])) = [(Publish t d, v)] \<and>
     sc_calls (handle_swarm_command sample_net sample_ext 0 (ScBroadcast (ZoraV2
       (sample_v2\<lparr>zp_premint := (zp_premint sample_v2)\<lparr>ca_version := 9\<rparr>\<rparr>)))
       (sample_swarm ''alice'' [])) = [(Publish t' d', v')] \<and> d \<noteq> d' \<and>
     gossipsub_message_id sample_net sample_ext \<lparr>gm_topic = t, gm_data = d, gm_propagated_by = ''alice''\<rparr> =
     gossipsub_message_id sample_net sample_ext \<lparr>gm_topic = t', gm_data = d', gm_propagated_by = ''alice''\<rparr>"
proof -
  let ?q = "sample_v2\<lparr>zp_premint := (zp_premint sample_v2)\<lparr>ca_version := 9\<rparr>\<rparr>"
  have "\<exists>t d. sc_calls (handle_swarm_command sample_net sample_ext 0 (ScBroadcast (ZoraV2 p))
      (sample_swarm ''alice'' [])) = sc_calls (sample_swarm ''alice'' []) @ [(Publish t d, sample_view ''alice'' [])]" for p
    by (simp add: broadcast_message_def to_json_def sample_ext_def)
  then obtain t d t' d' where c: "sc_calls (handle_swarm_command sample_net sample_ext 0 (ScBroadcast (ZoraV2 sample_v2))
      (sample_swarm ''alice'' [])) = sc_calls (sample_swarm ''alice'' []) @ [(Publish t d, sample_view ''alice'' [])]"
    and c': "sc_calls (handle_swarm_command sample_net sample_ext 0 (ScBroadcast (ZoraV2 ?q)) (sample_swarm ''alice'' [])) =
      sc_calls (sample_swarm ''alice'' []) @ [(Publish t' d', sample_view ''alice'' [])]" by meson
  have "ca_version (zp_premint ?q) \<noteq> ca_version (zp_premint sample_v2)" by (simp add: sample_v2_def default_defs)
  then have "ZoraV2 sample_v2 \<noteq> ZoraV2 ?q" by (metis premint_types.inject(2))
  moreover have "md_id (metadata sample_ext (ZoraV2 sample_v2)) = md_id (metadata sample_ext (ZoraV2 ?q))"
    by (simp add: zora_metadata_def)
  ultimately show ?thesis
    using message_id_ignores_version [OF sample_serde_ok sample_json_text_ok c c', of "''alice''" "''alice''"] c c'
    by auto
qed

theorem claims_share_message_id_witness:
  "\<exists>t d v. sc_calls (handle_swarm_command sample_net sample_ext 0 (ScSendOnchainMintFound sample_mint_claim)
       (sample_swarm ''alice'' [])) = [(Publish t d, v)] \<and>
     gossipsub_message_id sample_net sample_ext
       \<lparr>gm_topic = t, gm_data = d, gm_propagated_by = ''alice''\<rparr> = ''likely_spam''"
proof -
  obtain t d where c: "sc_calls (handle_swarm_command sample_net sample_ext 0
      (ScSendOnchainMintFound sample_mint_claim) (sample_swarm ''alice'' [])) =
    sc_calls (sample_swarm ''alice'' []) @ [(Publish t d, sample_view ''alice'' [])]"
    using sample_claim_published by blast
  from claims_share_message_id [OF sample_claim_wire_ok c, of "''alice''"] c show ?thesis by auto
qed

section \<open>Runs\<close>

lemma sample_start: "\<exists>c. swarm_start sample_net port ip (swarm_new sample_net cfg v) = (Ok (), c)"
proof -
  have p: "\<exists>a. parse_multiaddr sample_net (''/ip4/'' @ s) = Ok a" for s
    by (simp add: sample_net_def starts_with_def)
  have "fst (listen_on sample_net (''/ip4/'' @ s) c) = Ok ()" for s c
    using p [of s] by (auto simp: listen_on_def swarm_failed_def)
  moreover have "fst (gossip_subscribe sample_net t c) = Ok ()" for t c
    by (simp add: gossip_subscribe_def swarm_failed_def)
  ultimately show ?thesis
    by (auto simp: swarm_start_def split: prod.splits sum.splits dest: arg_cong [where f = fst])
qed

theorem start_subscribes_witness:
  "\<exists>c. swarm_start sample_net 7778 ''127.0.0.1''
      (swarm_new sample_net (config_test_default 0) (sample_view ''alice'' [''bob''])) = (Ok (), c) \<and>
     subscribed sample_net c (claims_topic (PremintName ''zora_premint_v2''))"
  using sample_start start_subscribes sample_names by blast

theorem swarm_calls_sanctioned_witness:
  "\<exists>c v. running sample_net sample_ext (config_test_default 0) c [ScConnectToPeer ''/ip4/9''] \<and>
     (Dial (DialAddress [OtherProtocol ''/ip4/9'']), v) \<in> set (sc_calls c) \<and>
     length (sv_mesh_peers v) < 1000"
proof -
  obtain c where "running sample_net sample_ext (config_test_default 0) c []"
    using sample_start running.running_start by blast
  from running.running_swarm [OF this] have c: "running sample_net sample_ext (config_test_default 0)
    (c\<lparr>sc_view := sample_view ''alice'' []\<rparr>) []" .
  let ?d = "swarm_turn sample_net sample_ext (SiCommand (ScConnectToPeer ''/ip4/9'') 0)
    (c\<lparr>sc_view := sample_view ''alice'' []\<rparr>)"
  have d: "running sample_net sample_ext (config_test_default 0) ?d [ScConnectToPeer ''/ip4/9'']"
    using running.running_turn [OF c, of "SiCommand (ScConnectToPeer ''/ip4/9'') 0"] by simp
  have "parse_multiaddr sample_net ''/ip4/9'' = Ok [OtherProtocol ''/ip4/9'']"
    by (simp add: sample_net_def starts_with_def)
  moreover have "sc_config c = config_test_default 0" using running_sanctioned [OF c] by simp
  ultimately have k: "(Dial (DialAddress [OtherProtocol ''/ip4/9'']), sample_view ''alice'' []) \<in> set (sc_calls ?d)"
    by (simp add: safe_dial_def make_network_state_def peer_id_of_def sample_view_def config_test_default_def)
  from swarm_calls_sanctioned [OF d k] d k show ?thesis by (auto simp: config_test_default_def)
qed

end
