(* ===== verification/Api.thy ===== *)
theory Api
  imports P2P StoreProps
begin

text \<open>
  What drives a node from outside: the controller's interface (\<open>src/controller.rs\<close>), the
  HTTP API with its administration routes (\<open>src/api\<close>), and the lines typed at the console
  (\<open>src/stdin.rs\<close>). A handler sends a command to the controller and waits for the reply: the
  model takes the outcome of sending and the reply, which is missing if the controller dropped
  the channel. HTTP itself, and the JSON of responses, are third party code.
\<close>

section \<open>The interface of the controller\<close>

text \<open>
  Sending fails when the controller is gone. A reply on a oneshot channel arrives unless the
  sender was dropped.
\<close>

type_synonym sent = "(unit, report) result"

definition recv_failed :: report where
  "recv_failed = Eyre ''channel closed''"

definition get_all_premints ::
  "sent \<Rightarrow> (premint_types list, report) result option \<Rightarrow> (premint_types list, report) result" where
  "get_all_premints s answer =
     (case s of
        Inl e \<Rightarrow> Err e
      | Inr _ \<Rightarrow> (case answer of None \<Rightarrow> Err recv_failed | Some r \<Rightarrow> r))"

definition get_node_info :: "sent \<Rightarrow> mintpool_node_info option \<Rightarrow> (mintpool_node_info, report) result" where
  "get_node_info s answer =
     (case s of
        Inl e \<Rightarrow> Err e
      | Inr _ \<Rightarrow> (case answer of None \<Rightarrow> Err recv_failed | Some r \<Rightarrow> Ok r))"

definition get_network_state :: "sent \<Rightarrow> network_state option \<Rightarrow> (network_state, report) result" where
  "get_network_state s answer =
     (case s of
        Inl e \<Rightarrow> Err e
      | Inr _ \<Rightarrow> (case answer of None \<Rightarrow> Err recv_failed | Some r \<Rightarrow> Ok r))"

section \<open>Responses\<close>

type_synonym status_code = nat

abbreviation OK_STATUS :: status_code where "OK_STATUS \<equiv> 200"
abbreviation BAD_REQUEST :: status_code where "BAD_REQUEST \<equiv> 400"
abbreviation UNAUTHORIZED :: status_code where "UNAUTHORIZED \<equiv> 401"
abbreviation NOT_FOUND :: status_code where "NOT_FOUND \<equiv> 404"
abbreviation INTERNAL_SERVER_ERROR :: status_code where "INTERNAL_SERVER_ERROR \<equiv> 500"

datatype api_response =
    RulesError results
  | ErrorMessage string
  | Success string

text \<open>The state of the handlers; the pool is a handle on the database of the controller.\<close>

record app_state =
  as_db :: pool
  as_api_secret :: "string option"

text \<open>\<open>AppState::from\<close> asks the controller for the pool and panics if it does not get it.\<close>

definition app_state_from ::
  "config \<Rightarrow> sent \<Rightarrow> (pool, report) result option \<Rightarrow> app_state outcome" where
  "app_state_from cfg s answer =
     (case s of
        Inl e \<Rightarrow> Panic
      | Inr _ \<Rightarrow>
          (case answer of
             None \<Rightarrow> Panic
           | Some (Inl e) \<Rightarrow> Panic
           | Some (Inr db) \<Rightarrow> Returns \<lparr>as_db = db, as_api_secret = cfg_admin_api_secret cfg\<rparr>))"

section \<open>Reading premints\<close>

definition api_list_all ::
  "ext \<Rightarrow> app_state \<Rightarrow> query_options \<Rightarrow> (premint_types list, status_code \<times> string) result" where
  "api_list_all x state params =
     (case list_all_with_options x (as_db state) params of
        Inr premints \<Rightarrow> Ok premints
      | Inl e \<Rightarrow> Err (INTERNAL_SERVER_ERROR, ''Failed to list all premints''))"

definition api_get_one ::
  "ext \<Rightarrow> app_state \<Rightarrow> query_options \<Rightarrow> (premint_types, status_code \<times> string) result" where
  "api_get_one x state params =
     (case get_one x (as_db state) params of
        Inr premint \<Rightarrow> Ok premint
      | Inl e \<Rightarrow> Err (INTERNAL_SERVER_ERROR, ''Failed to get one premint''))"

definition get_by_id_and_kind ::
  "ext \<Rightarrow> app_state \<Rightarrow> string \<Rightarrow> string \<Rightarrow> (premint_types, status_code \<times> string) result" where
  "get_by_id_and_kind x state kind i =
     (case get_for_id_and_kind x (as_db state) i (PremintName kind) of
        Inr premint \<Rightarrow> Ok premint
      | Inl e \<Rightarrow> Err (NOT_FOUND, ''Failed to get premint''))"

definition health :: string where
  "health = ''OK''"

section \<open>Submitting premints\<close>

text \<open>
  The command that is sent, and the response for what came back: the value of a report that
  carries the results of the rules is those results.
\<close>

definition submit_command :: "premint_types \<Rightarrow> reply_channel \<Rightarrow> controller_command" where
  "submit_command premint ch = CcBroadcast premint ch"

definition submit_premint ::
  "ext \<Rightarrow> sent \<Rightarrow> (unit, report) result option \<Rightarrow> status_code \<times> api_response" where
  "submit_premint x s answer =
     (case s of
        Inr _ \<Rightarrow>
          (case answer of
             Some (Inr _) \<Rightarrow> (OK_STATUS, Success ''Premint submitted'')
           | Some (Inl e) \<Rightarrow>
               (case downcast_results e of
                  Some res \<Rightarrow> (BAD_REQUEST, RulesError (map (rule_result_clone x) res))
                | None \<Rightarrow> (BAD_REQUEST, ErrorMessage (report_text x e)))
           | None \<Rightarrow> (INTERNAL_SERVER_ERROR, ErrorMessage (report_text x recv_failed)))
      | Inl e \<Rightarrow> (INTERNAL_SERVER_ERROR, ErrorMessage (report_text x e)))"

section \<open>The summary\<close>

text \<open>\<open>SELECT COUNT(*) FROM premints [WHERE \<dots>]\<close>\<close>

definition sql_count :: "pool \<Rightarrow> (row \<Rightarrow> bool) \<Rightarrow> (int, sqlx_error) result" where
  "sql_count db P =
     (case db_fault db of
        Some e \<Rightarrow> Err (SqlxOther e) | None \<Rightarrow> Ok (int (length (filter P (db_rows db)))))"

text \<open>The third party functions and the build information: \<open>built\<close>, hexadecimal, headers.\<close>

record web =
  git_commit_hash_short :: "string option"
  pkg_version :: string
  encode_hex :: "string \<Rightarrow> string"
  header_to_str :: "string \<Rightarrow> string option"

record node_info_response =
  nr_local_peer_id :: string
  nr_num_peers :: u64
  nr_dht_peers :: "string list list"
  nr_gossipsub_peers :: "string list"
  nr_external_addresses :: "string list"
  nr_providing :: "string list"
  nr_listeners :: "string list"
  nr_nat_status :: string

text \<open>Bytes that are UTF-8 are shown as text, others in hexadecimal.\<close>

definition string_or_hex :: "web \<Rightarrow> string \<Rightarrow> string" where
  "string_or_hex w bytes =
     (case from_utf8 bytes of Some value \<Rightarrow> value | None \<Rightarrow> encode_hex w bytes)"

definition node_info_response_from :: "web \<Rightarrow> net \<Rightarrow> network_state \<Rightarrow> node_info_response" where
  "node_info_response_from w net state =
     \<lparr>nr_local_peer_id = nst_local_peer_id state,
      nr_num_peers = of_nat (nst_num_peers state),
      nr_dht_peers = map (map (multiaddr_text net)) (nst_dht_peers state),
      nr_gossipsub_peers = nst_gossipsub_peers state,
      nr_external_addresses = map (multiaddr_text net) (nst_external_addresses state),
      nr_providing = map (string_or_hex w) (take 100 (nst_providing state)),
      nr_listeners = map (multiaddr_text net) (nst_listeners state),
      nr_nat_status =
        (case nst_nat_status state of
           NatPrivate \<Rightarrow> ''Private'' | NatUnknown \<Rightarrow> ''Unknown'' | NatPublic _ \<Rightarrow> ''Public'')\<rparr>"

record summary_response =
  sr_commit_sha :: string
  sr_pkg_version :: string
  sr_active_premint_count :: u64
  sr_total_premint_count :: u64
  sr_node_info :: node_info_response

definition summary ::
  "web \<Rightarrow> net \<Rightarrow> app_state \<Rightarrow> sent \<Rightarrow> network_state option \<Rightarrow> (summary_response, status_code) result" where
  "summary w net state s answer =
     (case s of
        Inl e \<Rightarrow> Err INTERNAL_SERVER_ERROR
      | Inr _ \<Rightarrow>
          (case answer of
             None \<Rightarrow> Err INTERNAL_SERVER_ERROR
           | Some info \<Rightarrow>
               (case sql_count (as_db state) (\<lambda>_. True) of
                  Inl e \<Rightarrow> Err INTERNAL_SERVER_ERROR
                | Inr total_count \<Rightarrow>
                    (case sql_count (as_db state) (\<lambda>r. \<not> r_seen_on_chain r) of
                       Inl e \<Rightarrow> Err INTERNAL_SERVER_ERROR
                     | Inr active_count \<Rightarrow>
                         Ok \<lparr>sr_commit_sha = (case git_commit_hash_short w of None \<Rightarrow> [] | Some h \<Rightarrow> h),
                             sr_pkg_version = pkg_version w,
                             sr_active_premint_count = of_int active_count,
                             sr_total_premint_count = of_int total_count,
                             sr_node_info = node_info_response_from w net info\<rparr>))))"

section \<open>Administration\<close>

text \<open>
  The middleware either answers itself or passes the request on; the header is the bytes of the
  first \<open>Authorization\<close> header.
\<close>

datatype 'a passed = Answered status_code string | Next 'a

definition auth_middleware :: "web \<Rightarrow> app_state \<Rightarrow> string option \<Rightarrow> 'a \<Rightarrow> 'a passed" where
  "auth_middleware w state authorization next_handler =
     (case as_api_secret state of
        None \<Rightarrow> Answered UNAUTHORIZED ''Unauthorized''
      | Some secret \<Rightarrow>
          (case authorization of
             Some auth \<Rightarrow>
               (if (case header_to_str w auth of None \<Rightarrow> [] | Some s \<Rightarrow> s) \<noteq> secret
                then Answered UNAUTHORIZED ''Unauthorized. Invalid secret''
                else Next next_handler)
           | None \<Rightarrow> Answered UNAUTHORIZED ''Unauthorized. Set Header Authorization: <secret>''))"

definition add_peer_command :: "string \<Rightarrow> controller_command" where
  "add_peer_command peer = CcConnectToPeer peer"

definition add_peer :: "ext \<Rightarrow> sent \<Rightarrow> status_code \<times> api_response" where
  "add_peer x s =
     (case s of
        Inr _ \<Rightarrow> (OK_STATUS, Success ''Peer added'')
      | Inl e \<Rightarrow> (INTERNAL_SERVER_ERROR, ErrorMessage (report_text x e)))"

definition admin_sync :: "sent \<Rightarrow> status_code" where
  "admin_sync s = (case s of Inr _ \<Rightarrow> OK_STATUS | Inl _ \<Rightarrow> INTERNAL_SERVER_ERROR)"

section \<open>Routes\<close>

text \<open>The handlers of the library, and those a program that uses it adds.\<close>

datatype http_method = GET | POST

datatype endpoint =
    RtHealth | RtListAll | RtGetOne | RtGetByIdAndKind | RtSubmitPremint | RtSummary
  | RtAddPeer | RtSync | RtCustom string

definition router_with_defaults :: "(string \<times> http_method \<times> endpoint) list" where
  "router_with_defaults =
     [(''/health'', GET, RtHealth),
      (''/list-all'', GET, RtListAll),
      (''/get-one'', GET, RtGetOne),
      (''/get-one/:kind/:id'', GET, RtGetByIdAndKind),
      (''/submit-premint'', POST, RtSubmitPremint),
      (''/summary'', GET, RtSummary)]"

definition admin_routes :: "(string \<times> http_method \<times> endpoint) list" where
  "admin_routes =
     [(''/admin/add-peer'', POST, RtAddPeer),
      (''/admin/submit-premint'', POST, RtSubmitPremint),
      (''/admin/sync'', POST, RtSync)]"

text \<open>
  Which endpoint a request to a registered path reaches: the routes of \<open>with_admin_routes\<close> are
  behind the middleware.
\<close>

definition find_route :: "(string \<times> http_method \<times> endpoint) list \<Rightarrow> string \<Rightarrow> http_method \<Rightarrow> endpoint option" where
  "find_route routes path m =
     map_option (\<lambda>(_, _, e). e) (List.find (\<lambda>(p, m', _). p = path \<and> m' = m) routes)"

definition with_admin_routes ::
  "web \<Rightarrow> app_state \<Rightarrow> (string \<times> http_method \<times> endpoint) list \<Rightarrow> string \<Rightarrow> http_method \<Rightarrow>
     string option \<Rightarrow> endpoint passed option" where
  "with_admin_routes w state router path m authorization =
     (case find_route router path m of
        Some e \<Rightarrow> Some (Next e)
      | None \<Rightarrow>
          (case find_route admin_routes path m of
             Some e \<Rightarrow> Some (auth_middleware w state authorization e)
           | None \<Rightarrow> None))"

section \<open>The console\<close>

text \<open>
  What a line makes the node send to the controller: at most one command, whose reply, if it has
  one, is shown.
\<close>

definition process_stdin_line :: "ext \<Rightarrow> string \<Rightarrow> reply_channel \<Rightarrow> controller_command option" where
  "process_stdin_line x line ch =
     (if line = [] then None
      else if starts_with line ''/connect '' then Some (CcConnectToPeer (drop 9 line))
      else if starts_with line ''/sync'' then Some CcSync
      else if starts_with line ''/ip4'' then Some (CcConnectToPeer line)
      else if starts_with line ''/peers'' then Some (CcReturnNetworkState ch)
      else if starts_with line ''/node'' then Some (CcReturnNodeInfo ch)
      else if starts_with line ''/announce'' then Some CcAnnounceSelf
      else if starts_with line ''/list'' then Some (CcQuery (ListAll ch))
      else (case from_json x line of
              Inr premint \<Rightarrow> Some (CcBroadcast premint ch)
            | Inl e \<Rightarrow> None))"

text \<open>
  Waiting for lines: the loop selects on one branch whose pattern is a line, so at the end of the
  input, or when it cannot be read, no branch is left and the \<open>select!\<close> without \<open>else\<close> panics.
  What the reads gave so far, with the channels for the replies, becomes the commands sent; the
  outcome is that of the loop when it has ended.
\<close>

fun watch_stdin ::
  "ext \<Rightarrow> ((string option, string) result \<times> reply_channel) list \<Rightarrow> controller_command list \<times> unit outcome option" where
  "watch_stdin x [] = ([], None)"
| "watch_stdin x ((Inr (Some line), ch) # reads) =
     (let (commands, end_of) = watch_stdin x reads
      in (case process_stdin_line x line ch of None \<Rightarrow> commands | Some c \<Rightarrow> c # commands, end_of))"
| "watch_stdin x ((Inr None, ch) # reads) = ([], Some Panic)"
| "watch_stdin x ((Inl e, ch) # reads) = ([], Some Panic)"

text \<open>The loop never ends otherwise than by that panic, and it does at the first read without a line.\<close>

lemma watch_stdin_ends:
  "snd (watch_stdin x reads) = (if \<exists>r\<in>set reads. \<forall>line. fst r \<noteq> Ok (Some line) then Some Panic else None)"
  by (induction x reads rule: watch_stdin.induct) (auto simp: split_beta)

lemma watch_stdin_sends:
  "fst (watch_stdin x (map (\<lambda>(line, ch). (Ok (Some line), ch)) lines @ rest)) =
     List.map_filter (\<lambda>(line, ch). process_stdin_line x line ch) lines @ fst (watch_stdin x rest)"
  by (induction lines) (auto simp: map_filter_simps split_beta split: option.splits)

end
