(* ===== verification/Run.thy ===== *)
theory Run
  imports Api
begin

text \<open>
  How a node starts (\<open>src/run.rs\<close>, \<open>src/main.rs\<close>): opening the store, the key of the node, the
  tasks of the swarm and the controller, the boot nodes it connects to, and the watchers of the
  chains. The database engine, hexadecimal decoding and the key library are parameters.
\<close>

section \<open>Opening the store\<close>

text \<open>Connecting to a database by its url, and running the migrations on it.\<close>

record engine =
  db_connect :: "string \<Rightarrow> (pool, string) result"
  db_migrate :: "pool \<Rightarrow> (pool, string) result"

definition expect :: "('a, 'e) result \<Rightarrow> 'a outcome" where
  "expect r = (case r of Inl _ \<Rightarrow> Panic | Inr v \<Rightarrow> Returns v)"

definition init_db :: "engine \<Rightarrow> config \<Rightarrow> pool outcome" where
  "init_db en cfg =
     (if cfg_persist_state cfg then
        (case cfg_db_url cfg of
           None \<Rightarrow> Panic
         | Some db_url \<Rightarrow> expect (db_connect en db_url))
      else expect (db_connect en ''sqlite::memory:''))"

definition storage_new :: "engine \<Rightarrow> config \<Rightarrow> premint_storage outcome" where
  "storage_new en cfg =
     (case init_db en cfg of
        Panic \<Rightarrow> Panic
      | Returns db \<Rightarrow>
          (case db_migrate en db of
             Inl e \<Rightarrow> Panic
           | Inr db' \<Rightarrow>
               Returns \<lparr>st_db = db', st_prune_minted_premints = cfg_prune_minted_premints cfg\<rparr>))"

section \<open>The key of the node\<close>

record keys =
  hex_decode :: "string \<Rightarrow> (bytes, string) result"
  ed25519_from_bytes :: "bytes \<Rightarrow> (peer_id, string) result"

text \<open>The 32 bytes a secret stands for: padded with zeros, or cut off.\<close>

definition secret_bytes :: "bytes \<Rightarrow> bytes" where
  "secret_bytes s =
     (let n = length s
      in if n < 32 then s @ replicate (32 - n) 0
         else if n > 32 then take 32 s
         else s)"

definition make_keypair :: "keys \<Rightarrow> config \<Rightarrow> (peer_id, report) result" where
  "make_keypair ks cfg =
     (case hex_decode ks (cfg_secret cfg) of
        Inl e \<Rightarrow> Err (Eyre e)
      | Inr s \<Rightarrow> map_err Eyre (ed25519_from_bytes ks (secret_bytes s)))"

section \<open>Boot nodes\<close>

text \<open>What is sent to the controller, which takes commands as long as its task runs.\<close>

definition connect_to_boot_nodes :: "string list \<Rightarrow> controller_command list" where
  "connect_to_boot_nodes boot_nodes = map CcConnectToPeer boot_nodes @ [CcAnnounceSelf]"

definition boot_commands :: "ext \<Rightarrow> rpc_cache \<Rightarrow> config \<Rightarrow> controller_command list \<times> rpc_cache" where
  "boot_commands x cache cfg =
     (case cfg_boot_nodes cfg of
        BootChain \<Rightarrow>
          (case get_contract_boot_nodes x cache of
             (Inr boot_nodes, cache') \<Rightarrow> (connect_to_boot_nodes boot_nodes, cache')
           | (Inl err, cache') \<Rightarrow> ([], cache'))
      | BootCustom boot_nodes \<Rightarrow> (connect_to_boot_nodes boot_nodes, cache)
      | BootNone \<Rightarrow> ([], cache))"

section \<open>Starting the services\<close>

text \<open>
  The controller and the swarm task as they are spawned, and the commands that follow. The
  swarm is the one the library builds for the key. The swarm task panics if it cannot start to
  listen; the node goes on without it.
\<close>

record started_node =
  sn_controller :: controller
  sn_swarm :: swarm_controller
  sn_swarm_started :: bool
  sn_commands :: "controller_command list"

definition start_p2p_services ::
  "ext \<Rightarrow> engine \<Rightarrow> keys \<Rightarrow> net \<Rightarrow> (peer_id \<Rightarrow> swarm_view) \<Rightarrow>
     (ext \<Rightarrow> premint_storage rules_engine) \<Rightarrow> config \<Rightarrow> started_node outcome" where
  "start_p2p_services x en ks net swarm_of rules cfg =
     (case expect (make_keypair ks cfg) of
        Panic \<Rightarrow> Panic
      | Returns key \<Rightarrow>
          (case storage_new en cfg of
             Panic \<Rightarrow> Panic
           | Returns s \<Rightarrow>
               (let (started, swarm) = swarm_start net (cfg_peer_port cfg) (initial_network_ip cfg)
                      (swarm_new net cfg (swarm_of key));
                    (commands, cache) = boot_commands x Map.empty cfg
                in Returns \<lparr>sn_controller = (controller_new cfg s rules)\<lparr>ct_chains := cache\<rparr>,
                     sn_swarm = swarm, sn_swarm_started = is_ok started, sn_commands = commands\<rparr>)))"

section \<open>Watching the chains\<close>

text \<open>
  The chains for which a watcher is spawned, with the url it was given. A chain without a url
  panics.
\<close>

fun watch_each :: "ext \<Rightarrow> u64 list \<Rightarrow> (u64 \<times> string) list outcome" where
  "watch_each x [] = Returns []"
| "watch_each x (chain_id # more_chains) =
     (case get_rpc_url x chain_id of
        Inl e \<Rightarrow> Panic
      | Inr rpc_url \<Rightarrow>
          (case watch_each x more_chains of
             Panic \<Rightarrow> Panic
           | Returns watched \<Rightarrow> Returns ((chain_id, rpc_url) # watched)))"

definition start_watch_chain :: "ext \<Rightarrow> config \<Rightarrow> (u64 \<times> string) list outcome" where
  "start_watch_chain x cfg =
     (if cfg_chain_inclusion_mode cfg = Check then
        (case supported_chains cfg of
           Panic \<Rightarrow> Panic
         | Returns chain_ids \<Rightarrow> watch_each x chain_ids)
      else Returns [])"

section \<open>The program\<close>

text \<open>
  Starting the API: the state of its handlers, and the address it listens at; \<open>bind\<close> is the
  operating system's answer.
\<close>

definition start_api ::
  "(string \<Rightarrow> (unit, string) result) \<Rightarrow> config \<Rightarrow> sent \<Rightarrow> (pool, report) result option \<Rightarrow>
     (app_state \<times> string) outcome" where
  "start_api bind cfg s answer =
     (case app_state_from cfg s answer of
        Panic \<Rightarrow> Panic
      | Returns app_state \<Rightarrow>
          (let addr = initial_network_ip cfg @ '':'' @ show_u64 (cfg_api_port cfg)
           in case bind addr of Inl e \<Rightarrow> Panic | Inr _ \<Rightarrow> Returns (app_state, addr)))"

text \<open>
  \<open>main\<close> up to waiting for a signal: configuration, default rules, services, API, watchers. The
  pool of the API is the controller's. In the model, the controller has not yet run.
\<close>

definition main_rules :: "config \<Rightarrow> ext \<Rightarrow> premint_storage rules_engine" where
  "main_rules cfg x = add_default_rules x (storage_reader x) (rules_engine_new cfg)"

definition node_main ::
  "ext \<Rightarrow> engine \<Rightarrow> keys \<Rightarrow> net \<Rightarrow> (peer_id \<Rightarrow> swarm_view) \<Rightarrow>
     (string \<Rightarrow> (unit, string) result) \<Rightarrow>
     (started_node \<times> app_state \<times> (u64 \<times> string) list) outcome" where
  "node_main x en ks net swarm_of bind =
     (case init x of
        Panic \<Rightarrow> Panic
      | Returns cfg \<Rightarrow>
          (case start_p2p_services x en ks net swarm_of (main_rules cfg) cfg of
             Panic \<Rightarrow> Panic
           | Returns nd \<Rightarrow>
               (case start_api bind cfg (Ok ()) (Some (Ok (st_db (ct_store (sn_controller nd))))) of
                  Panic \<Rightarrow> Panic
                | Returns (state, addr) \<Rightarrow>
                    (case start_watch_chain x cfg of
                       Panic \<Rightarrow> Panic
                     | Returns watched \<Rightarrow> Returns (nd, state, watched)))))"

text \<open>
  What \<open>main\<close> waits for once the node runs: the lines of an operator, or the first of two signals.
  Installing the handlers can fail.
\<close>

datatype shutdown = SigInt | SigTerm

definition main_wait ::
  "ext \<Rightarrow> config \<Rightarrow> ((string option, string) result \<times> reply_channel) list \<Rightarrow> (unit, string) result \<Rightarrow>
     shutdown option \<Rightarrow> (unit, report) result outcome option" where
  "main_wait x cfg reads handlers received =
     (if cfg_interactive cfg then
        (case snd (watch_stdin x reads) of
           None \<Rightarrow> None
         | Some Panic \<Rightarrow> Some Panic
         | Some (Returns u) \<Rightarrow> Some (Returns (Ok ())))
      else
        (case handlers of
           Inl e \<Rightarrow> Some (Returns (Err (Eyre e)))
         | Inr _ \<Rightarrow>
             (case received of None \<Rightarrow> None | Some _ \<Rightarrow> Some (Returns (Ok ())))))"

text \<open>An interactive node only ever ends by a panic.\<close>

lemma interactive_node_panics:
  "cfg_interactive cfg \<Longrightarrow> main_wait x cfg reads handlers received = Some r \<Longrightarrow> r = Panic"
  by (auto simp: main_wait_def watch_stdin_ends split: if_splits)

end
