(* ===== verification/System.thy ===== *)
theory System
  imports P2PRuns Run
begin

text \<open>
  A running node: the tasks of the controller and of the swarm, joined by the two channels that
  \<open>start_p2p_services\<close> makes (\<open>src/run.rs\<close>, with the loops of \<open>src/controller.rs\<close> and
  \<open>src/p2p.rs\<close>). The channels are bounded: a task that sends to a full channel waits until the
  other one has taken a message, and meanwhile handles nothing else. The swarm task also waits
  for the controller's answer when a peer asks it for premints.
\<close>

section \<open>The state of a node\<close>

definition channel_capacity :: nat where
  "channel_capacity = 1024"

text \<open>
  What the swarm task is doing: its loop, sending an event to the controller, waiting for the
  reply to a sync request it has sent, or having got the reply. The input is the one it is
  handling, which it finishes afterwards.
\<close>

datatype swarm_phase =
    Looping
  | Sending swarm_input p2p_event
  | Asking swarm_input
  | Answered swarm_input controller_answer

text \<open>
  The contents of the channels, what the controller's turn has still to send, and, for the
  record, what each side has received so far.
\<close>

record system =
  sy_controller :: controller
  sy_outgoing :: "swarm_command list"
  sy_panicked :: bool
  sy_swarm :: swarm_controller
  sy_phase :: swarm_phase
  sy_commands :: "swarm_command list"
  sy_events :: "p2p_event list"
  sy_taken :: "swarm_command list"
  sy_heard :: "p2p_event list"

definition system_start :: "controller \<Rightarrow> swarm_controller \<Rightarrow> system" where
  "system_start c sw =
     \<lparr>sy_controller = c, sy_outgoing = [], sy_panicked = False, sy_swarm = sw, sy_phase = Looping,
      sy_commands = [], sy_events = [], sy_taken = [], sy_heard = []\<rparr>"

section \<open>The task of the controller\<close>

fun controller_can_take :: "controller_input \<Rightarrow> system \<Rightarrow> bool" where
  "controller_can_take (InEvent event schedule) s \<longleftrightarrow> sy_events s \<noteq> [] \<and> hd (sy_events s) = event"
| "controller_can_take _ s \<longleftrightarrow> True"

fun controller_take :: "controller_input \<Rightarrow> system \<Rightarrow> system" where
  "controller_take (InEvent event schedule) s =
     s\<lparr>sy_events := tl (sy_events s), sy_heard := sy_heard s @ [event]\<rparr>"
| "controller_take _ s = s"

text \<open>What a turn has sent and replied, and what a reply means for the swarm task.\<close>

definition new_commands :: "controller \<Rightarrow> controller \<Rightarrow> swarm_command list" where
  "new_commands c c' = drop (length (ct_swarm c)) (ct_swarm c')"

definition new_answer :: "controller \<Rightarrow> controller \<Rightarrow> controller_answer" where
  "new_answer c c' =
     (case drop (length (ct_replies c)) (ct_replies c') of
        [(reply_id, ReplyPremints r)] \<Rightarrow> Some r
      | _ \<Rightarrow> None)"

fun reply_to :: "controller_input \<Rightarrow> controller_answer \<Rightarrow> swarm_phase \<Rightarrow> swarm_phase" where
  "reply_to (InEvent (EvSyncRequest query channel) schedule) answer (Asking inp) = Answered inp answer"
| "reply_to _ answer phase = phase"

text \<open>When the controller's task ends, its end of every channel is dropped.\<close>

fun drop_reply :: "swarm_phase \<Rightarrow> swarm_phase" where
  "drop_reply (Asking inp) = Answered inp None"
| "drop_reply phase = phase"

section \<open>The task of the swarm\<close>

fun swarm_can_take :: "swarm_input \<Rightarrow> system \<Rightarrow> bool" where
  "swarm_can_take (SiCommand command pick) s \<longleftrightarrow> sy_commands s \<noteq> [] \<and> hd (sy_commands s) = command"
| "swarm_can_take (SiEvent event answer) s \<longleftrightarrow> answer = None"
| "swarm_can_take (SiTick tick) s \<longleftrightarrow> True"

fun swarm_take :: "swarm_input \<Rightarrow> system \<Rightarrow> system" where
  "swarm_take (SiCommand command pick) s =
     s\<lparr>sy_commands := tl (sy_commands s), sy_taken := sy_taken s @ [command]\<rparr>"
| "swarm_take _ s = s"

fun with_answer :: "controller_answer \<Rightarrow> swarm_input \<Rightarrow> swarm_input" where
  "with_answer answer (SiEvent event _) = SiEvent event answer"
| "with_answer answer inp = inp"

fun is_sync_request :: "p2p_event \<Rightarrow> bool" where
  "is_sync_request (EvSyncRequest query channel) = True"
| "is_sync_request _ = False"

text \<open>The swarm task as it finds the channel, and the events its turn sends there.\<close>

definition swarm_now :: "system \<Rightarrow> swarm_controller" where
  "swarm_now s = (sy_swarm s)\<lparr>sc_events_open := \<not> sy_panicked s\<rparr>"

definition events_sent :: "net \<Rightarrow> ext \<Rightarrow> swarm_input \<Rightarrow> swarm_controller \<Rightarrow> p2p_event list" where
  "events_sent net x inp c = drop (length (sc_events c)) (sc_events (swarm_turn net x inp c))"

section \<open>Steps of the node\<close>

text \<open>
  The world a turn of the controller sees is given anew each time; the swarm changes by itself
  while its task is in its loop. A panic ends the task of the controller.
\<close>

inductive system_step :: "net \<Rightarrow> ext \<Rightarrow> system \<Rightarrow> system \<Rightarrow> bool" for net :: net and x :: ext where
  controller_turns:
    "\<not> sy_panicked s \<Longrightarrow> sy_outgoing s = [] \<Longrightarrow> controller_can_take i s \<Longrightarrow>
     same_text x y \<Longrightarrow> connect_ok y \<Longrightarrow> loop_turn y now i (sy_controller s) = (Returns (), c) \<Longrightarrow>
     system_step net x s ((controller_take i s)\<lparr>sy_controller := c,
       sy_outgoing := new_commands (sy_controller s) c,
       sy_phase := reply_to i (new_answer (sy_controller s) c) (sy_phase s)\<rparr>)"
| controller_panics:
    "\<not> sy_panicked s \<Longrightarrow> sy_outgoing s = [] \<Longrightarrow> controller_can_take i s \<Longrightarrow>
     same_text x y \<Longrightarrow> connect_ok y \<Longrightarrow> loop_turn y now i (sy_controller s) = (Panic, c) \<Longrightarrow>
     system_step net x s ((controller_take i s)\<lparr>sy_controller := c, sy_panicked := True,
       sy_events := [], sy_phase := drop_reply (sy_phase s)\<rparr>)"
| command_sent:
    "sy_outgoing s = cmd # cmds \<Longrightarrow> length (sy_commands s) < channel_capacity \<Longrightarrow>
     system_step net x s (s\<lparr>sy_commands := sy_commands s @ [cmd], sy_outgoing := cmds\<rparr>)"
| connections_expire:
    "system_step net x s (s\<lparr>sy_controller := (sy_controller s)
       \<lparr>ct_chains := cache_expire idle (ct_chains (sy_controller s))\<rparr>\<rparr>)"
| database_changes:
    "scan_ok db \<Longrightarrow> db_rows db = db_rows (st_db (ct_store (sy_controller s))) \<Longrightarrow>
     system_step net x s (s\<lparr>sy_controller := (sy_controller s)
       \<lparr>ct_store := (ct_store (sy_controller s))\<lparr>st_db := db\<rparr>\<rparr>\<rparr>)"
| swarm_turns:
    "sy_phase s = Looping \<Longrightarrow> swarm_can_take i s \<Longrightarrow> events_sent net x i (swarm_now s) = [] \<Longrightarrow>
     system_step net x s ((swarm_take i s)\<lparr>sy_swarm := swarm_turn net x i (swarm_now s)\<rparr>)"
| swarm_offers:
    "sy_phase s = Looping \<Longrightarrow> swarm_can_take i s \<Longrightarrow> events_sent net x i (swarm_now s) = [ev] \<Longrightarrow>
     system_step net x s ((swarm_take i s)\<lparr>sy_phase := Sending i ev\<rparr>)"
| event_sent:
    "sy_phase s = Sending i ev \<Longrightarrow> \<not> sy_panicked s \<Longrightarrow> length (sy_events s) < channel_capacity \<Longrightarrow>
     \<not> is_sync_request ev \<Longrightarrow>
     system_step net x s (s\<lparr>sy_events := sy_events s @ [ev], sy_phase := Looping,
       sy_swarm := swarm_turn net x i (swarm_now s)\<rparr>)"
| request_sent:
    "sy_phase s = Sending i ev \<Longrightarrow> \<not> sy_panicked s \<Longrightarrow> length (sy_events s) < channel_capacity \<Longrightarrow>
     is_sync_request ev \<Longrightarrow>
     system_step net x s (s\<lparr>sy_events := sy_events s @ [ev], sy_phase := Asking i\<rparr>)"
| event_refused:
    "sy_phase s = Sending i ev \<Longrightarrow> sy_panicked s \<Longrightarrow>
     system_step net x s (s\<lparr>sy_phase := Looping, sy_swarm := swarm_turn net x i (swarm_now s)\<rparr>)"
| request_answered:
    "sy_phase s = Answered i answer \<Longrightarrow>
     system_step net x s (s\<lparr>sy_phase := Looping,
       sy_swarm := swarm_turn net x (with_answer answer i) (sy_swarm s)\<rparr>)"
| swarm_changes:
    "sy_phase s = Looping \<Longrightarrow>
     system_step net x s (s\<lparr>sy_swarm := (sy_swarm s)\<lparr>sc_view := v\<rparr>\<rparr>)"

text \<open>Everything a node can come to from a state.\<close>

inductive system_runs :: "net \<Rightarrow> ext \<Rightarrow> system \<Rightarrow> system \<Rightarrow> bool" for net :: net and x :: ext and s :: system where
  runs_start: "system_runs net x s s"
| runs_step: "system_runs net x s t \<Longrightarrow> system_step net x t u \<Longrightarrow> system_runs net x s u"

lemma runs_trans: "system_runs net x t u \<Longrightarrow> system_runs net x s t \<Longrightarrow> system_runs net x s u"
  by (induction rule: system_runs.induct) (auto intro: runs_step)

lemma runs_first: "system_step net x s t \<Longrightarrow> system_runs net x t u \<Longrightarrow> system_runs net x s u"
  by (rule runs_trans) (auto intro: system_runs.intros)

section \<open>What a turn of the swarm task sends\<close>

text \<open>The responses to sync requests among the calls the task has made.\<close>

definition responses_sent :: "swarm_controller \<Rightarrow> sync_response list" where
  "responses_sent c =
     List.map_filter (\<lambda>(k, v). case k of SendResponse channel resp \<Rightarrow> Some resp | _ \<Rightarrow> None) (sc_calls c)"

lemma responses_call:
  "responses_sent (snd (do_call net k c)) =
     responses_sent c @ (case k of SendResponse channel resp \<Rightarrow> [resp] | _ \<Rightarrow> [])"
  by (cases k) (simp_all add: responses_sent_def do_call_def List.map_filter_def)

text \<open>
  A step of the task that sends these events, or none if the channel is closed, and these
  responses.
\<close>

definition talks ::
  "p2p_event list \<Rightarrow> sync_response list \<Rightarrow> swarm_controller \<Rightarrow> swarm_controller \<Rightarrow> bool" where
  "talks evs rs c d \<longleftrightarrow> sc_events d = sc_events c @ (if sc_events_open c then evs else []) \<and>
     sc_events_open d = sc_events_open c \<and> responses_sent d = responses_sent c @ rs"

lemma responses_frame [simp]:
  "responses_sent (c\<lparr>sc_events := evs\<rparr>) = responses_sent c"
  "responses_sent (c\<lparr>sc_events_open := b\<rparr>) = responses_sent c"
  "responses_sent (c\<lparr>sc_view := v\<rparr>) = responses_sent c"
  "responses_sent (c\<lparr>sc_replies := rs\<rparr>) = responses_sent c"
  by (simp_all add: responses_sent_def)

lemma talks_refl [simp]: "talks [] [] c c"
  by (simp add: talks_def)

lemma talks_call [simp]: "\<forall>ch r. k \<noteq> SendResponse ch r \<Longrightarrow> talks [] [] c (snd (do_call net k c))"
  by (cases k) (simp_all add: talks_def responses_call, simp_all add: do_call_def)

lemma talks_trans: "talks [] [] c d \<Longrightarrow> talks [] [] d e \<Longrightarrow> talks [] [] c e"
  by (simp add: talks_def)

lemma talks_fold: "(\<And>a c. talks [] [] c (f a c)) \<Longrightarrow> talks [] [] c (fold f as c)"
  by (induction as arbitrary: c) (auto intro: talks_trans)

lemma talks_event [simp]: "talks [ev] [] c (snd (send_event ev c))"
  by (simp add: talks_def send_event_def)

lemma talks_silent [simp]:
  "talks [] [] c (safe_dial net a c)" "talks [] [] c (snd (reject_connection_if_over_max net j c))"
  "talks [] [] c (announce_self net c)" "talks [] [] c (do_sync net pick q c)"
  "talks [] [] c (send_swarm_reply ch v c)"
  by (simp_all add: safe_dial_def reject_connection_if_over_max_def announce_self_def do_sync_def Let_def
      send_swarm_reply_def split: list.split)
    (simp add: talks_def)

lemma talks_publish [simp]:
  "talks [] [] c (snd (broadcast_message net x m c))" "talks [] [] c (snd (broadcast_claim net cl c))"
  by (simp_all add: broadcast_message_def broadcast_claim_def Let_def split: sum.split)

lemma talks_command [simp]: "talks [] [] c (handle_swarm_command net x pick cmd c)"
  by (cases cmd) (simp_all split: sum.split)

text \<open>The event a network event turns into.\<close>

fun event_for :: "net \<Rightarrow> ext \<Rightarrow> premint_name list \<Rightarrow> swarm_event \<Rightarrow> p2p_event list" where
  "event_for net x names (SeGossipsub (GsMessage message)) =
     (let msg = from_utf8_lossy (gm_data message)
      in if gm_topic message = announce_topic then []
         else if gm_topic message \<in> set (claims_topic_hashes names) then
           (case claim_from_json net msg of
              Inl e \<Rightarrow> []
            | Inr claim \<Rightarrow> [EvMintSeenOnchain \<lparr>pc_claim = claim, pc_from_peer_id = gm_propagated_by message\<rparr>])
         else (case premint_from_json x msg of Inl err \<Rightarrow> [] | Inr premint \<Rightarrow> [EvPremintReceived premint]))"
| "event_for net x names (SeRequestResponse (RrRequest request_id request channel)) =
     [EvSyncRequest request \<lparr>rp_id = request_id, rp_open = True\<rparr>]"
| "event_for net x names (SeRequestResponse (RrResponse request_id (SrPremints premints))) =
     [EvSyncResponse premints]"
| "event_for net x names _ = []"

text \<open>The responses a network event leads to.\<close>

fun response_to :: "bool \<Rightarrow> controller_answer \<Rightarrow> sync_response" where
  "response_to False answer = SrError ''Controller error''"
| "response_to True None = SrError ''Channel error''"
| "response_to True (Some (Inl e)) = SrError ''Query error''"
| "response_to True (Some (Inr premints)) = SrPremints premints"

fun responses_for :: "bool \<Rightarrow> swarm_event \<Rightarrow> controller_answer \<Rightarrow> sync_response list" where
  "responses_for ch_open (SeRequestResponse (RrRequest request_id request channel)) answer =
     [response_to ch_open answer]"
| "responses_for ch_open _ answer = []"

lemma talks_response:
  "talks (event_for net x names (SeRequestResponse ev)) (responses_for (sc_events_open c) (SeRequestResponse ev) answer) c
     (snd (handle_request_response_event net answer ev c))"
proof (cases ev)
  case (RrRequest i q ch)
  obtain r d where m: "make_sync_response answer i q c = (r, d)" by (cases "make_sync_response answer i q c")
  then have "d = snd (send_event (EvSyncRequest q \<lparr>rp_id = i, rp_open = True\<rparr>) c)"
    "r = response_to (sc_events_open c) answer"
    by (cases "(sc_events_open c, answer)" rule: response_to.cases;
      auto simp: make_sync_response_def make_sync_response_query_def send_event_def split: if_splits)+
  with RrRequest m show ?thesis
    by (simp add: case_prod_unfold Let_def talks_def responses_call)
      (simp add: do_call_def send_event_def)
next
  case (RrResponse i r)
  then show ?thesis by (cases r) simp_all
qed simp

lemma talks_gossip:
  "talks (event_for net x (sc_premint_names c) (SeGossipsub ev)) [] c
     (snd (handle_gossipsub_event net x ev c))"
  by (cases ev) (simp_all add: Let_def split: sum.split)

lemma talks_swarm_event:
  "talks (event_for net x (sc_premint_names c) ev) (responses_for (sc_events_open c) ev answer) c
     (handle_swarm_event net x answer ev c)"
proof (cases ev)
  case (SeListenerClosed as)
  have "talks [] [] c (fold (\<lambda>a c. if is_relayed a then snd (do_call net (RemoveExternalAddress a) c)
    else c) as c)" by (rule talks_fold) simp
  with SeListenerClosed show ?thesis by simp
next
  case (SeIdentifyReceived p protocols as)
  have "talks [] [] c (fold (\<lambda>a c. snd (do_call net (RelayAddAddress p a) c)) as c)"
    by (rule talks_fold) simp
  with SeIdentifyReceived show ?thesis by simp
next
  case (SePing p i r)
  then show ?thesis by (cases r) simp_all
next
  case (SeKad k)
  then show ?thesis by (cases k) simp_all
next
  case (SeAutonat a)
  then show ?thesis by (cases "(net, a, c)" rule: handle_autonat_event.cases) simp_all
qed (simp_all add: talks_gossip talks_response)

fun turn_events :: "net \<Rightarrow> ext \<Rightarrow> premint_name list \<Rightarrow> swarm_input \<Rightarrow> p2p_event list" where
  "turn_events net x names (SiEvent ev answer) = event_for net x names ev"
| "turn_events net x names _ = []"

fun turn_responses :: "bool \<Rightarrow> swarm_input \<Rightarrow> sync_response list" where
  "turn_responses ch_open (SiEvent ev answer) = responses_for ch_open ev answer"
| "turn_responses ch_open _ = []"

lemma talks_turn:
  "talks (turn_events net x (sc_premint_names c) inp) (turn_responses (sc_events_open c) inp) c (swarm_turn net x inp c)"
proof (cases inp)
  case (SiTick t)
  have "talks [] [] c (fold (\<lambda>topic c. snd (do_call net (GetProviders (topic_to_record_key topic)) c))
    topics c)" for topics by (rule talks_fold) simp
  with SiTick show ?thesis by (cases t) simp_all
qed (simp_all add: talks_swarm_event)

lemma events_sent_eq:
  "events_sent net x inp c = (if sc_events_open c then turn_events net x (sc_premint_names c) inp else [])"
  using talks_turn [of net x c inp] by (simp add: events_sent_def talks_def)

lemma event_for_one: "event_for net x names ev = [] \<or> (\<exists>e. event_for net x names ev = [e])"
  by (cases "(net, x, names, ev)" rule: event_for.cases) (auto simp: Let_def split: sum.split)

lemma turn_events_one: "turn_events net x names inp = [] \<or> (\<exists>e. turn_events net x names inp = [e])"
  by (cases inp) (simp_all add: event_for_one)

lemma turn_events_answer [simp]: "turn_events net x names (with_answer a inp) = turn_events net x names inp"
  by (cases inp) simp_all

section \<open>What a turn of the controller sends\<close>

definition appends :: "swarm_command list \<Rightarrow> controller \<Rightarrow> controller \<Rightarrow> bool" where
  "appends cmds c d \<longleftrightarrow> ct_swarm d = ct_swarm c @ cmds"

lemma request_sync_appends:
  "\<exists>cmds. appends cmds c (snd (request_sync x now c)) \<and> length cmds \<le> 1 \<and> (\<forall>m. ScBroadcast m \<notin> set cmds)"
  by (auto simp: request_sync_def Let_def send_swarm_def appends_def intro: exI [of _ "[]"])

lemma event_appends: "appends [] c (snd (handle_event x schedule ev c))"
proof (cases ev)
  case (EvMintSeenOnchain pc)
  have "snd (handle_event x schedule ev c) = snd (handle_event_onchain_claim x pc c)"
    by (simp add: EvMintSeenOnchain split: prod.split outcome.split)
  with claim_frame [of x c pc] show ?thesis by (simp add: appends_def)
next
  case (EvSyncResponse ps)
  with run_sync_frame [where x = x and c = c and schedule = schedule and ps = ps] show ?thesis
    by (simp add: appends_def same_but_store_def)
qed (simp_all add: appends_def)

text \<open>A turn sends one command at most, and a premint only by the command to broadcast it, once it was inserted.\<close>

lemma command_appends:
  "\<exists>cmds. appends cmds c (snd (handle_command x now cmd c)) \<and> length cmds \<le> 1 \<and>
     (\<forall>m. ScBroadcast m \<in> set cmds \<longrightarrow> (\<exists>ch rs c1. cmd = CcBroadcast m ch \<and>
        validate_and_insert x m c = (Ok rs, c1) \<and> ct_store (snd (handle_command x now cmd c)) = ct_store c1))"
proof (cases cmd)
  case (CcBroadcast m ch)
  obtain r c1 where v: "validate_and_insert x m c = (r, c1)" by (cases "validate_and_insert x m c")
  then have f: "ct_swarm c1 = ct_swarm c" using validate_frame(1) [of x m c] by simp
  show ?thesis
  proof (cases r)
    case (Inl e)
    then show ?thesis by (intro exI [of _ "[]"]) (simp add: CcBroadcast v f appends_def split_beta Let_def)
  next
    case (Inr rs)
    then show ?thesis
      by (intro exI [of _ "if ct_swarm_open c1 then [ScBroadcast m] else []"])
        (simp add: CcBroadcast v f appends_def split_beta Let_def send_swarm_def split: sum.split)
  qed
next
  case (CcQuery q)
  then show ?thesis by (intro exI [of _ "[]"]) (cases q; simp add: appends_def)
next
  case CcSync
  with request_sync_appends [of c x now] show ?thesis
    by (auto simp: split_beta split: outcome.split)
next
  case (CcResolveOnchainMint cl)
  then show ?thesis
    by (intro exI [of _ "if cfg_chain_inclusion_mode (ct_config c) = Check \<and> ct_swarm_open c
        then [ScSendOnchainMintFound cl] else []"]) (simp add: appends_def Let_def)
qed (auto simp: appends_def Let_def split_beta intro: exI [of _ "[]"])

lemma turn_appends:
  "\<exists>cmds. appends cmds c (snd (loop_turn x now i c)) \<and> length cmds \<le> 1 \<and>
     (\<forall>m. ScBroadcast m \<in> set cmds \<longrightarrow> (\<exists>ch rs c1. i = InCommand (CcBroadcast m ch) \<and>
        validate_and_insert x m c = (Ok rs, c1) \<and> ct_store (snd (loop_turn x now i c)) = ct_store c1))"
proof (cases i)
  case (InCommand cmd)
  then have "snd (loop_turn x now i c) = snd (handle_command x now cmd c)"
    by (simp add: split_beta split: outcome.split)
  with command_appends [of c x now cmd] show ?thesis by (auto simp: InCommand)
next
  case (InEvent ev schedule)
  with event_appends [of c x schedule ev] show ?thesis by (intro exI [of _ "[]"]) simp
next
  case InTick
  with request_sync_appends [of c x now] show ?thesis by auto
qed

lemma new_commands_eq:
  "loop_turn x now i c = (r, d) \<Longrightarrow> ct_swarm d = ct_swarm c @ new_commands c d"
  "loop_turn x now i c = (r, d) \<Longrightarrow> length (new_commands c d) \<le> 1"
  using turn_appends [of c x now i] by (auto simp: appends_def new_commands_def)

lemma event_no_commands: "loop_turn x now (InEvent ev schedule) c = (r, d) \<Longrightarrow> new_commands c d = []"
  using event_appends [of c x schedule ev] by (simp add: appends_def new_commands_def)

lemma sync_request_answer:
  assumes "loop_turn x now (InEvent (EvSyncRequest q ch) schedule) c = (r, d)" "rp_open ch"
  shows "new_answer c d = Some (list_all_with_options x (st_db (ct_store c)) q)"
  using assms by (auto simp: new_answer_def)

section \<open>The invariant of a running node\<close>

text \<open>
  The event of the turn that the swarm task has sent but not finished. A sync request in the
  channel is the last event there, and the swarm task waits for it.
\<close>

fun unfinished :: "net \<Rightarrow> ext \<Rightarrow> premint_name list \<Rightarrow> swarm_phase \<Rightarrow> p2p_event list" where
  "unfinished net x names (Asking i) = turn_events net x names i"
| "unfinished net x names (Answered i answer) = turn_events net x names i"
| "unfinished net x names _ = []"

definition no_request :: "p2p_event list \<Rightarrow> bool" where
  "no_request evs \<longleftrightarrow> (\<forall>ev\<in>set evs. \<not> is_sync_request ev)"

lemma no_request_simps [simp]:
  "no_request []" "no_request (ev # evs) \<longleftrightarrow> \<not> is_sync_request ev \<and> no_request evs"
  "no_request (evs @ evs') \<longleftrightarrow> no_request evs \<and> no_request evs'"
  by (auto simp: no_request_def)

definition asks :: "net \<Rightarrow> ext \<Rightarrow> premint_name list \<Rightarrow> swarm_input \<Rightarrow> p2p_event \<Rightarrow> bool" where
  "asks net x names i ev \<longleftrightarrow> turn_events net x names i = [ev] \<and> is_sync_request ev"

fun phase_ok :: "net \<Rightarrow> ext \<Rightarrow> premint_name list \<Rightarrow> bool \<Rightarrow> p2p_event list \<Rightarrow> swarm_phase \<Rightarrow> bool" where
  "phase_ok net x names panicked evs Looping \<longleftrightarrow> no_request evs"
| "phase_ok net x names panicked evs (Sending i ev) \<longleftrightarrow> no_request evs \<and> turn_events net x names i = [ev]"
| "phase_ok net x names panicked evs (Asking i) \<longleftrightarrow> \<not> panicked \<and>
     (\<exists>ev waiting. asks net x names i ev \<and> evs = waiting @ [ev] \<and> no_request waiting)"
| "phase_ok net x names panicked evs (Answered i answer) \<longleftrightarrow> no_request evs \<and> (\<exists>ev. asks net x names i ev)"

definition channels_ok :: "net \<Rightarrow> ext \<Rightarrow> premint_name list \<Rightarrow> system \<Rightarrow> bool" where
  "channels_ok net x names s \<longleftrightarrow>
     ct_swarm (sy_controller s) = sy_taken s @ sy_commands s @ sy_outgoing s \<and>
     length (sy_outgoing s) \<le> 1 \<and>
     length (sy_commands s) \<le> channel_capacity \<and> length (sy_events s) \<le> channel_capacity \<and>
     (sy_panicked s \<longrightarrow> sy_events s = []) \<and>
     (\<not> sy_panicked s \<longrightarrow>
        sc_events (sy_swarm s) @ unfinished net x names (sy_phase s) = sy_heard s @ sy_events s) \<and>
     (\<not> sy_panicked s \<or> (\<exists>i answer. sy_phase s = Answered i answer) \<longrightarrow> sc_events_open (sy_swarm s)) \<and>
     phase_ok net x names (sy_panicked s) (sy_events s) (sy_phase s)"

definition system_inv :: "net \<Rightarrow> ext \<Rightarrow> config \<Rightarrow> system \<Rightarrow> bool" where
  "system_inv net x cfg s \<longleftrightarrow>
     controller_inv x cfg (sy_controller s) \<and> running net x cfg (sy_swarm s) (sy_taken s) \<and>
     channels_ok net x (premint_names cfg) s"

lemma system_take [simp]:
  "sy_controller (controller_take i s) = sy_controller s" "sy_outgoing (controller_take i s) = sy_outgoing s"
  "sy_panicked (controller_take i s) = sy_panicked s" "sy_swarm (controller_take i s) = sy_swarm s"
  "sy_phase (controller_take i s) = sy_phase s" "sy_commands (controller_take i s) = sy_commands s"
  "sy_taken (controller_take i s) = sy_taken s"
  by (cases i; simp)+

lemma system_swarm_take [simp]:
  "sy_controller (swarm_take inp s) = sy_controller s" "sy_outgoing (swarm_take inp s) = sy_outgoing s"
  "sy_panicked (swarm_take inp s) = sy_panicked s" "sy_swarm (swarm_take inp s) = sy_swarm s"
  "sy_phase (swarm_take inp s) = sy_phase s" "sy_events (swarm_take inp s) = sy_events s"
  "sy_heard (swarm_take inp s) = sy_heard s" "sy_taken (swarm_take inp s) = sy_taken s @ turn_commands inp"
  by (cases inp; simp)+

lemma swarm_take_commands:
  "swarm_can_take inp s \<Longrightarrow> sy_commands s = turn_commands inp @ sy_commands (swarm_take inp s)"
  by (cases inp) auto

lemma controller_take_events:
  "controller_can_take i s \<Longrightarrow> sy_heard (controller_take i s) @ sy_events (controller_take i s) = sy_heard s @ sy_events s"
  "length (sy_events (controller_take i s)) \<le> length (sy_events s)"
  by (cases i; auto)+

lemma swarm_now_sel [simp]:
  "sc_events_open (swarm_now s) \<longleftrightarrow> \<not> sy_panicked s" "sc_events (swarm_now s) = sc_events (sy_swarm s)"
  "sc_premint_names (swarm_now s) = sc_premint_names (sy_swarm s)"
  by (simp_all add: swarm_now_def)

lemma swarm_now_open: "\<not> sy_panicked s \<Longrightarrow> sc_events_open (sy_swarm s) \<Longrightarrow> swarm_now s = sy_swarm s"
  by (simp add: swarm_now_def)

lemma running_now:
  "running net x cfg (sy_swarm s) cmds \<Longrightarrow> sc_events_open (sy_swarm s) \<or> sy_panicked s \<Longrightarrow>
     running net x cfg (swarm_now s) cmds"
proof (cases "sy_panicked s")
  case True
  moreover assume "running net x cfg (sy_swarm s) cmds"
  ultimately show ?thesis by (simp add: swarm_now_def running.running_closed)
qed (simp add: swarm_now_open)

lemma running_names: "running net x cfg c cmds \<Longrightarrow> sc_premint_names c = premint_names cfg"
  using running_sanctioned by blast

lemma turn_talks:
  "running net x cfg c cmds \<Longrightarrow> sc_events (swarm_turn net x inp c) =
     sc_events c @ (if sc_events_open c then turn_events net x (premint_names cfg) inp else [])"
  "sc_events_open (swarm_turn net x inp c) = sc_events_open c"
  using talks_turn [of net x c inp] by (simp_all add: talks_def running_names)

section \<open>Every step keeps the invariant\<close>

lemma inv_controller_turns:
  assumes "system_inv net x cfg s" "\<not> sy_panicked s" "sy_outgoing s = []" "controller_can_take i s"
    "same_text x y" "connect_ok y" "loop_turn y now i (sy_controller s) = (Returns (), c)"
  shows "system_inv net x cfg ((controller_take i s)\<lparr>sy_controller := c,
       sy_outgoing := new_commands (sy_controller s) c,
       sy_phase := reply_to i (new_answer (sy_controller s) c) (sy_phase s)\<rparr>)"
proof -
  let ?names = "premint_names cfg"
  have c: "channels_ok net x ?names s" and r: "running net x cfg (sy_swarm s) (sy_taken s)"
    and ci: "controller_inv x cfg (sy_controller s)" using assms(1) by (simp_all add: system_inv_def)
  have "controller_step x (sy_controller s) c" using assms(5-7) by (rule controller_step.turn)
  then have "controller_inv x cfg c" using ci by (rule step_inv)
  moreover have "ct_swarm c = sy_taken s @ sy_commands s @ new_commands (sy_controller s) c"
    using new_commands_eq(1) [OF assms(7)] c assms(3) by (simp add: channels_ok_def)
  moreover note new_commands_eq(2) [OF assms(7)]
  moreover have "unfinished net x ?names (reply_to i a (sy_phase s)) = unfinished net x ?names (sy_phase s)" for a
    by (cases "(i, a, sy_phase s)" rule: reply_to.cases) simp_all
  moreover have "phase_ok net x ?names False (sy_events (controller_take i s)) (reply_to i a (sy_phase s))" for a
  proof -
    have p: "phase_ok net x ?names False (sy_events s) (sy_phase s)" using c assms(2) by (simp add: channels_ok_def)
    show ?thesis
    proof (cases i)
      case (InEvent ev schedule)
      then obtain evs where e: "sy_events s = ev # evs" using assms(4) by (cases "sy_events s") auto
      show ?thesis
      proof (cases "sy_phase s")
        case (Asking inp)
        with p e obtain ev' waiting where w: "asks net x ?names inp ev'" "ev # evs = waiting @ [ev']" "no_request waiting"
          by auto
        show ?thesis
        proof (cases waiting)
          case Nil
          with w have "is_sync_request ev" "evs = []" by (auto simp: asks_def)
          with w(1) Asking InEvent e show ?thesis by (cases ev) (auto simp: no_request_def)
        next
          case (Cons a ws)
          with w have "\<not> is_sync_request ev" "no_request ws" "evs = ws @ [ev']" by (auto simp: no_request_def)
          with w(1) Asking InEvent e show ?thesis by (cases ev) auto
        qed
      qed (use p InEvent e in \<open>auto simp: no_request_def\<close>)
    qed (use p in simp_all)
  qed
  moreover have "reply_to i a (sy_phase s) = Answered inp b \<Longrightarrow> sc_events_open (sy_swarm s)" for a inp b
    using c assms(2) by (simp add: channels_ok_def)
  ultimately show ?thesis
    using c r assms(2) controller_take_events(1) [OF assms(4)] controller_take_events(2) [of i s]
    by (simp add: system_inv_def channels_ok_def)
qed

lemma panic_inv:
  assumes "connect_ok y" "same_text x y" "loop_turn y now i c = (r, d)" "controller_inv x cfg c"
  shows "controller_inv x cfg d"
  using turn_conforms [OF assms(1), of c now i] assms
  by (auto simp: controller_inv_def conforms_def same_store(3) dest: written_good)

lemma request_panic: "request_sync x now c = (Panic, d) \<Longrightarrow> ct_swarm d = ct_swarm c"
  by (auto simp: request_sync_def Let_def send_swarm_def split: if_splits)

lemma panic_sends_nothing: "loop_turn x now i c = (Panic, d) \<Longrightarrow> new_commands c d = []"
proof (cases i)
  case (InCommand cmd)
  assume "loop_turn x now i c = (Panic, d)"
  with InCommand have h: "handle_command x now cmd c = (Panic, d)" by (auto split: prod.splits outcome.splits)
  show ?thesis
  proof (cases "cmd = CcSync")
    case True
    with h show ?thesis by (auto simp: new_commands_def dest: request_panic split: prod.splits outcome.splits)
  next
    case False
    with h show ?thesis
      by (cases "(x, now, cmd, c)" rule: handle_command.cases)
        (auto simp: Let_def split: prod.splits sum.splits)
  qed
next
  case (InEvent ev schedule)
  then show "loop_turn x now i c = (Panic, d) \<Longrightarrow> ?thesis" by (simp add: event_no_commands)
next
  case InTick
  then show "loop_turn x now i c = (Panic, d) \<Longrightarrow> ?thesis" by (simp add: new_commands_def request_panic)
qed

lemma inv_controller_panics:
  assumes "system_inv net x cfg s" "\<not> sy_panicked s" "sy_outgoing s = []" "controller_can_take i s"
    "same_text x y" "connect_ok y" "loop_turn y now i (sy_controller s) = (Panic, c)"
  shows "system_inv net x cfg ((controller_take i s)\<lparr>sy_controller := c, sy_panicked := True,
       sy_events := [], sy_phase := drop_reply (sy_phase s)\<rparr>)"
proof -
  have c: "channels_ok net x (premint_names cfg) s" and r: "running net x cfg (sy_swarm s) (sy_taken s)"
    and ci: "controller_inv x cfg (sy_controller s)" using assms(1) by (simp_all add: system_inv_def)
  have "ct_swarm c = sy_taken s @ sy_commands s @ new_commands (sy_controller s) c"
    using new_commands_eq(1) [OF assms(7)] c assms(3) by (simp add: channels_ok_def)
  moreover have "new_commands (sy_controller s) c = []" using assms(7) by (rule panic_sends_nothing)
  moreover have "phase_ok net x (premint_names cfg) True [] (drop_reply (sy_phase s))"
    using c by (cases "sy_phase s") (auto simp: channels_ok_def no_request_def)
  ultimately show ?thesis
    using c r assms(2,3) panic_inv [OF assms(6,5,7) ci] by (simp add: system_inv_def channels_ok_def)
qed

text \<open>A turn of the swarm task that is finished, and one that waits.\<close>

lemma swarm_step_facts:
  assumes "system_inv net x cfg s" "sy_phase s = Looping \<or> (\<exists>i ev. sy_phase s = Sending i ev)"
  shows "running net x cfg (swarm_now s) (sy_taken s)"
    "running net x cfg (swarm_turn net x inp (swarm_now s)) (sy_taken s @ turn_commands inp)"
    "events_sent net x inp (swarm_now s) = (if sy_panicked s then [] else turn_events net x (premint_names cfg) inp)"
    "\<not> sy_panicked s \<Longrightarrow> sc_events (sy_swarm s) = sy_heard s @ sy_events s"
    "sc_events (swarm_turn net x inp (swarm_now s)) = sc_events (sy_swarm s) @ events_sent net x inp (swarm_now s)"
    "sc_events_open (swarm_turn net x inp (swarm_now s)) \<longleftrightarrow> \<not> sy_panicked s"
proof -
  have c: "channels_ok net x (premint_names cfg) s" and r: "running net x cfg (sy_swarm s) (sy_taken s)"
    using assms(1) by (simp_all add: system_inv_def)
  show n: "running net x cfg (swarm_now s) (sy_taken s)"
    using running_now [OF r] c by (auto simp: channels_ok_def)
  then show "running net x cfg (swarm_turn net x inp (swarm_now s)) (sy_taken s @ turn_commands inp)"
    by (rule running.running_turn)
  show e: "events_sent net x inp (swarm_now s) = (if sy_panicked s then [] else turn_events net x (premint_names cfg) inp)"
    using running_names [OF r] by (simp add: events_sent_eq)
  show "\<not> sy_panicked s \<Longrightarrow> sc_events (sy_swarm s) = sy_heard s @ sy_events s"
    using c assms(2) by (auto simp: channels_ok_def)
  show "sc_events (swarm_turn net x inp (swarm_now s)) = sc_events (sy_swarm s) @ events_sent net x inp (swarm_now s)"
    "sc_events_open (swarm_turn net x inp (swarm_now s)) \<longleftrightarrow> \<not> sy_panicked s"
    using turn_talks(1) [OF n, of inp] turn_talks(2) [of net x inp] e by simp_all
qed

lemma sending_events_only:
  assumes "turn_events net x names i = [ev]"
  shows "turn_commands i = []"
  using assms by (cases i) simp_all

lemma answered_commands: "turn_commands (with_answer a i) = turn_commands i"
  by (cases i) simp_all

lemma inv_swarm_turns:
  assumes "system_inv net x cfg s" "sy_phase s = Looping" "swarm_can_take i s"
    "events_sent net x i (swarm_now s) = []"
  shows "system_inv net x cfg ((swarm_take i s)\<lparr>sy_swarm := swarm_turn net x i (swarm_now s)\<rparr>)"
proof -
  note f = swarm_step_facts(4) [OF assms(1)] swarm_step_facts(2,3,5,6) [where inp = i, OF assms(1)]
  have "channels_ok net x (premint_names cfg) s" "controller_inv x cfg (sy_controller s)"
    using assms(1) by (simp_all add: system_inv_def)
  with f assms(2,4) swarm_take_commands [OF assms(3)] show ?thesis
    by (simp add: system_inv_def channels_ok_def)
qed

lemma inv_swarm_offers:
  assumes "system_inv net x cfg s" "sy_phase s = Looping" "swarm_can_take i s"
    "events_sent net x i (swarm_now s) = [ev]"
  shows "system_inv net x cfg ((swarm_take i s)\<lparr>sy_phase := Sending i ev\<rparr>)"
proof -
  have e: "turn_events net x (premint_names cfg) i = [ev]"
    using swarm_step_facts(3) [where inp = i, OF assms(1)] assms(2,4) by (simp split: if_splits)
  have "channels_ok net x (premint_names cfg) s" "controller_inv x cfg (sy_controller s)"
    "running net x cfg (sy_swarm s) (sy_taken s)" using assms(1) by (simp_all add: system_inv_def)
  with e sending_events_only [OF e] assms(2) swarm_take_commands [OF assms(3)] show ?thesis
    by (simp add: system_inv_def channels_ok_def)
qed

lemma inv_event_sent:
  assumes "system_inv net x cfg s" "sy_phase s = Sending i ev" "\<not> sy_panicked s"
    "length (sy_events s) < channel_capacity" "\<not> is_sync_request ev"
  shows "system_inv net x cfg (s\<lparr>sy_events := sy_events s @ [ev], sy_phase := Looping,
       sy_swarm := swarm_turn net x i (swarm_now s)\<rparr>)"
proof -
  note f = swarm_step_facts(4) [OF assms(1)] swarm_step_facts(2,3,5,6) [where inp = i, OF assms(1)]
  have c: "channels_ok net x (premint_names cfg) s" "controller_inv x cfg (sy_controller s)"
    using assms(1) by (simp_all add: system_inv_def)
  then have e: "turn_events net x (premint_names cfg) i = [ev]" using assms(2) by (simp add: channels_ok_def)
  from c f e sending_events_only [OF e] assms(2-) show ?thesis
    by (simp add: system_inv_def channels_ok_def no_request_def)
qed

lemma inv_request_sent:
  assumes "system_inv net x cfg s" "sy_phase s = Sending i ev" "\<not> sy_panicked s"
    "length (sy_events s) < channel_capacity" "is_sync_request ev"
  shows "system_inv net x cfg (s\<lparr>sy_events := sy_events s @ [ev], sy_phase := Asking i\<rparr>)"
  using assms by (auto simp: system_inv_def channels_ok_def asks_def)

lemma inv_event_refused:
  assumes "system_inv net x cfg s" "sy_phase s = Sending i ev" "sy_panicked s"
  shows "system_inv net x cfg (s\<lparr>sy_phase := Looping, sy_swarm := swarm_turn net x i (swarm_now s)\<rparr>)"
proof -
  note f = swarm_step_facts(4) [OF assms(1)] swarm_step_facts(2,3,5,6) [where inp = i, OF assms(1)]
  have c: "channels_ok net x (premint_names cfg) s" "controller_inv x cfg (sy_controller s)"
    using assms(1) by (simp_all add: system_inv_def)
  then have e: "turn_events net x (premint_names cfg) i = [ev]" using assms(2) by (simp add: channels_ok_def)
  from c f sending_events_only [OF e] assms(2-) show ?thesis
    by (simp add: system_inv_def channels_ok_def)
qed

lemma inv_request_answered:
  assumes "system_inv net x cfg s" "sy_phase s = Answered i answer"
  shows "system_inv net x cfg (s\<lparr>sy_phase := Looping,
       sy_swarm := swarm_turn net x (with_answer answer i) (sy_swarm s)\<rparr>)"
proof -
  have c: "channels_ok net x (premint_names cfg) s" "controller_inv x cfg (sy_controller s)"
    and r: "running net x cfg (sy_swarm s) (sy_taken s)"
    using assms(1) by (simp_all add: system_inv_def)
  then obtain ev where e: "turn_events net x (premint_names cfg) i = [ev]"
    using assms(2) by (auto simp: channels_ok_def asks_def)
  from running.running_turn [OF r, of "with_answer answer i"] sending_events_only [OF e]
  have "running net x cfg (swarm_turn net x (with_answer answer i) (sy_swarm s)) (sy_taken s)"
    by (simp add: answered_commands)
  with c e assms(2) turn_talks(1) [OF r, of "with_answer answer i"]
    turn_talks(2) [of net x "with_answer answer i"] show ?thesis
    by (simp add: system_inv_def channels_ok_def)
qed

lemma system_step_inv:
  assumes "system_step net x s t" "system_inv net x cfg s"
  shows "system_inv net x cfg t"
  using assms
proof (cases rule: system_step.cases)
  case (command_sent cmd cmds)
  with assms(2) show ?thesis by (simp add: system_inv_def channels_ok_def)
next
  case (connections_expire idle)
  have "controller_step x (sy_controller s) (sy_controller t)"
    unfolding connections_expire by (simp add: controller_step.expire)
  with assms(2) step_inv connections_expire show ?thesis by (auto simp: system_inv_def channels_ok_def)
next
  case (database_changes db)
  have "controller_step x (sy_controller s) (sy_controller t)"
    unfolding database_changes(1) by (simp add: controller_step.database database_changes)
  with assms(2) step_inv database_changes show ?thesis by (auto simp: system_inv_def channels_ok_def)
next
  case (swarm_changes v)
  with assms(2) running.running_swarm [of net x cfg "sy_swarm s" "sy_taken s" v] show ?thesis
    by (simp add: system_inv_def channels_ok_def)
qed (use assms(2) in \<open>blast intro: inv_controller_turns inv_controller_panics inv_swarm_turns inv_swarm_offers
  inv_event_sent inv_request_sent inv_event_refused inv_request_answered\<close>)+

lemma system_runs_inv: "system_runs net x s t \<Longrightarrow> system_inv net x cfg s \<Longrightarrow> system_inv net x cfg t"
  by (induction rule: system_runs.induct) (auto intro: system_step_inv)

end
