(* ===== verification/SystemProps.thy ===== *)
theory SystemProps
  imports System
begin

text \<open>
  The properties of a running node: what the two tasks hand each other arrives in order and
  complete, what the node publishes is what its rules accepted and its store holds, and when the
  two tasks wait for each other.
\<close>

section \<open>The start\<close>

lemma boot_nodes_cache: "connect_ok x \<Longrightarrow> cache_ok cache \<Longrightarrow> cache_ok (snd (get_contract_boot_nodes x cache))"
  using get_rpc_cache_ok [of x cache 7777777]
  by (auto simp: get_contract_boot_nodes_def Let_def split: prod.splits sum.splits)

lemma boot_cache: "connect_ok x \<Longrightarrow> cache_ok cache \<Longrightarrow> cache_ok (snd (boot_commands x cache cfg))"
  using boot_nodes_cache [of x cache]
  by (auto simp: boot_commands_def split: boot_nodes.split prod.split sum.split)

lemma talks_new: "sc_events (swarm_new net cfg v) = [] \<and> sc_events_open (swarm_new net cfg v) \<and>
    responses_sent (swarm_new net cfg v) = []"
  by (simp add: swarm_new_def responses_call Let_def split: option.split sum.split)
    (simp add: do_call_def responses_sent_def)

lemma talks_try:
  assumes "talks [] [] c (snd p)" "\<And>d. talks [] [] d (snd (f d))"
  shows "talks [] [] c (snd (case p of (Inl e, d) \<Rightarrow> (Inl e, d) | (Inr _, d) \<Rightarrow> f d))"
  using assms talks_trans by (fastforce split: prod.split sum.split)

lemma talks_subscribe: "talks [] [] c (snd (gossip_subscribe net topic c))"
proof -
  let ?c1 = "snd (do_call net (Subscribe topic) c)"
  have "snd (gossip_subscribe net topic c) \<in>
      {?c1, snd (do_call net (StartProviding (topic_to_record_key topic)) ?c1)}"
    by (simp add: gossip_subscribe_def do_call_def Let_def split: sum.split)
  moreover have "talks [] [] c ?c1" "talks [] [] ?c1 (snd (do_call net k ?c1))"
    if "k = StartProviding (topic_to_record_key topic)" for k using that by simp_all
  ultimately show ?thesis using talks_trans by fastforce
qed

lemma talks_listen: "talks [] [] c (snd (listen_on net text c))"
  by (auto simp: listen_on_def split: sum.split)

lemma talks_start: "talks [] [] c (snd (swarm_start net port ip c))"
  unfolding swarm_start_def
  by (intro talks_try talks_listen talks_subscribe)
    (simp add: talks_fold talks_subscribe)

text \<open>The node that \<open>start_p2p_services\<close> starts, if its swarm could start to listen.\<close>

definition node_starts ::
  "ext \<Rightarrow> engine \<Rightarrow> keys \<Rightarrow> net \<Rightarrow> (peer_id \<Rightarrow> swarm_view) \<Rightarrow>
     (ext \<Rightarrow> premint_storage rules_engine) \<Rightarrow> config \<Rightarrow> system \<Rightarrow> bool" where
  "node_starts x en ks net swarm_of rules cfg s \<longleftrightarrow>
     connect_ok x \<and>
     (\<exists>nd. start_p2p_services x en ks net swarm_of rules cfg = Returns nd \<and> sn_swarm_started nd \<and>
        good_store x (ct_store (sn_controller nd)) \<and> s = system_start (sn_controller nd) (sn_swarm nd))"

lemma start_inv:
  assumes "node_starts x en ks net swarm_of rules cfg s"
  shows "system_inv net x cfg s"
proof -
  from assms obtain nd key st r where nd: "start_p2p_services x en ks net swarm_of rules cfg = Returns nd"
    "sn_swarm_started nd" "good_store x (ct_store (sn_controller nd))" "connect_ok x"
    "s = system_start (sn_controller nd) (sn_swarm nd)"
    by (auto simp: node_starts_def)
  then obtain key st r where n: "sn_controller nd = (controller_new cfg st rules)
      \<lparr>ct_chains := snd (boot_commands x Map.empty cfg)\<rparr>"
    "swarm_start net (cfg_peer_port cfg) (initial_network_ip cfg) (swarm_new net cfg (swarm_of key)) = (Ok (), sn_swarm nd)"
    by (auto simp: start_p2p_services_def Let_def is_ok_iff split: outcome.splits prod.splits)
  have "controller_inv x cfg (sn_controller nd)"
    using nd(3) boot_cache [OF nd(4), of Map.empty cfg]
    by (simp add: n(1) controller_inv_def controller_new_def only_check_mode_announces_def)
  moreover have "running net x cfg (sn_swarm nd) []" using n(2) by (rule running.running_start)
  moreover have "sc_events (sn_swarm nd) = [] \<and> sc_events_open (sn_swarm nd)"
    using talks_start [of "swarm_new net cfg (swarm_of key)" net "cfg_peer_port cfg" "initial_network_ip cfg"]
      talks_new [of net cfg "swarm_of key"]
    by (simp add: n(2) talks_def)
  ultimately show ?thesis
    by (simp add: nd(5) system_inv_def channels_ok_def system_start_def n(1) controller_new_def)
qed

lemma start_state:
  assumes "node_starts x en ks net swarm_of rules cfg s"
  shows "\<not> sy_panicked s" "sy_phase s = Looping" "sy_commands s = []" "sy_events s = []"
    "sy_outgoing s = []" "ct_swarm (sy_controller s) = []" "ct_swarm_open (sy_controller s)"
  using assms by (auto simp: node_starts_def system_start_def start_p2p_services_def controller_new_def
      Let_def split: outcome.splits prod.splits)

lemma start_responses:
  assumes "node_starts x en ks net swarm_of rules cfg s"
  shows "responses_sent (sy_swarm s) = []"
proof -
  obtain key c where c: "swarm_start net (cfg_peer_port cfg) (initial_network_ip cfg)
      (swarm_new net cfg (swarm_of key)) = (c, sy_swarm s)"
    using assms by (auto simp: node_starts_def system_start_def start_p2p_services_def
      Let_def split: outcome.splits prod.splits)
  with talks_start [of "swarm_new net cfg (swarm_of key)" net "cfg_peer_port cfg" "initial_network_ip cfg"]
    talks_new [of net cfg "swarm_of key"]
  show ?thesis by (simp add: talks_def)
qed

lemma node_inv:
  assumes "node_starts x en ks net swarm_of rules cfg s0" "system_runs net x s0 s"
  shows "system_inv net x cfg s"
  using start_inv [OF assms(1)] assms(2) system_runs_inv by blast

text \<open>
  If the swarm could not start to listen, its task is gone and with it the receiver of the
  commands: the first tick of the controller ends the controller as well.
\<close>

lemma deaf_node_loses_controller:
  assumes "start_p2p_services x en ks net swarm_of rules cfg = Returns nd" "\<not> sn_swarm_started nd"
  shows "fst (loop_turn y now InTick ((sn_controller nd)\<lparr>ct_swarm_open := False\<rparr>)) = Panic"
  by (simp add: request_sync_def send_swarm_def Let_def)

section \<open>Between the tasks\<close>

text \<open>
  C14. Whatever a started node goes through, the swarm task receives the commands of the
  controller complete and in the order they were sent, at most 1024 of them wait in the channel
  and one more to get in; and as long as the controller's task lives it receives the events of
  the swarm task in the same way. After a panic of the controller no events wait.
\<close>

theorem channels_keep_order:
  assumes "node_starts x en ks net swarm_of rules cfg s0" "system_runs net x s0 s"
  shows "ct_swarm (sy_controller s) = sy_taken s @ sy_commands s @ sy_outgoing s \<and>
    length (sy_commands s) \<le> 1024 \<and> length (sy_outgoing s) \<le> 1 \<and> length (sy_events s) \<le> 1024 \<and>
    (if sy_panicked s then sy_events s = []
     else sc_events (sy_swarm s) @ unfinished net x (premint_names cfg) (sy_phase s) = sy_heard s @ sy_events s)"
  using node_inv [OF assms] by (simp add: system_inv_def channels_ok_def channel_capacity_def)

section \<open>What a node publishes\<close>

lemma same_get: "same_text x y \<Longrightarrow> get_for_id_and_kind x = get_for_id_and_kind y"
  using same_json(2) [of x y]
  by (intro HOL.ext) (simp add: get_for_id_and_kind_def fetch_premint_def split: sum.split)

text \<open>The premint is what the store of the node returns for it.\<close>

definition holds_premint :: "ext \<Rightarrow> system \<Rightarrow> premint_types \<Rightarrow> bool" where
  "holds_premint x s m \<longleftrightarrow>
     get_for_id_and_kind x (st_db (ct_store (sy_controller s))) (md_id (metadata x m)) (md_kind (metadata x m)) = Ok m"

text \<open>The rules of the controller, run on the premint against its own store, return and accept it.\<close>

definition rules_accepted :: "ext \<Rightarrow> premint_types \<Rightarrow> controller \<Rightarrow> bool" where
  "rules_accepted y m c \<longleftrightarrow>
     (\<exists>rs cache. evaluate y (storage_reader y) (ct_rules c y) (ct_chains c) m (storage_clone (ct_store c)) =
        (Ok rs, cache) \<and> is_accept rs)"

lemma inserted_was_accepted: "validate_and_insert y m c = (Ok rs, c1) \<Longrightarrow> rules_accepted y m c"
  by (auto simp: validate_and_insert_def rules_accepted_def split: prod.splits sum.splits if_splits)

text \<open>
  At this step the node has taken in the premint: its controller handled the command that
  submits it, its rules accepted it, its store returns it afterwards, and the command to
  publish it is now among those sent to the swarm task and was not before.
\<close>

definition takes_in :: "net \<Rightarrow> ext \<Rightarrow> premint_types \<Rightarrow> system \<Rightarrow> system \<Rightarrow> bool" where
  "takes_in net x m s t \<longleftrightarrow> system_step net x s t \<and>
     (\<exists>y now ch. same_text x y \<and> connect_ok y \<and> rules_accepted y m (sy_controller s) \<and>
        snd (loop_turn y now (InCommand (CcBroadcast m ch)) (sy_controller s)) = sy_controller t) \<and>
     ScBroadcast m \<notin> set (ct_swarm (sy_controller s)) \<and> ScBroadcast m \<in> set (ct_swarm (sy_controller t)) \<and>
     holds_premint x t m"

lemma turn_stores_broadcast:
  assumes "same_text x y" "good_store x (ct_store c)" "loop_turn y now i c = (r, d)"
    "ScBroadcast m \<in> set (ct_swarm d)" "ScBroadcast m \<notin> set (ct_swarm c)"
  shows "get_for_id_and_kind x (st_db (ct_store d)) (md_id (metadata x m)) (md_kind (metadata x m)) = Ok m"
    and "rules_accepted y m c" and "\<exists>ch. i = InCommand (CcBroadcast m ch)"
proof -
  obtain cmds where "ct_swarm d = ct_swarm c @ cmds"
    and v: "ScBroadcast m \<in> set cmds \<longrightarrow> (\<exists>ch rs c1. i = InCommand (CcBroadcast m ch) \<and>
      validate_and_insert y m c = (Ok rs, c1) \<and> ct_store d = ct_store c1)"
    using turn_appends [of c y now i] assms(3) by (auto simp: appends_def)
  with assms(4,5) obtain ch rs c1 where i: "i = InCommand (CcBroadcast m ch)"
    and s: "validate_and_insert y m c = (Ok rs, c1)" "ct_store d = ct_store c1" by auto
  with inserted_is_stored [of y c m rs c1] assms(1,2)
  show "get_for_id_and_kind x (st_db (ct_store d)) (md_id (metadata x m)) (md_kind (metadata x m)) = Ok m"
    by (simp add: same_store same_get same_metadata)
  show "rules_accepted y m c" using s(1) by (rule inserted_was_accepted)
  show "\<exists>ch. i = InCommand (CcBroadcast m ch)" using i by blast
qed

lemma step_stores_broadcast:
  assumes "system_step net x s t" "system_inv net x cfg s"
    "ScBroadcast m \<in> set (ct_swarm (sy_controller t))" "ScBroadcast m \<notin> set (ct_swarm (sy_controller s))"
  shows "takes_in net x m s t"
proof -
  have g: "good_store x (ct_store (sy_controller s))"
    using assms(2) by (simp add: system_inv_def controller_inv_def)
  have turn: "takes_in net x m s t"
    if "same_text x y" "connect_ok y" "loop_turn y now i (sy_controller s) = (r, c)" "sy_controller t = c" for y now i r c
  proof -
    have m: "ScBroadcast m \<in> set (ct_swarm c)" using assms(3) that(4) by simp
    note f = turn_stores_broadcast [OF that(1) g that(3) m assms(4)]
    from f(3) that(3,4) obtain ch
      where "snd (loop_turn y now (InCommand (CcBroadcast m ch)) (sy_controller s)) = sy_controller t"
      by (metis snd_conv)
    with f(1,2) that(1,2,4) assms show ?thesis by (auto simp: takes_in_def holds_premint_def simp del: loop_turn.simps)
  qed
  from assms(1) show ?thesis
  proof (cases rule: system_step.cases)
    case (controller_turns i y now c)
    then show ?thesis by (intro turn [OF controller_turns(5-7)]) simp
  next
    case (controller_panics i y now c)
    then show ?thesis by (intro turn [OF controller_panics(5-7)]) simp
  qed (use assms(3,4) in simp_all)
qed

lemma broadcast_was_stored:
  assumes "system_runs net x s0 s" "system_inv net x cfg s0" "ScBroadcast m \<in> set (ct_swarm (sy_controller s))"
    "ScBroadcast m \<notin> set (ct_swarm (sy_controller s0))"
  shows "\<exists>s1 s2. system_runs net x s0 s1 \<and> takes_in net x m s1 s2 \<and> system_runs net x s2 s"
  using assms
proof (induction rule: system_runs.induct)
  case (runs_step t u)
  show ?case
  proof (cases "ScBroadcast m \<in> set (ct_swarm (sy_controller t))")
    case True
    with runs_step.IH [OF runs_step.prems(1)] runs_step.prems(3) runs_step.hyps(2) show ?thesis
      by (blast intro: system_runs.runs_step)
  next
    case False
    from runs_step.hyps(1) runs_step.prems(1) have "system_inv net x cfg t" by (rule system_runs_inv)
    then have "takes_in net x m t u" using runs_step.hyps(2) runs_step.prems(2) False
      by (blast intro: step_stores_broadcast)
    with runs_step.hyps show ?thesis by (blast intro: system_runs.intros)
  qed
qed simp

text \<open>The rules of a node never change.\<close>

lemma turn_keeps_rules:
  assumes "loop_turn x now i c = (r, d)"
  shows "ct_rules d = ct_rules c"
proof -
  have sync: "ct_rules (snd (request_sync x now c)) = ct_rules c"
    by (simp add: request_sync_def Let_def split_beta send_swarm_def)
  have claim: "ct_rules (snd (handle_event_onchain_claim x pc c)) = ct_rules c" for pc
    by (simp add: handle_event_onchain_claim_def Let_def
        split: chain_inclusion_mode.split prod.split sum.split outcome.split bool.split)
  have "ct_rules (snd (handle_event x schedule ev c)) = ct_rules c" for ev schedule
    using run_sync_frame(2) [of c x schedule] claim
    by (cases ev) (simp_all add: same_but_store_def split_beta send_reply_def split: outcome.split)
  moreover have "ct_rules (snd (handle_command x now cmd c)) = ct_rules c" for cmd
    using sync by (cases "(x, now, cmd, c)" rule: handle_command.cases)
      (simp_all add: Let_def split_beta send_reply_def split: sum.split outcome.split)
  ultimately have "ct_rules (snd (loop_turn x now i c)) = ct_rules c"
    using sync by (cases i) (simp_all add: split_beta split: outcome.split)
  with assms show ?thesis by simp
qed

lemma runs_keep_rules: "system_runs net x s0 s \<Longrightarrow> ct_rules (sy_controller s) = ct_rules (sy_controller s0)"
proof (induction rule: system_runs.induct)
  case (runs_step t u)
  from runs_step.hyps(2) have "ct_rules (sy_controller u) = ct_rules (sy_controller t)"
    by (cases rule: system_step.cases) (auto dest: turn_keeps_rules simp del: loop_turn.simps)
  with runs_step.IH show ?case by simp
qed simp

lemma start_rules: "node_starts x en ks net swarm_of rules cfg s \<Longrightarrow> ct_rules (sy_controller s) = rules"
  by (auto simp: node_starts_def system_start_def start_p2p_services_def controller_new_def
      Let_def split: outcome.splits prod.splits)

text \<open>
  C4. What a started node publishes, apart from its own announcement, is either a claim, and
  then the node checks the chain itself, or a premint under the topic of its kind. Such a
  premint was submitted to the node at some step before: there the rules the node was started
  with were run on it against the node's store and accepted it, and after that step the node's
  own store returned this very premint, and only then the command to publish it was queued.
\<close>

theorem published_was_stored:
  assumes "node_starts x en ks net swarm_of rules cfg s0" "system_runs net x s0 s"
    "(Publish t d, v) \<in> set (sc_calls (sy_swarm s))" "t \<noteq> announce_topic"
  shows "(\<exists>cl. t = claims_topic (PremintName (cl_kind cl)) \<and> claim_to_json net cl = Ok d \<and>
      cfg_chain_inclusion_mode cfg = Check) \<or>
    (\<exists>m s1 s2. t = msg_topic (md_kind (metadata x m)) \<and> to_json x m = Ok d \<and>
      system_runs net x s0 s1 \<and> takes_in net x m s1 s2 \<and> system_runs net x s2 s \<and>
      ct_rules (sy_controller s1) = rules \<and> holds_premint x s2 m)"
proof -
  note inv = node_inv [OF assms(1,2)] and inv0 = start_inv [OF assms(1)]
  have "sanctioned net x cfg (set (sy_taken s)) (Publish t d, v)"
    using inv running_sanctioned assms(3) unfolding system_inv_def by blast
  moreover have "set (sy_taken s) \<subseteq> set (ct_swarm (sy_controller s))"
    using inv by (simp add: system_inv_def channels_ok_def)
  ultimately have "sanctioned net x cfg (set (ct_swarm (sy_controller s))) (Publish t d, v)"
    by (rule sanctioned_mono)
  moreover have "\<forall>cl. ScSendOnchainMintFound cl \<in> set (ct_swarm (sy_controller s)) \<longrightarrow>
      cfg_chain_inclusion_mode cfg = Check"
    using inv by (auto simp: system_inv_def controller_inv_def only_check_mode_announces_def)
  moreover have "\<exists>s1 s2. system_runs net x s0 s1 \<and> takes_in net x m s1 s2 \<and> system_runs net x s2 s \<and>
      ct_rules (sy_controller s1) = rules \<and> holds_premint x s2 m"
    if b: "ScBroadcast m \<in> set (ct_swarm (sy_controller s))" for m
  proof -
    obtain s1 s2 where r: "system_runs net x s0 s1" "takes_in net x m s1 s2" "system_runs net x s2 s"
      using broadcast_was_stored [OF assms(2) inv0 b] start_state(6) [OF assms(1)] by auto
    moreover have "ct_rules (sy_controller s1) = rules"
      using runs_keep_rules [OF r(1)] start_rules [OF assms(1)] by simp
    moreover have "holds_premint x s2 m" using r(2) unfolding takes_in_def by blast
    ultimately show ?thesis by blast
  qed
  ultimately show ?thesis using assms(4) by auto
qed

section \<open>Answering other nodes\<close>

text \<open>What the swarm task is told: the premints the store lists, or nothing after a panic.\<close>

definition rightly_answered :: "ext \<Rightarrow> query_options \<Rightarrow> system \<Rightarrow> controller_answer \<Rightarrow> bool" where
  "rightly_answered x q s answer \<longleftrightarrow>
     (if sy_panicked s then answer = None
      else answer = Some (list_all_with_options x (st_db (ct_store (sy_controller s))) q))"

lemma answer_goes_back:
  assumes "sy_phase s = Answered i answer" "rightly_answered x q s answer"
  shows "\<exists>t. system_runs net x s t \<and> sy_phase t = Looping \<and> rightly_answered x q t answer \<and>
    sy_swarm t = swarm_turn net x (with_answer answer i) (sy_swarm s)"
  using assms system_runs.runs_step [OF system_runs.runs_start system_step.request_answered [OF assms(1)]]
  by (intro exI) (auto simp: rightly_answered_def)

lemma controller_answers:
  assumes "system_inv net x cfg s" "connect_ok x" "sy_phase s = Asking i" "sy_outgoing s = []"
    "turn_events net x (premint_names cfg) i = [EvSyncRequest q ch]" "rp_open ch"
  shows "\<exists>t answer. system_runs net x s t \<and> sy_phase t = Looping \<and> rightly_answered x q t answer \<and>
    sy_swarm t = swarm_turn net x (with_answer answer i) (sy_swarm s)"
  using assms(1,3,4)
proof (induction "sy_events s" arbitrary: s)
  case Nil
  then show ?case by (simp add: system_inv_def channels_ok_def)
next
  case (Cons ev evs)
  have live: "\<not> sy_panicked s" using Cons.prems by (simp add: system_inv_def channels_ok_def)
  let ?i = "InEvent ev []"
  have take: "controller_can_take ?i s" "sy_events (controller_take ?i s) = evs"
    using Cons.hyps(2) [symmetric] by simp_all
  obtain r c where t: "loop_turn x 0 ?i (sy_controller s) = (r, c)" by (cases "loop_turn x 0 ?i (sy_controller s)")
  show ?case
  proof (cases r)
    case Panic
    let ?u = "(controller_take ?i s)\<lparr>sy_controller := c, sy_panicked := True, sy_events := [], sy_phase := Answered i None\<rparr>"
    have "system_step net x s ?u"
      using system_step.controller_panics [OF live Cons.prems(3) take(1) same_text_refl assms(2) t [unfolded Panic], of net]
      by (simp add: Cons.prems(2))
    moreover have "rightly_answered x q ?u None" by (simp add: rightly_answered_def)
    ultimately show ?thesis
      using answer_goes_back [of ?u i None x q net] by (auto intro: runs_first)
  next
    case (Returns u)
    let ?a = "new_answer (sy_controller s) c"
    let ?u = "(controller_take ?i s)\<lparr>sy_controller := c, sy_outgoing := new_commands (sy_controller s) c,
      sy_phase := reply_to ?i ?a (Asking i)\<rparr>"
    have step: "system_step net x s ?u"
      using system_step.controller_turns [OF live Cons.prems(3) take(1) same_text_refl assms(2), of 0 c net] t Returns
      by (simp add: Cons.prems(2))
    show ?thesis
    proof (cases "is_sync_request ev")
      case True
      then obtain p waiting where "asks net x (premint_names cfg) i p" "ev # evs = waiting @ [p]" "no_request waiting"
        using Cons.prems(1,2) Cons.hyps(2) by (auto simp: system_inv_def channels_ok_def)
      with True assms(5) have ev: "ev = EvSyncRequest q ch" by (cases waiting) (auto simp: asks_def)
      have "ct_store c = ct_store (sy_controller s)" using t ev by auto
      then have "rightly_answered x q ?u ?a"
        using sync_request_answer [OF t [unfolded ev] assms(6)] live by (simp add: rightly_answered_def)
      then show ?thesis
        using answer_goes_back [of ?u i ?a x q net] step ev by (auto intro: runs_first)
    next
      case False
      then have p: "sy_phase ?u = Asking i" by (cases ev) simp_all
      have "sy_outgoing ?u = []" using event_no_commands [OF t] by simp
      from Cons.hyps(1) [OF _ _ p this] take(2) system_step_inv [OF step Cons.prems(1)]
      obtain w answer where "system_runs net x ?u w" "sy_phase w = Looping" "rightly_answered x q w answer"
        "sy_swarm w = swarm_turn net x (with_answer answer i) (sy_swarm ?u)" by auto
      with step show ?thesis by (auto intro: runs_first)
    qed
  qed
qed

lemma outgoing_delivered:
  assumes "system_inv net x cfg s" "sy_outgoing s = [] \<or> length (sy_commands s) < channel_capacity"
  shows "\<exists>t. system_runs net x s t \<and> sy_outgoing t = [] \<and> sy_phase t = sy_phase s \<and> sy_swarm t = sy_swarm s"
proof (cases "sy_outgoing s")
  case (Cons cmd cmds)
  then have "cmds = []" using assms(1) by (simp add: system_inv_def channels_ok_def)
  let ?t = "s\<lparr>sy_commands := sy_commands s @ [cmd], sy_outgoing := cmds\<rparr>"
  from Cons assms(2) have "system_step net x s ?t" by (intro system_step.command_sent) simp_all
  then have "system_runs net x s ?t" by (rule runs_first) (rule system_runs.runs_start)
  with \<open>cmds = []\<close> show ?thesis by (intro exI [of _ ?t]) simp
qed (auto intro: system_runs.runs_start)

text \<open>
  C23. A sync request that the swarm task is waiting for is answered, unless the controller is
  itself stuck at a full channel: the node can go on to a state where the swarm task is back in
  its loop and has sent the response, made of the premints the store lists for the query, or of
  an error if the controller panicked over an event before it.
\<close>

theorem request_is_answered:
  assumes "node_starts x en ks net swarm_of rules cfg s0" "system_runs net x s0 s"
    "sy_phase s = Asking (SiEvent (SeRequestResponse (RrRequest j q channel)) None)"
    "sy_outgoing s = [] \<or> length (sy_commands s) < 1024"
  shows "\<exists>t answer. system_runs net x s t \<and> sy_phase t = Looping \<and> rightly_answered x q t answer \<and>
    sy_swarm t = snd (do_call net
      (SendResponse channel (fst (make_sync_response answer j q (sy_swarm s))))
      (snd (make_sync_response answer j q (sy_swarm s))))"
proof -
  note inv = node_inv [OF assms(1,2)]
  have conn: "connect_ok x" using assms(1) by (simp add: node_starts_def)
  obtain t where t: "system_runs net x s t" "sy_outgoing t = []" "sy_phase t = sy_phase s" "sy_swarm t = sy_swarm s"
    using outgoing_delivered [OF inv] assms(4) by (auto simp: channel_capacity_def)
  from t(1) inv have "system_inv net x cfg t" by (rule system_runs_inv)
  from controller_answers [OF this conn _ t(2), of "SiEvent (SeRequestResponse (RrRequest j q channel)) None" q
      "\<lparr>rp_id = j, rp_open = True\<rparr>"] t(3) assms(3)
  obtain u answer where u: "system_runs net x t u" "sy_phase u = Looping" "rightly_answered x q u answer"
    "sy_swarm u = swarm_turn net x (SiEvent (SeRequestResponse (RrRequest j q channel)) answer) (sy_swarm t)"
    by auto
  from u(4) have "sy_swarm u = snd (do_call net
      (SendResponse channel (fst (make_sync_response answer j q (sy_swarm s))))
      (snd (make_sync_response answer j q (sy_swarm s))))"
    by (simp add: t(4) split_beta Let_def)
  with u(2,3) runs_trans [OF u(1) t(1)] show ?thesis by blast
qed

section \<open>Waiting for each other\<close>

text \<open>
  The controller waits for room for a command, the swarm task for the controller: for the answer
  to a sync request, or for room for an event.
\<close>

definition deadlocked :: "system \<Rightarrow> bool" where
  "deadlocked s \<longleftrightarrow> \<not> sy_panicked s \<and> sy_outgoing s \<noteq> [] \<and> channel_capacity \<le> length (sy_commands s) \<and>
     ((\<exists>i. sy_phase s = Asking i) \<or>
      (\<exists>i ev. sy_phase s = Sending i ev) \<and> channel_capacity \<le> length (sy_events s))"

definition stands_still :: "system \<Rightarrow> system \<Rightarrow> bool" where
  "stands_still s t \<longleftrightarrow> sy_swarm t = sy_swarm s \<and> sy_taken t = sy_taken s \<and> sy_heard t = sy_heard s \<and>
     ct_swarm (sy_controller t) = ct_swarm (sy_controller s) \<and>
     ct_replies (sy_controller t) = ct_replies (sy_controller s)"

definition never_recovers :: "net \<Rightarrow> ext \<Rightarrow> system \<Rightarrow> bool" where
  "never_recovers net x s \<longleftrightarrow> (\<forall>t. system_runs net x s t \<longrightarrow> deadlocked t \<and> stands_still s t)"

lemma deadlocked_step:
  assumes "system_step net x s t" "deadlocked s"
  shows "deadlocked t \<and> stands_still s t"
  using assms by (cases rule: system_step.cases) (auto simp: deadlocked_def stands_still_def)

lemma deadlocked_for_ever: "deadlocked s \<Longrightarrow> never_recovers net x s"
proof -
  have "deadlocked t \<and> stands_still s t" if "system_runs net x s t" "deadlocked s" for t
    using that
  proof (induction rule: system_runs.induct)
    case (runs_step t u)
    with deadlocked_step [of net x t u] show ?case by (auto simp: stands_still_def)
  qed (simp add: stands_still_def)
  then show "deadlocked s \<Longrightarrow> never_recovers net x s" by (simp add: never_recovers_def)
qed

text \<open>Commands from outside, which the controller may take before any event.\<close>

lemma announce_sent:
  assumes "\<not> sy_panicked s" "sy_outgoing s = []" "ct_swarm_open (sy_controller s)" "connect_ok x"
  shows "system_step net x s (s\<lparr>sy_controller := (sy_controller s)
      \<lparr>ct_swarm := ct_swarm (sy_controller s) @ [ScAnnounceSelf]\<rparr>, sy_outgoing := [ScAnnounceSelf]\<rparr>)"
  using system_step.controller_turns [OF assms(1,2) _ same_text_refl assms(4),
      of "InCommand CcAnnounceSelf" 0 _ net] assms(3)
  by (simp add: send_swarm_def new_commands_def)

definition standing_by :: "system \<Rightarrow> bool" where
  "standing_by s \<longleftrightarrow> \<not> sy_panicked s \<and> sy_outgoing s = [] \<and> ct_swarm_open (sy_controller s) \<and>
     (\<exists>i. sy_phase s = Asking i)"

lemma fill_commands:
  assumes "connect_ok x" "standing_by s" "length (sy_commands s) + n \<le> channel_capacity"
  shows "\<exists>t. system_runs net x s t \<and> standing_by t \<and> length (sy_commands t) = length (sy_commands s) + n"
  using assms(2,3)
proof (induction n arbitrary: s)
  case (Suc n)
  let ?a = "s\<lparr>sy_controller := (sy_controller s)
      \<lparr>ct_swarm := ct_swarm (sy_controller s) @ [ScAnnounceSelf]\<rparr>, sy_outgoing := [ScAnnounceSelf]\<rparr>"
  let ?b = "?a\<lparr>sy_commands := sy_commands ?a @ [ScAnnounceSelf], sy_outgoing := []\<rparr>"
  have a: "system_step net x s ?a"
    using Suc.prems(1) assms(1) by (intro announce_sent) (simp_all add: standing_by_def)
  have b: "system_step net x ?a ?b"
    using Suc.prems(2) by (intro system_step.command_sent) simp_all
  have "standing_by ?b" using Suc.prems(1) by (simp add: standing_by_def)
  then obtain t where t: "system_runs net x ?b t" "standing_by t" "length (sy_commands t) = length (sy_commands ?b) + n"
    using Suc.IH [of ?b] Suc.prems(2) by auto
  from runs_first [OF a runs_first [OF b t(1)]] t(2,3) show ?case by (intro exI [of _ t]) simp
qed (auto intro: system_runs.runs_start)

text \<open>A peer asks for premints.\<close>

lemma request_arrives:
  assumes "node_starts x en ks net swarm_of rules cfg s0"
  shows "\<exists>s. system_runs net x s0 s \<and> standing_by s \<and> sy_commands s = [] \<and>
    sy_phase s = Asking (SiEvent (SeRequestResponse (RrRequest j q channel)) None)"
proof -
  let ?i = "SiEvent (SeRequestResponse (RrRequest j q channel)) None"
  let ?ev = "EvSyncRequest q \<lparr>rp_id = j, rp_open = True\<rparr>"
  note s0 = start_state [OF assms]
  let ?a = "s0\<lparr>sy_phase := Sending ?i ?ev\<rparr>" and ?b = "s0\<lparr>sy_events := [?ev], sy_phase := Asking ?i\<rparr>"
  have "system_step net x s0 ?a"
    using system_step.swarm_offers [of s0 ?i net x ?ev] s0 by (simp add: events_sent_eq)
  from system_runs.runs_step [OF system_runs.runs_start this] have "system_runs net x s0 ?a" .
  moreover have "system_step net x ?a ?b"
    using system_step.request_sent [of ?a ?i ?ev net x] s0 by (simp add: channel_capacity_def)
  ultimately have "system_runs net x s0 ?b" by (rule system_runs.runs_step)
  with s0 show ?thesis by (intro exI [of _ ?b]) (simp add: standing_by_def)
qed

lemma deadlock_arrives:
  assumes "node_starts x en ks net swarm_of rules cfg s0"
  shows "\<exists>s. system_runs net x s0 s \<and> deadlocked s"
proof -
  have conn: "connect_ok x" using assms by (simp add: node_starts_def)
  obtain s where s: "system_runs net x s0 s" "standing_by s" "sy_commands s = []"
    using request_arrives [OF assms] by blast
  obtain t where t: "system_runs net x s t" "standing_by t" "length (sy_commands t) = channel_capacity"
    using fill_commands [OF conn s(2), of channel_capacity net] s(3) by auto
  let ?u = "t\<lparr>sy_controller := (sy_controller t)
      \<lparr>ct_swarm := ct_swarm (sy_controller t) @ [ScAnnounceSelf]\<rparr>, sy_outgoing := [ScAnnounceSelf]\<rparr>"
  have "system_step net x t ?u"
    using t(2) conn by (intro announce_sent) (simp_all add: standing_by_def)
  with runs_trans [OF t(1) s(1)] have "system_runs net x s0 ?u" by (rule system_runs.runs_step)
  moreover have "deadlocked ?u" using t(2,3) by (auto simp: deadlocked_def standing_by_def)
  ultimately show ?thesis by blast
qed

text \<open>
  C36. The two tasks of a node can come to wait for each other for ever: while the swarm task
  waits for the answer to a peer's sync request, 1025 commands that the controller takes first
  fill the channel to the swarm task, and from then on neither task does anything more,
  whatever happens around it.
\<close>

theorem node_can_deadlock:
  assumes "node_starts x en ks net swarm_of rules cfg s0"
  shows "\<exists>s. system_runs net x s0 s \<and> deadlocked s \<and> never_recovers net x s"
  using deadlock_arrives [OF assms] deadlocked_for_ever by blast

end
