(* ===== verification/SystemRuns.thy ===== *)
theory SystemRuns
  imports SystemProps
begin

text \<open>
  The properties of a running node at concrete inputs: a node with an empty database and the
  default rules, whose swarm accepts every call.
\<close>

section \<open>A node to run\<close>

definition sample_engine :: engine where
  "sample_engine = \<lparr>db_connect = (\<lambda>url. Ok sample_pool), db_migrate = (\<lambda>db. Ok db)\<rparr>"

definition sample_keys :: keys where
  "sample_keys = \<lparr>hex_decode = (\<lambda>s. Ok []), ed25519_from_bytes = (\<lambda>bs. Ok ''alice'')\<rparr>"

definition sample_node_starts :: "system \<Rightarrow> bool" where
  "sample_node_starts =
     node_starts sample_ext sample_engine sample_keys sample_net (\<lambda>key. sample_view key [''bob''])
       default_rules (sample_config Check)"

lemma sample_node: "\<exists>c. sample_node_starts (system_start (sample_controller Check (sample_store False)) c)"
proof -
  let ?cfg = "sample_config Check"
  obtain c where c: "swarm_start sample_net (cfg_peer_port ?cfg) (initial_network_ip ?cfg)
      (swarm_new sample_net ?cfg (sample_view ''alice'' [''bob''])) = (Ok (), c)"
    using sample_start by blast
  have "make_keypair sample_keys ?cfg = Ok ''alice''"
    by (simp add: make_keypair_def sample_keys_def)
  moreover have "storage_new sample_engine ?cfg = Returns (sample_store False)"
    by (simp add: storage_new_def init_db_def expect_def sample_engine_def sample_config_def
        config_test_default_def sample_store_def)
  moreover have "boot_commands sample_ext Map.empty ?cfg = ([], Map.empty)"
    by (simp add: boot_commands_def sample_config_def config_test_default_def)
  moreover have "(controller_new ?cfg (sample_store False) default_rules)\<lparr>ct_chains := Map.empty\<rparr> =
      sample_controller Check (sample_store False)"
    by (simp add: sample_controller_def controller_new_def)
  ultimately have "sample_node_starts (system_start (sample_controller Check (sample_store False)) c)"
    using c by (simp add: sample_node_starts_def node_starts_def start_p2p_services_def expect_def)
  then show ?thesis by blast
qed

theorem node_can_deadlock_witness:
  "\<exists>s0 s. sample_node_starts s0 \<and> system_runs sample_net sample_ext s0 s \<and> deadlocked s"
  using sample_node node_can_deadlock unfolding sample_node_starts_def by blast

theorem request_is_answered_witness:
  "\<exists>s0 s t answer. sample_node_starts s0 \<and> system_runs sample_net sample_ext s0 s \<and>
     system_runs sample_net sample_ext s t \<and>
     sy_phase s = Asking (SiEvent (SeRequestResponse (RrRequest 7 query_options_default 5)) None) \<and>
     sy_phase t = Looping \<and> rightly_answered sample_ext query_options_default t answer"
proof -
  obtain s0 where s0: "sample_node_starts s0" using sample_node by blast
  then have n: "node_starts sample_ext sample_engine sample_keys sample_net (\<lambda>key. sample_view key [''bob''])
       default_rules (sample_config Check) s0" by (simp add: sample_node_starts_def)
  obtain s where s: "system_runs sample_net sample_ext s0 s" "standing_by s"
    "sy_phase s = Asking (SiEvent (SeRequestResponse (RrRequest 7 query_options_default 5)) None)"
    using request_arrives [OF n] by blast
  have "sy_outgoing s = [] \<or> length (sy_commands s) < 1024" using s(2) by (simp add: standing_by_def)
  from request_is_answered [OF n s(1,3) this] s0 s(1,3) show ?thesis by blast
qed

section \<open>A premint on its way\<close>

lemma sample_publishes: "\<exists>d v. (Publish (msg_topic (md_kind (metadata sample_ext m))) d, v) \<in>
    set (sc_calls (snd (broadcast_message sample_net sample_ext m c)))"
proof -
  obtain d where "premint_to_json sample_ext m = Ok d" using sample_serde_ok serde_okE by blast
  then show ?thesis by (auto simp: broadcast_message_def to_json_def Let_def)
qed

text \<open>The premint is submitted, waits in the channel, and is published.\<close>

lemma sample_submit: "\<exists>s0 t c. sample_node_starts s0 \<and> sy_commands s0 = [] \<and> sy_taken s0 = [] \<and>
    view sample_ext (ct_store (sy_controller s0)) = Map.empty \<and> system_step sample_net sample_ext s0 t \<and>
    t = s0\<lparr>sy_controller := c, sy_outgoing := [ScBroadcast (ZoraV2 signed_v2)]\<rparr> \<and> sy_phase t = Looping \<and>
    holds_premint sample_ext t (ZoraV2 signed_v2) \<and> sy_controller s0 = sample_controller Check (sample_store False) \<and>
    ct_store (sy_controller t) = ct_store (snd (validate_and_insert sample_ext (ZoraV2 signed_v2) (sy_controller s0)))"
proof -
  let ?c = "sample_controller Check (sample_store False)" and ?m = "ZoraV2 signed_v2"
  obtain sw where s0: "sample_node_starts (system_start ?c sw)" using sample_node by blast
  let ?start = "system_start ?c sw"
  let ?i = "InCommand (CcBroadcast ?m \<lparr>rp_id = 4, rp_open = False\<rparr>)"
  obtain rs c1 where v: "validate_and_insert sample_ext ?m ?c = (Ok rs, c1)"
    using signed_as_stored [of "CHR ''A''" 0 Check False]
    by (cases "validate_and_insert sample_ext ?m ?c") (auto simp: is_ok_iff)
  have f: "ct_swarm c1 = []" "ct_swarm_open c1" using validate_frame [of sample_ext ?m ?c] v by simp_all
  let ?d = "c1\<lparr>ct_swarm := [ScBroadcast ?m]\<rparr>"
  let ?t = "?start\<lparr>sy_controller := ?d, sy_outgoing := [ScBroadcast ?m]\<rparr>"
  have "loop_turn sample_ext 0 ?i ?c = (Returns (), ?d)"
    by (simp add: v f send_swarm_def reply_or_fail_def send_reply_def)
  with system_step.controller_turns [of ?start ?i sample_ext sample_ext 0 ?d sample_net]
  have "system_step sample_net sample_ext ?start ?t"
    by (simp add: system_start_def new_commands_def del: loop_turn.simps)
  moreover have "holds_premint sample_ext ?t ?m"
    using inserted_is_stored [OF _ v] by (simp add: holds_premint_def)
  ultimately show ?thesis using s0
    by (intro exI [of _ ?start] exI [of _ ?t] exI [of _ ?d]) (simp add: system_start_def v)
qed

lemma sample_broadcast: "\<exists>s0 s t d v. sample_node_starts s0 \<and>
    system_runs sample_net sample_ext s0 s \<and> sy_commands s = [ScBroadcast (ZoraV2 signed_v2)] \<and> sy_taken s = [] \<and>
    system_runs sample_net sample_ext s t \<and>
    (Publish (msg_topic (md_kind (metadata sample_ext (ZoraV2 signed_v2)))) d, v) \<in> set (sc_calls (sy_swarm t))"
proof -
  let ?m = "ZoraV2 signed_v2"
  obtain s0 a c where a: "sample_node_starts s0" "sy_commands s0 = []" "sy_taken s0 = []"
    "system_step sample_net sample_ext s0 a" "a = s0\<lparr>sy_controller := c, sy_outgoing := [ScBroadcast ?m]\<rparr>"
    "sy_phase a = Looping" using sample_submit by blast
  let ?s = "a\<lparr>sy_commands := sy_commands a @ [ScBroadcast ?m], sy_outgoing := []\<rparr>"
  have b: "system_step sample_net sample_ext a ?s"
    using a(2,5) by (intro system_step.command_sent) (simp_all add: channel_capacity_def)
  let ?j = "SiCommand (ScBroadcast ?m) 0"
  have "events_sent sample_net sample_ext ?j (swarm_now ?s) = []" by (simp add: events_sent_eq)
  then have c: "system_step sample_net sample_ext ?s
      ((swarm_take ?j ?s)\<lparr>sy_swarm := swarm_turn sample_net sample_ext ?j (swarm_now ?s)\<rparr>)"
    using a(2,5,6) by (intro system_step.swarm_turns) simp_all
  have "\<exists>d v. (Publish (msg_topic (md_kind (metadata sample_ext ?m))) d, v) \<in>
      set (sc_calls (swarm_turn sample_net sample_ext ?j (swarm_now ?s)))"
    using sample_publishes [of ?m "swarm_now ?s"] by auto
  moreover have "system_runs sample_net sample_ext s0 ?s"
    using runs_first [OF a(4) runs_first [OF b system_runs.runs_start]] .
  ultimately show ?thesis
    using a(1,2,3,5) runs_first [OF c system_runs.runs_start] by fastforce
qed

theorem channels_keep_order_witness:
  "\<exists>s0 s. sample_node_starts s0 \<and> system_runs sample_net sample_ext s0 s \<and>
     sy_commands s = [ScBroadcast (ZoraV2 signed_v2)] \<and>
     ct_swarm (sy_controller s) = [ScBroadcast (ZoraV2 signed_v2)] @ sy_outgoing s"
proof -
  obtain s0 s where s: "sample_node_starts s0" "system_runs sample_net sample_ext s0 s"
    "sy_commands s = [ScBroadcast (ZoraV2 signed_v2)]" "sy_taken s = []" using sample_broadcast by blast
  then have "ct_swarm (sy_controller s) = sy_taken s @ sy_commands s @ sy_outgoing s"
    using channels_keep_order [OF s(1) [unfolded sample_node_starts_def] s(2)] by blast
  with s show ?thesis by auto
qed

theorem published_was_stored_witness:
  "\<exists>s0 s1 s2 s m d v. sample_node_starts s0 \<and> system_runs sample_net sample_ext s0 s1 \<and>
     takes_in sample_net sample_ext m s1 s2 \<and> ct_rules (sy_controller s1) = default_rules \<and>
     system_runs sample_net sample_ext s2 s \<and> to_json sample_ext m = Ok d \<and>
     (Publish (msg_topic (md_kind (metadata sample_ext (ZoraV2 signed_v2)))) d, v) \<in> set (sc_calls (sy_swarm s))"
proof -
  let ?t = "msg_topic (md_kind (metadata sample_ext (ZoraV2 signed_v2)))"
  obtain s0 s t d v where s: "sample_node_starts s0" "system_runs sample_net sample_ext s0 s"
    "system_runs sample_net sample_ext s t" "(Publish ?t d, v) \<in> set (sc_calls (sy_swarm t))"
    using sample_broadcast by blast
  from runs_trans [OF s(3,2)] have r: "system_runs sample_net sample_ext s0 t" .
  show ?thesis
    using published_was_stored [OF s(1) [unfolded sample_node_starts_def] r s(4) topics_differ(1)] s(1,4)
      topics_differ(3) by metis
qed

end
