(* ===== verification/Writes.thy ===== *)
theory Writes
  imports ControllerProps
begin

text \<open>
  What the turns of the controller do to its store: they store premints that were submitted or
  received, and they mark premints as minted, which only two kinds of input lead to.
\<close>

section \<open>Storing premints of a set\<close>

inductive stored_by :: "ext \<Rightarrow> premint_types set \<Rightarrow> premint_storage \<Rightarrow> premint_storage \<Rightarrow> bool"
  for x :: ext and A :: "premint_types set" and s :: premint_storage where
  stored_nothing: "stored_by x A s s"
| stored_more: "stored_by x A s t \<Longrightarrow> p \<in> A \<Longrightarrow> stored_by x A s (snd (store x t p))"

lemma stored_refl [simp]: "stored_by x A s s"
  by (rule stored_nothing)

lemma stored_trans: "stored_by x A t u \<Longrightarrow> stored_by x A s t \<Longrightarrow> stored_by x A s u"
  by (induction rule: stored_by.induct) (auto intro: stored_by.intros)

lemma stored_store: "p \<in> A \<Longrightarrow> stored_by x A s (snd (store x s p))"
  by (rule stored_more) simp_all

lemma stored_mono: "stored_by x A s t \<Longrightarrow> A \<subseteq> B \<Longrightarrow> stored_by x B s t"
  by (induction rule: stored_by.induct) (auto intro: stored_by.intros)

lemma stored_insert: "p \<in> A \<Longrightarrow> stored_by x A (ct_store c) (ct_store (snd (validate_and_insert x p c)))"
  using stored_store [of p A x "ct_store c"]
  by (auto simp: validate_and_insert_def split: prod.split sum.split)

lemma stored_refused:
  "fst (validate_and_insert x p c) = Err e \<Longrightarrow> ct_store (snd (validate_and_insert x p c)) = ct_store c"
  using db.put_Err [of x "ct_store c" p]
  by (auto simp: validate_and_insert_def split: prod.splits sum.splits if_splits)

section \<open>The tasks of a sync response\<close>

fun task_premints :: "sync_task \<Rightarrow> premint_types set" where
  "task_premints (Queued p) = {p}"
| "task_premints (Found p r) = {p}"
| "task_premints (Evaluated p rs) = {p}"
| "task_premints Finished = {}"

lemma stored_advance_task:
  "task_premints t \<subseteq> A \<Longrightarrow> stored_by x A (ct_store c) (ct_store (snd (advance_task x w t c))) \<and>
     task_premints (fst (advance_task x w t c)) \<subseteq> A"
  by (cases "(x, w, t, c)" rule: advance_task.cases) (auto simp: stored_store split: prod.split)

lemma stored_advance:
  assumes "\<forall>t\<in>set (fst st). task_premints t \<subseteq> A"
  shows "stored_by x A (ct_store (snd st)) (ct_store (snd (advance x i st))) \<and>
    (\<forall>t\<in>set (fst (advance x i st)). task_premints t \<subseteq> A)"
proof -
  obtain ts c where st: "st = (ts, c)" by (cases st)
  show ?thesis
  proof (cases "i < length ts")
    case True
    let ?t = "advance_task x (length (filter holds_permit ts)) (ts ! i) c"
    from True assms have "task_premints (ts ! i) \<subseteq> A" by (simp add: st)
    from stored_advance_task [OF this, of x c "length (filter holds_permit ts)"]
    have g: "stored_by x A (ct_store c) (ct_store (snd ?t))" "task_premints (fst ?t) \<subseteq> A" by simp_all
    have "\<forall>t\<in>set (ts[i := fst ?t]). task_premints t \<subseteq> A"
      using set_update_subset_insert [of ts i "fst ?t"] assms g(2) by (auto simp: st)
    with g(1) True show ?thesis by (simp add: st advance_simps)
  qed (use assms in \<open>simp add: st advance_simps\<close>)
qed

lemma stored_sync: "stored_by x (set ps) (ct_store c) (ct_store (snd (run_sync x schedule ps c)))"
proof -
  have "stored_by x A (ct_store (snd st)) (ct_store (snd (fold (advance x) is st)))"
    if "\<forall>t\<in>set (fst st). task_premints t \<subseteq> A" for A "is" st
    using that
  proof (induction "is" arbitrary: st)
    case (Cons i "is")
    from stored_advance [OF Cons.prems, of x i] Cons.IH [of "advance x i st"] show ?case
      by (auto intro: stored_trans)
  qed simp
  from this [of "(map Queued ps, c)" "set ps"] show ?thesis by (simp add: run_sync_def del: fold_append)
qed

section \<open>The turns\<close>

text \<open>The premints an event brings.\<close>

fun event_premints :: "p2p_event \<Rightarrow> premint_types set" where
  "event_premints (EvPremintReceived p) = {p}"
| "event_premints (EvSyncResponse ps) = set ps"
| "event_premints _ = {}"

fun input_premints :: "controller_input \<Rightarrow> premint_types set" where
  "input_premints (InEvent ev schedule) = event_premints ev"
| "input_premints _ = {}"

definition submitted :: "controller \<Rightarrow> premint_types set" where
  "submitted c = {m. ScBroadcast m \<in> set (ct_swarm c)}"

text \<open>The claim an input is about.\<close>

fun input_claim :: "controller_input \<Rightarrow> inclusion_claim option" where
  "input_claim (InCommand (CcResolveOnchainMint claim)) = Some claim"
| "input_claim (InEvent (EvMintSeenOnchain peer_claim) schedule) = Some (pc_claim peer_claim)"
| "input_claim _ = None"

lemma claim_marks:
  "ct_store (snd (handle_event_onchain_claim x pc c)) = ct_store c \<or>
   ct_store (snd (handle_event_onchain_claim x pc c)) = snd (mark_seen_on_chain x (ct_store c) (pc_claim pc))"
  by (auto simp: handle_event_onchain_claim_def Let_def
      split: chain_inclusion_mode.split prod.split sum.split outcome.split bool.split)

lemma turn_marks:
  assumes "input_claim i = Some cl"
  shows "ct_store (snd (loop_turn x now i c)) = ct_store c \<or>
    ct_store (snd (loop_turn x now i c)) = snd (mark_seen_on_chain x (ct_store c) cl)"
proof (cases i rule: input_claim.cases)
  case (2 pc schedule)
  with assms have "snd (loop_turn x now i c) = snd (handle_event_onchain_claim x pc c)" "cl = pc_claim pc"
    by (simp_all split: prod.split outcome.split)
  with claim_marks [of x pc c] show ?thesis by simp
qed (use assms in \<open>simp_all add: Let_def split_beta\<close>)

text \<open>The premint a turn was told to broadcast, which it sends on once it has accepted it.\<close>

definition inserted :: "controller_input \<Rightarrow> controller \<Rightarrow> controller \<Rightarrow> premint_types set" where
  "inserted i c d = {m. (\<exists>ch. i = InCommand (CcBroadcast m ch)) \<and> (ct_swarm_open c \<longrightarrow> m \<in> submitted d)}"

lemma turn_stores:
  assumes "input_claim i = None"
  shows "stored_by x (input_premints i \<union> inserted i c (snd (loop_turn x now i c))) (ct_store c)
    (ct_store (snd (loop_turn x now i c)))"
proof (cases i)
  case (InCommand cmd)
  then have h: "snd (loop_turn x now i c) = snd (handle_command x now cmd c)"
    by (simp add: split_beta split: outcome.split)
  show ?thesis
  proof (cases cmd)
    case (CcBroadcast m ch)
    obtain r c1 where v: "validate_and_insert x m c = (r, c1)" by (cases "validate_and_insert x m c")
    then have o: "ct_swarm_open c1 = ct_swarm_open c" using validate_frame(2) [of x m c] by simp
    have st: "ct_store (snd (handle_command x now cmd c)) = ct_store c1"
      by (simp add: CcBroadcast v split_beta Let_def split: sum.split)
    show ?thesis
    proof (cases r)
      case (Inl e)
      with stored_refused [of x m c e] v st h show ?thesis by simp
    next
      case (Inr rs)
      then have "m \<in> inserted i c (snd (handle_command x now cmd c))"
        by (simp add: InCommand CcBroadcast v o split_beta Let_def send_swarm_def submitted_def inserted_def)
      with stored_insert [of m "input_premints i \<union> inserted i c (snd (loop_turn x now i c))" x c] v st h show ?thesis
        by simp
    qed
  next
    case (CcQuery q)
    then show ?thesis unfolding h by (cases q) simp_all
  next
    case CcSync
    then show ?thesis unfolding h by (simp add: request_sync_frame split_beta split: outcome.split)
  qed (use assms(1) InCommand h in \<open>simp_all add: Let_def split_beta\<close>)
next
  case (InEvent ev schedule)
  then show ?thesis using assms(1) stored_sync [of x _ c schedule]
    by (cases ev) (auto intro: stored_mono stored_insert)
next
  case InTick
  then show ?thesis using request_sync_frame(1) [of x now c] by simp
qed

end
