(* ===== verification/Network.thy ===== *)
theory Network
  imports SystemRuns Writes
begin

text \<open>
  Nodes that talk to each other: any number of running nodes, where what reaches a node over
  gossip was published by one of them and what answers its sync requests was sent by one of
  them. The question is where the premints in their stores come from.
\<close>

section \<open>The premints a store keeps\<close>

definition kept :: "ext \<Rightarrow> premint_storage \<Rightarrow> premint_types set" where
  "kept x s = en_premint ` ran (view x s)"

lemma keptI: "view x s k = Some e \<Longrightarrow> en_premint e \<in> kept x s"
  unfolding kept_def by (intro imageI ranI)

lemma kept_put:
  assumes "good_store x s"
  shows "kept x (snd (store x s p)) \<subseteq> insert p (kept x s)"
proof (cases "fst (store x s p)")
  case (Inl r)
  then show ?thesis by (auto simp: db.put_Err)
next
  case (Inr u)
  with db.put_Ok [OF assms, of p] show ?thesis
    by (auto simp: kept_def ran_def spec_put_def image_iff split: if_splits option.splits)
qed

lemma kept_mark:
  assumes "good_store x s"
  shows "kept x (snd (mark_seen_on_chain x s cl)) \<subseteq> kept x s"
proof (cases "db_up s")
  case True
  with db.mark_law [OF assms True, of cl] show ?thesis
    by (auto simp: kept_def ran_def spec_mark_def image_iff split: option.splits if_splits) (metis entry.select_convs(1) entry.surjective entry.update_convs(2))+
next
  case False
  with db.mark_Err [of s x cl] show ?thesis by simp
qed

lemma kept_listed:
  assumes "good_store x s" "list_all_with_options x (st_db s) q = Ok ps"
  shows "set ps \<subseteq> kept x s"
proof -
  have ok: "store_ok x s" using assms(1) by (simp add: good_store_def)
  from assms(2) obtain rs where rs: "db_fetch_all (st_db s) (query_selects (build_query x q)) = Ok rs"
    "ps = decode_rows x rs"
    by (auto simp: list_all_with_options_def split: sum.splits)
  have sub: "set rs \<subseteq> set (db_rows (st_db s))"
    using rs(1) ok by (auto simp: db_fetch_all_def scan_set store_ok_def db_ok_def split: option.splits)
  have "en_premint (row_entry x r) \<in> kept x s" if "r \<in> set (db_rows (st_db s))" for r
    using view_row [OF ok that] by (rule keptI)
  moreover have ps: "ps = map (\<lambda>r. en_premint (row_entry x r)) rs"
    unfolding rs(2) using ok sub by (intro decode_rows_ok) (auto simp: store_ok_def db_ok_def)
  ultimately show ?thesis using sub by auto
qed

section \<open>What a turn of the controller adds\<close>

text \<open>A store changed by writes that store premints of \<open>A\<close> only.\<close>

definition gains :: "ext \<Rightarrow> premint_types set \<Rightarrow> premint_storage \<Rightarrow> premint_storage \<Rightarrow> bool" where
  "gains x A s s' \<longleftrightarrow> (good_store x s \<longrightarrow> good_store x s' \<and> kept x s' \<subseteq> kept x s \<union> A)"

lemma gains_refl [simp]: "gains x A s s"
  by (simp add: gains_def)

lemma gains_trans: "gains x A s t \<Longrightarrow> gains x A t u \<Longrightarrow> gains x A s u"
  by (auto simp: gains_def)

lemma gains_stored: "stored_by x A s t \<Longrightarrow> gains x A s t"
proof (induction rule: stored_by.induct)
  case (stored_more t p)
  have "gains x A t (snd (store x t p))"
    using stored_more.hyps(2) kept_put [of x t p] by (auto simp: gains_def db.put_good)
  with stored_more.IH show ?case by (rule gains_trans)
qed simp

lemma gains_mark: "gains x A s (snd (mark_seen_on_chain x s cl))"
  using kept_mark [of x s cl] by (auto simp: gains_def db.mark_good)

lemma gains_turn:
  assumes "ct_swarm_open c" "loop_turn x now i c = (r, d)"
  shows "gains x (input_premints i \<union> submitted d) (ct_store c) (ct_store d)"
proof (cases "input_claim i")
  case None
  have "inserted i c d \<subseteq> submitted d" using assms(1) by (auto simp: inserted_def)
  with turn_stores [OF None, of x c now] assms(2) show ?thesis
    by (auto intro!: gains_stored elim!: stored_mono)
next
  case (Some cl)
  then show ?thesis using turn_marks [OF Some, of x now c] assms(2) gains_mark [of x _ "ct_store c" cl] by auto
qed

lemma turn_keeps_open:
  assumes "loop_turn x now i c = (r, d)"
  shows "ct_swarm_open d = ct_swarm_open c"
proof -
  have sync: "ct_swarm_open (snd (request_sync x now c)) = ct_swarm_open c"
    by (simp add: request_sync_def Let_def split_beta send_swarm_def)
  have claim: "ct_swarm_open (snd (handle_event_onchain_claim x pc c)) = ct_swarm_open c" for pc
    by (simp add: handle_event_onchain_claim_def Let_def
        split: chain_inclusion_mode.split prod.split sum.split outcome.split bool.split)
  have "ct_swarm_open (snd (handle_event x schedule ev c)) = ct_swarm_open c" for ev schedule
    using run_sync_frame(2) [of c x schedule] claim
    by (cases ev) (simp_all add: same_but_store_def split_beta split: outcome.split)
  moreover have "ct_swarm_open (snd (handle_command x now cmd c)) = ct_swarm_open c" for cmd
    using sync by (cases "(x, now, cmd, c)" rule: handle_command.cases)
      (simp_all add: Let_def split_beta split: sum.split outcome.split)
  ultimately have "ct_swarm_open (snd (loop_turn x now i c)) = ct_swarm_open c"
    using sync by (cases i) (simp_all add: split_beta split: outcome.split)
  with assms show ?thesis by simp
qed

text \<open>What the controller answers to a sync request, it keeps.\<close>

lemma answer_is_kept:
  assumes "good_store x (ct_store c)" "loop_turn x now (InEvent (EvSyncRequest q ch) schedule) c = (r, d)"
    "new_answer c d = Some (Inr ps)"
  shows "set ps \<subseteq> kept x (ct_store c)"
proof -
  have d: "d = snd (send_reply ch (ReplyPremints (list_all_with_options x (st_db (ct_store c)) q)) c)"
    using assms(2) by simp
  then have "list_all_with_options x (st_db (ct_store c)) q = Ok ps"
    using assms(3) by (auto simp: new_answer_def split: if_splits)
  with kept_listed [OF assms(1)] show ?thesis by blast
qed

section \<open>Where premints are in a node\<close>

fun phase_clean :: "premint_types set \<Rightarrow> swarm_phase \<Rightarrow> bool" where
  "phase_clean A (Sending i ev) \<longleftrightarrow> event_premints ev \<subseteq> A"
| "phase_clean A (Answered i (Some (Inr ps))) \<longleftrightarrow> set ps \<subseteq> A"
| "phase_clean A _ \<longleftrightarrow> True"

text \<open>The premints of a node, in its store, in its channel and in its responses, are all in \<open>A\<close>.\<close>

definition clean :: "ext \<Rightarrow> premint_types set \<Rightarrow> system \<Rightarrow> bool" where
  "clean x A s \<longleftrightarrow> kept x (ct_store (sy_controller s)) \<subseteq> A \<and>
     (\<forall>ev\<in>set (sy_events s). event_premints ev \<subseteq> A) \<and> phase_clean A (sy_phase s) \<and>
     (\<forall>ps. SrPremints ps \<in> set (responses_sent (sy_swarm s)) \<longrightarrow> set ps \<subseteq> A)"

lemma phase_clean_mono: "phase_clean A ph \<Longrightarrow> A \<subseteq> B \<Longrightarrow> phase_clean B ph"
  by (cases "(A, ph)" rule: phase_clean.cases) auto

lemma clean_mono: "clean x A s \<Longrightarrow> A \<subseteq> B \<Longrightarrow> clean x B s"
  unfolding clean_def using phase_clean_mono by blast

lemma response_premints:
  "SrPremints ps \<in> set (responses_for b ev answer) \<Longrightarrow> b \<and> answer = Some (Inr ps)"
  by (cases "(b, ev, answer)" rule: responses_for.cases; cases "(b, answer)" rule: response_to.cases) auto

lemma turn_response_premints:
  "SrPremints ps \<in> set (turn_responses b i) \<Longrightarrow> b"
  "SrPremints ps \<in> set (turn_responses b (with_answer a i)) \<Longrightarrow> a = Some (Inr ps)"
  using response_premints by (cases i; fastforce)+

lemma event_responses: "event_for net x names ev = [] \<or> \<not> is_sync_request (hd (event_for net x names ev)) \<Longrightarrow>
    responses_for b ev answer = []"
  by (cases "(b, ev, answer)" rule: responses_for.cases) auto

lemma turn_no_responses:
  "turn_events net x names i = [] \<Longrightarrow> turn_responses b i = []"
  "turn_events net x names i = [ev] \<Longrightarrow> \<not> is_sync_request ev \<Longrightarrow> turn_responses b i = []"
  using event_responses [of net x names _ b] by (cases i; auto)+

lemma responses_turn:
  "responses_sent (swarm_turn net x inp c) = responses_sent c @ turn_responses (sc_events_open c) inp"
  using talks_turn [of net x c inp] by (simp add: talks_def)

lemma responses_now [simp]: "responses_sent (swarm_now s) = responses_sent (sy_swarm s)"
  by (simp add: swarm_now_def)

lemma same_kept: "same_text x y \<Longrightarrow> kept y = kept x" "same_text x y \<Longrightarrow> gains y = gains x"
  by (intro HOL.ext; simp add: kept_def gains_def same_store(3,4))+

lemma clean_controller_turns:
  assumes "clean x A s" "good_store x (ct_store (sy_controller s))" "ct_swarm_open (sy_controller s)"
    "controller_can_take i s" "same_text x y" "loop_turn y now i (sy_controller s) = (r, c)"
    "submitted c \<subseteq> A"
  shows "kept x (ct_store c) \<subseteq> A" "ct_swarm_open c"
    "\<forall>ev\<in>set (sy_events (controller_take i s)). event_premints ev \<subseteq> A"
    "phase_clean A (reply_to i (new_answer (sy_controller s) c) (sy_phase s))"
proof -
  have "input_premints i \<subseteq> A" using assms(1,4) by (cases i) (auto simp: clean_def)
  moreover have "gains x (input_premints i \<union> submitted c) (ct_store (sy_controller s)) (ct_store c)"
    using gains_turn [OF assms(3,6)] by (simp add: same_kept [OF assms(5)])
  ultimately show "kept x (ct_store c) \<subseteq> A"
    using assms(1,2,7) by (auto simp: gains_def clean_def)
  show "ct_swarm_open c" using turn_keeps_open [OF assms(6)] assms(3) by simp
  show "\<forall>ev\<in>set (sy_events (controller_take i s)). event_premints ev \<subseteq> A"
    using assms(1,4) by (cases i) (auto simp: clean_def dest: list.set_sel(2))
  show "phase_clean A (reply_to i (new_answer (sy_controller s) c) (sy_phase s))"
  proof (cases "(i, new_answer (sy_controller s) c, sy_phase s)" rule: reply_to.cases)
    case (1 q ch schedule answer inp)
    then have i: "i = InEvent (EvSyncRequest q ch) schedule" by simp
    have "set ps \<subseteq> A" if "answer = Some (Inr ps)" for ps
    proof -
      have "good_store y (ct_store (sy_controller s))" using assms(2,5) by (simp add: same_store(3))
      from answer_is_kept [OF this assms(6) [unfolded i], of ps] that 1
      have "set ps \<subseteq> kept y (ct_store (sy_controller s))" by simp
      with assms(1) show ?thesis by (auto simp: clean_def same_kept [OF assms(5)])
    qed
    with 1 show ?thesis by (cases "(A, Answered inp answer)" rule: phase_clean.cases) auto
  qed (use assms(1) in \<open>auto simp: clean_def\<close>)
qed

lemma clean_step:
  assumes "system_step net x s t" "system_inv net x cfg s" "ct_swarm_open (sy_controller s)"
    "clean x A s" "submitted (sy_controller t) \<subseteq> A"
    "\<And>i ev. sy_phase t = Sending i ev \<Longrightarrow> event_premints ev \<subseteq> A"
  shows "clean x A t \<and> ct_swarm_open (sy_controller t)"
  using assms(1)
proof (cases rule: system_step.cases)
  case (controller_turns i y now c)
  note f = clean_controller_turns [OF assms(4) _ assms(3) controller_turns(4,5,7)]
  have "good_store x (ct_store (sy_controller s))" using assms(2) by (simp add: system_inv_def controller_inv_def)
  from f [OF this] assms(4,5) show ?thesis by (simp add: controller_turns(1) clean_def)
next
  case (controller_panics i y now c)
  note f = clean_controller_turns [OF assms(4) _ assms(3) controller_panics(4,5,7)]
  have "good_store x (ct_store (sy_controller s))" using assms(2) by (simp add: system_inv_def controller_inv_def)
  moreover have "phase_clean A (drop_reply (sy_phase s))" using assms(4) by (cases "sy_phase s") (auto simp: clean_def)
  ultimately show ?thesis using f assms(4,5) by (simp add: controller_panics(1) clean_def)
next
  case (database_changes db)
  with assms(3,4) show ?thesis by (simp add: clean_def kept_def database_view)
next
  case (swarm_turns i)
  have "turn_responses (\<not> sy_panicked s) i = [] \<or> sy_panicked s"
    using swarm_turns(4) turn_no_responses(1) by (fastforce simp: events_sent_eq split: if_splits)
  then have "SrPremints ps \<notin> set (turn_responses (\<not> sy_panicked s) i)" for ps
    using turn_response_premints(1) by fastforce
  with assms(3,4) show ?thesis by (auto simp: swarm_turns(1) clean_def responses_turn swarm_turns(2))
next
  case (event_sent i ev)
  have "turn_events net x (premint_names cfg) i = [ev]"
    using assms(2) event_sent(2) by (simp add: system_inv_def channels_ok_def)
  from turn_no_responses(2) [OF this event_sent(5)] assms(3,4) show ?thesis
    by (auto simp: event_sent(1,2) clean_def responses_turn)
next
  case (event_refused i ev)
  have "SrPremints ps \<notin> set (turn_responses False i)" for ps using turn_response_premints(1) by blast
  with assms(3,4) show ?thesis by (auto simp: event_refused clean_def responses_turn)
next
  case (request_answered i answer)
  have "set ps \<subseteq> A" if "SrPremints ps \<in> set (turn_responses b (with_answer answer i))" for b ps
    using turn_response_premints(2) [OF that] assms(4) request_answered(2) by (simp add: clean_def)
  with assms(3,4) show ?thesis by (auto simp: request_answered(1) clean_def responses_turn)
qed (use assms(3,4,6) in \<open>auto simp: clean_def\<close>)

section \<open>Many nodes\<close>

text \<open>
  A network as the nodes it is made of. The messages that go around are those the nodes have
  published, with success, and the responses those they have sent.
\<close>

type_synonym network = "nat \<Rightarrow> system"

definition published :: "net \<Rightarrow> network \<Rightarrow> string \<Rightarrow> string \<Rightarrow> bool" where
  "published net nw t d \<longleftrightarrow> (\<exists>n v. (Publish t d, v) \<in> set (sc_calls (sy_swarm (nw n))) \<and>
     is_ok (call_result net (Publish t d) v))"

fun genuine :: "net \<Rightarrow> network \<Rightarrow> swarm_input \<Rightarrow> bool" where
  "genuine net nw (SiEvent (SeGossipsub (GsMessage m)) answer) \<longleftrightarrow> published net nw (gm_topic m) (gm_data m)"
| "genuine net nw (SiEvent (SeRequestResponse (RrResponse j resp)) answer) \<longleftrightarrow>
     (\<exists>n. resp \<in> set (responses_sent (sy_swarm (nw n))))"
| "genuine net nw _ \<longleftrightarrow> True"

text \<open>
  One node makes a step; what makes its swarm task send an event to its controller has come
  from the network.
\<close>

inductive network_runs :: "net \<Rightarrow> ext \<Rightarrow> network \<Rightarrow> network \<Rightarrow> bool"
  for net :: net and x :: ext and nw0 :: network where
  network_start: "network_runs net x nw0 nw0"
| network_step: "network_runs net x nw0 nw \<Longrightarrow> system_step net x (nw n) s \<Longrightarrow>
    (\<And>i ev. sy_phase s = Sending i ev \<Longrightarrow> genuine net nw i) \<Longrightarrow> network_runs net x nw0 (nw(n := s))"

lemma network_node_runs: "network_runs net x nw0 nw \<Longrightarrow> system_runs net x (nw0 n) (nw n)"
  by (induction rule: network_runs.induct) (auto intro: system_runs.intros)

text \<open>The premints that were submitted to some node, which accepted them.\<close>

definition origins :: "network \<Rightarrow> premint_types set" where
  "origins nw = (\<Union>n. submitted (sy_controller (nw n)))"

definition network_inv :: "net \<Rightarrow> ext \<Rightarrow> (nat \<Rightarrow> config) \<Rightarrow> network \<Rightarrow> bool" where
  "network_inv net x cfg nw \<longleftrightarrow> (\<forall>n. system_inv net x (cfg n) (nw n) \<and>
     ct_swarm_open (sy_controller (nw n)) \<and> clean x (origins nw) (nw n))"

lemma published_has_origin:
  assumes "system_inv net x cfg s" "(Publish t d, v) \<in> set (sc_calls (sy_swarm s))"
  shows "t = announce_topic \<or>
    (\<exists>m. t = msg_topic (md_kind (metadata x m)) \<and> to_json x m = Ok d \<and> m \<in> submitted (sy_controller s)) \<or>
    (\<exists>cl. t = claims_topic (PremintName (cl_kind cl)) \<and> claim_to_json net cl = Ok d)"
proof -
  have "sanctioned net x cfg (set (sy_taken s)) (Publish t d, v)"
    using assms running_sanctioned unfolding system_inv_def by blast
  moreover have "set (sy_taken s) \<subseteq> set (ct_swarm (sy_controller s))"
    using assms(1) by (simp add: system_inv_def channels_ok_def)
  ultimately show ?thesis by (auto simp: submitted_def)
qed

lemma wire_premint:
  assumes "serde_ok x" "json_text_ok x" "to_json x m = Ok d"
  shows "from_utf8_lossy d = d" "premint_from_json x d = Ok m"
proof -
  obtain d' where d': "premint_to_json x m = Ok d'" "premint_from_json x d' = Ok m"
    using assms(1) by (rule serde_okE [where p = m])
  with assms(2,3) show "from_utf8_lossy d = d" "premint_from_json x d = Ok m"
    by (simp_all add: to_json_def json_text_ok_def lossy_valid)
qed

lemma wire_claim:
  assumes "claim_wire_ok net x" "claim_to_json net cl = Ok d"
  shows "from_utf8_lossy d = d" "\<exists>e. premint_from_json x d = Err e"
  using assms lossy_valid unfolding claim_wire_ok_def by (metis sum.inject(2))+

lemma gossip_has_origin:
  assumes "serde_ok x" "json_text_ok x" "claim_wire_ok net x" "network_inv net x cfg nw"
    "published net nw (gm_topic m) (gm_data m)" "event_for net x names (SeGossipsub (GsMessage m)) = [ev]"
  shows "event_premints ev \<subseteq> origins nw"
proof -
  from assms(5) obtain n v where p: "(Publish (gm_topic m) (gm_data m), v) \<in> set (sc_calls (sy_swarm (nw n)))"
    by (auto simp: published_def)
  have "system_inv net x (cfg n) (nw n)" using assms(4) by (simp add: network_inv_def)
  from published_has_origin [OF this p] show ?thesis
  proof (elim disjE exE conjE)
    fix p assume "gm_topic m = msg_topic (md_kind (metadata x p))" "to_json x p = Ok (gm_data m)"
      "p \<in> submitted (sy_controller (nw n))"
    with assms(6) wire_premint [OF assms(1,2), of p "gm_data m"] show ?thesis by (auto simp: origins_def)
  next
    fix cl assume "gm_topic m = claims_topic (PremintName (cl_kind cl))" "claim_to_json net cl = Ok (gm_data m)"
    with assms(6) wire_claim [OF assms(3), of cl "gm_data m"] show ?thesis
      by (auto simp: Let_def split: sum.splits if_splits)
  qed (use assms(6) in \<open>simp add: Let_def\<close>)
qed

lemma genuine_has_origin:
  assumes "serde_ok x" "json_text_ok x" "claim_wire_ok net x" "network_inv net x cfg nw"
    "genuine net nw i" "turn_events net x names i = [ev]"
  shows "event_premints ev \<subseteq> origins nw"
proof (cases "(net, nw, i)" rule: genuine.cases)
  case (1 net' nw' m answer)
  then have "net' = net" "nw' = nw" "i = SiEvent (SeGossipsub (GsMessage m)) answer" by simp_all
  with gossip_has_origin [OF assms(1-4), of m names ev] assms(5,6) show ?thesis by simp
next
  case (2 net' nw' j resp answer)
  then obtain n where n: "resp \<in> set (responses_sent (sy_swarm (nw n)))" using assms(5) by auto
  have c: "clean x (origins nw) (nw n)" using assms(4) by (simp add: network_inv_def)
  show ?thesis
  proof (cases resp)
    case (SrPremints ps)
    with n c have "set ps \<subseteq> origins nw" by (auto simp: clean_def)
    moreover have "ev = EvSyncResponse ps" using assms(6) 2 SrPremints by simp
    ultimately show ?thesis by simp
  qed (use assms(6) 2 in simp)
qed (use assms(6) in \<open>auto simp: Let_def split: if_splits sum.splits\<close>)

lemma step_keeps_commands:
  assumes "system_step net x s t"
  shows "submitted (sy_controller s) \<subseteq> submitted (sy_controller t)"
  using assms
proof (cases rule: system_step.cases)
  case (controller_turns i y now c)
  from new_commands_eq(1) [OF controller_turns(7)] show ?thesis by (auto simp: controller_turns(1) submitted_def)
next
  case (controller_panics i y now c)
  from new_commands_eq(1) [OF controller_panics(7)] show ?thesis by (auto simp: controller_panics(1) submitted_def)
qed (simp_all add: submitted_def)

lemma origins_grow:
  assumes "system_step net x (nw n) s"
  shows "origins nw \<subseteq> origins (nw(n := s))"
  using step_keeps_commands [OF assms] by (fastforce simp: origins_def)

lemma network_inv_step:
  assumes "serde_ok x" "json_text_ok x" "claim_wire_ok net x" "network_inv net x cfg nw"
    "system_step net x (nw n) s" "\<And>i ev. sy_phase s = Sending i ev \<Longrightarrow> genuine net nw i"
  shows "network_inv net x cfg (nw(n := s))"
proof -
  let ?A = "origins (nw(n := s))"
  have inv: "system_inv net x (cfg m) (nw m)" "ct_swarm_open (sy_controller (nw m))" "clean x (origins nw) (nw m)" for m
    using assms(4) by (simp_all add: network_inv_def)
  have s: "system_inv net x (cfg n) s" using assms(5) inv(1) by (rule system_step_inv)
  have "event_premints ev \<subseteq> ?A" if "sy_phase s = Sending i ev" for i ev
  proof -
    have "turn_events net x (premint_names (cfg n)) i = [ev]"
      using s that by (simp add: system_inv_def channels_ok_def)
    from genuine_has_origin [OF assms(1-4) assms(6) [OF that] this] origins_grow [of net x nw n s, OF assms(5)]
    show ?thesis by blast
  qed
  moreover have "submitted (sy_controller s) \<subseteq> ?A" by (auto simp: origins_def intro: exI [of _ n])
  ultimately have "clean x ?A s \<and> ct_swarm_open (sy_controller s)"
    using clean_step [OF assms(5) inv(1,2) clean_mono [OF inv(3) origins_grow [of net x nw n s, OF assms(5)]]] by blast
  with s inv clean_mono [OF inv(3) origins_grow [of net x nw n s, OF assms(5)]] show ?thesis by (simp add: network_inv_def)
qed

text \<open>A node that starts with an empty store.\<close>

definition fresh_node :: "net \<Rightarrow> ext \<Rightarrow> config \<Rightarrow> system \<Rightarrow> bool" where
  "fresh_node net x cfg s \<longleftrightarrow>
     (\<exists>en ks swarm_of rules. node_starts x en ks net swarm_of rules cfg s) \<and>
     view x (ct_store (sy_controller s)) = Map.empty"

lemma fresh_inv:
  assumes "fresh_node net x cfg s"
  shows "system_inv net x cfg s" "ct_swarm_open (sy_controller s)" "clean x {} s" "submitted (sy_controller s) = {}"
proof -
  from assms obtain en ks swarm_of rules where n: "node_starts x en ks net swarm_of rules cfg s"
    and v: "view x (ct_store (sy_controller s)) = Map.empty" by (auto simp: fresh_node_def)
  note f = start_state [OF n] start_responses [OF n]
  show "system_inv net x cfg s" using n by (rule start_inv)
  show "ct_swarm_open (sy_controller s)" "clean x {} s" "submitted (sy_controller s) = {}"
    using f v by (simp_all add: clean_def kept_def submitted_def)
qed

text \<open>What a node has not been told to publish it has not published, under any topic but the announcements'.\<close>

lemma not_yet_published:
  assumes "serde_ok x" "json_text_ok x" "claim_wire_ok net x" "system_inv net x cfg s"
    "ScBroadcast m \<notin> set (ct_swarm (sy_controller s))" "to_json x m = Ok d" "t \<noteq> announce_topic"
  shows "(Publish t d, v) \<notin> set (sc_calls (sy_swarm s))"
proof
  assume "(Publish t d, v) \<in> set (sc_calls (sy_swarm s))"
  from published_has_origin [OF assms(4) this] assms(7) show False
  proof (elim disjE exE conjE)
    fix p assume p: "to_json x p = Ok d" "p \<in> submitted (sy_controller s)"
    then have "p = m" using wire_premint(2) [OF assms(1,2,6)] wire_premint(2) [OF assms(1,2) p(1)] by simp
    with p(2) assms(5) show False by (simp add: submitted_def)
  next
    fix cl assume "claim_to_json net cl = Ok d"
    with wire_claim(2) [OF assms(3)] wire_premint(2) [OF assms(1,2,6)] show False by fastforce
  qed simp
qed

text \<open>
  C3. Premints do not come from nowhere: in a network of nodes that started empty and pass on only
  what one of them has published or sent, every premint in the store of any node, whichever way
  it took by gossip and sync, was submitted to one of the nodes. At that step this node's own
  rules were run on it and accepted it, the node's store returned it afterwards, and the node had
  neither published it before, under any topic but that of the announcements, nor asked its
  swarm task to.
\<close>

theorem premints_have_an_origin:
  assumes "serde_ok x" "json_text_ok x" "claim_wire_ok net x" "\<And>n. fresh_node net x (cfg n) (nw0 n)"
    "network_runs net x nw0 nw" "view x (ct_store (sy_controller (nw n))) k = Some e"
  shows "\<exists>m s t. system_runs net x (nw0 m) s \<and> takes_in net x (en_premint e) s t \<and> system_runs net x t (nw m) \<and>
    (\<forall>topic d v. to_json x (en_premint e) = Ok d \<and> topic \<noteq> announce_topic \<longrightarrow>
       (Publish topic d, v) \<notin> set (sc_calls (sy_swarm s)))"
proof -
  have "network_inv net x cfg nw0"
    using fresh_inv [OF assms(4)] clean_mono unfolding network_inv_def by blast
  with assms(5) have inv: "network_inv net x cfg nw"
    by (induction rule: network_runs.induct) (auto intro: network_inv_step [OF assms(1-3)])
  have "en_premint e \<in> kept x (ct_store (sy_controller (nw n)))" using assms(6) by (rule keptI)
  then have "en_premint e \<in> origins nw" using inv by (auto simp: network_inv_def clean_def)
  then obtain m where m: "ScBroadcast (en_premint e) \<in> set (ct_swarm (sy_controller (nw m)))"
    by (auto simp: origins_def submitted_def)
  have f: "system_inv net x (cfg m) (nw0 m)" "ScBroadcast (en_premint e) \<notin> set (ct_swarm (sy_controller (nw0 m)))"
    using fresh_inv(1,4) [OF assms(4), of m] by (auto simp: submitted_def)
  obtain s t where s: "system_runs net x (nw0 m) s" "takes_in net x (en_premint e) s t" "system_runs net x t (nw m)"
    using broadcast_was_stored [OF network_node_runs [OF assms(5)] f(1) m f(2)] by blast
  have "ScBroadcast (en_premint e) \<notin> set (ct_swarm (sy_controller s))" using s(2) by (simp add: takes_in_def)
  from not_yet_published [OF assms(1-3) system_runs_inv [OF s(1) f(1)] this] s show ?thesis by blast
qed

section \<open>A network to run\<close>

theorem premints_have_an_origin_witness:
  "\<exists>nw0 nw e m s t. network_runs sample_net sample_ext nw0 nw \<and>
     view sample_ext (ct_store (sy_controller (nw 0)))
       (name_of (md_kind (metadata sample_ext (ZoraV2 signed_v2))), md_id (metadata sample_ext (ZoraV2 signed_v2))) = Some e \<and>
     en_premint e = ZoraV2 signed_v2 \<and> system_runs sample_net sample_ext (nw0 m) s \<and>
     takes_in sample_net sample_ext (ZoraV2 signed_v2) s t \<and> system_runs sample_net sample_ext t (nw m)"
proof -
  let ?m = "ZoraV2 signed_v2"
  obtain s0 t where t: "sample_node_starts s0" "view sample_ext (ct_store (sy_controller s0)) = Map.empty"
    "system_step sample_net sample_ext s0 t" "sy_phase t = Looping" "holds_premint sample_ext t ?m"
    using sample_submit by blast
  let ?nw0 = "\<lambda>n::nat. s0"
  have fresh: "fresh_node sample_net sample_ext (sample_config Check) (?nw0 n)" for n
    using t(1,2) by (auto simp: fresh_node_def sample_node_starts_def)
  have runs: "network_runs sample_net sample_ext ?nw0 (?nw0(0 := t))"
    using network_runs.network_step [OF network_runs.network_start, of sample_net sample_ext ?nw0 0 t] t(3,4) by simp
  have "system_inv sample_net sample_ext (sample_config Check) t"
    using t(3) fresh_inv(1) [OF fresh] by (rule system_step_inv)
  then have "good_store sample_ext (ct_store (sy_controller t))" by (simp add: system_inv_def controller_inv_def)
  from db.get_Ok [OF this, of _ "md_kind (metadata sample_ext ?m)" ?m] t(5)
  obtain e where e: "view sample_ext (ct_store (sy_controller t))
      (name_of (md_kind (metadata sample_ext ?m)), md_id (metadata sample_ext ?m)) = Some e" "en_premint e = ?m"
    by (auto simp: holds_premint_def storage_reader_def)
  from e(1) have at: "view sample_ext (ct_store (sy_controller ((?nw0(0 := t)) 0)))
      (name_of (md_kind (metadata sample_ext ?m)), md_id (metadata sample_ext ?m)) = Some e" by simp
  obtain m s u where "system_runs sample_net sample_ext (?nw0 m) s" "takes_in sample_net sample_ext ?m s u"
    "system_runs sample_net sample_ext u ((?nw0(0 := t)) m)"
    using premints_have_an_origin [OF sample_serde_ok sample_json_text_ok sample_claim_wire_ok fresh runs at]
    unfolding e(2) by blast
  with runs e(2) at show ?thesis by blast
qed

end
