(* ===== verification/Progress.thy ===== *)
theory Progress
  imports SystemRuns
begin

text \<open>
  How far a running node gets by itself: from which states the two tasks can work off what they
  have before them, and what has happened when they have. The steps used here are those in which
  the swarm task takes nothing new from the network, so that they can be made in any network.
\<close>

section \<open>Steps that take nothing from the network\<close>

definition quiet :: "net \<Rightarrow> ext \<Rightarrow> system \<Rightarrow> system \<Rightarrow> bool" where
  "quiet net x s t \<longleftrightarrow>
     system_step net x s t \<and> (\<forall>i ev. sy_phase t = Sending i ev \<longrightarrow> sy_phase s = Sending i ev)"

abbreviation quiet_runs :: "net \<Rightarrow> ext \<Rightarrow> system \<Rightarrow> system \<Rightarrow> bool" where
  "quiet_runs net x \<equiv> (quiet net x)\<^sup>*\<^sup>*"

lemma quiet_is_run: "quiet_runs net x s t \<Longrightarrow> system_runs net x s t"
  by (induction rule: rtranclp_induct) (auto simp: quiet_def intro: system_runs.intros)

lemma quiet_inv: "quiet_runs net x s t \<Longrightarrow> system_inv net x cfg s \<Longrightarrow> system_inv net x cfg t"
  using quiet_is_run system_runs_inv by blast

lemma quietI: "system_step net x s t \<Longrightarrow> sy_phase t = Looping \<or> sy_phase t = sy_phase s \<or>
    (\<exists>j. sy_phase t = Asking j) \<or> (\<exists>j a. sy_phase t = Answered j a) \<Longrightarrow> quiet net x s t"
  by (auto simp: quiet_def)

lemma reply_phase: "reply_to i a p = p \<or> (\<exists>j b. reply_to i a p = Answered j b)" "drop_reply p = p \<or> (\<exists>j b. drop_reply p = Answered j b)"
  by (cases "(i, a, p)" rule: reply_to.cases; simp) (cases p; simp)

section \<open>The controller\<close>

text \<open>A command that waits to be sent goes into the channel when there is room.\<close>

lemma quiet_send:
  assumes "system_inv net x cfg s" "sy_outgoing s = [] \<or> length (sy_commands s) < channel_capacity"
  shows "\<exists>t cmds. quiet_runs net x s t \<and> t = s\<lparr>sy_commands := sy_commands s @ cmds, sy_outgoing := []\<rparr>"
proof (cases "sy_outgoing s")
  case (Cons cmd cmds)
  then have "cmds = []" using assms(1) by (simp add: system_inv_def channels_ok_def)
  let ?t = "s\<lparr>sy_commands := sy_commands s @ [cmd], sy_outgoing := cmds\<rparr>"
  from Cons assms(2) have "quiet net x s ?t" by (intro quietI system_step.command_sent) simp_all
  with \<open>cmds = []\<close> show ?thesis by blast
next
  case Nil
  then have "s = s\<lparr>sy_commands := sy_commands s @ [], sy_outgoing := []\<rparr>" by simp
  then show ?thesis by blast
qed

text \<open>The controller handles the events that wait for it, or panics over one of them.\<close>

definition hears :: "system \<Rightarrow> system \<Rightarrow> bool" where
  "hears s t \<longleftrightarrow> sy_outgoing t = [] \<and> sy_commands t = sy_commands s \<and> sy_swarm t = sy_swarm s \<and>
     (sy_phase t = sy_phase s \<or> (\<exists>j a. sy_phase t = Answered j a) \<and> (\<exists>j. sy_phase s = Asking j))"

lemma hears_trans: "hears s t \<Longrightarrow> hears t u \<Longrightarrow> hears s u"
  unfolding hears_def by metis

lemma hear_one:
  assumes "connect_ok x" "\<not> sy_panicked s" "sy_outgoing s = []" "sy_events s = ev # evs"
  shows "\<exists>t. quiet net x s t \<and> hears s t \<and> (sy_events t = evs \<or> sy_events t = []) \<and>
    (sy_panicked t \<longrightarrow> sy_events t = [])"
proof -
  let ?i = "InEvent ev []"
  have take: "controller_can_take ?i s" "sy_events (controller_take ?i s) = evs" using assms(4) by simp_all
  obtain r c where t: "loop_turn x 0 ?i (sy_controller s) = (r, c)" by (cases "loop_turn x 0 ?i (sy_controller s)")
  show ?thesis
  proof (cases r)
    case Panic
    let ?u = "(controller_take ?i s)\<lparr>sy_controller := c, sy_panicked := True, sy_events := [],
      sy_phase := drop_reply (sy_phase s)\<rparr>"
    have "system_step net x s ?u"
      using system_step.controller_panics [OF assms(2,3) take(1) same_text_refl assms(1) t [unfolded Panic], of net] .
    moreover have "hears s ?u" using assms(3) by (cases "sy_phase s") (simp_all add: hears_def)
    ultimately show ?thesis
      using reply_phase(2) [of "sy_phase s"] by (intro exI [of _ ?u] conjI quietI) auto
  next
    case (Returns u)
    let ?u = "(controller_take ?i s)\<lparr>sy_controller := c, sy_outgoing := new_commands (sy_controller s) c,
      sy_phase := reply_to ?i (new_answer (sy_controller s) c) (sy_phase s)\<rparr>"
    have "system_step net x s ?u"
      using system_step.controller_turns [OF assms(2,3) take(1) same_text_refl assms(1), of 0 c net] t Returns by simp
    moreover have "hears s ?u"
      using event_no_commands [OF t]
      by (cases "(?i, new_answer (sy_controller s) c, sy_phase s)" rule: reply_to.cases) (simp_all add: hears_def)
    ultimately show ?thesis
      using take(2) assms(2) reply_phase(1) [of ?i "new_answer (sy_controller s) c" "sy_phase s"]
      by (intro exI [of _ ?u] conjI quietI) auto
  qed
qed

lemma hear_all:
  assumes "connect_ok x" "system_inv net x cfg s" "sy_outgoing s = []"
  shows "\<exists>t. quiet_runs net x s t \<and> hears s t \<and> sy_events t = []"
  using assms(2,3)
proof (induction "length (sy_events s)" arbitrary: s rule: less_induct)
  case less
  show ?case
  proof (cases "sy_events s")
    case Nil
    with less.prems(2) show ?thesis by (intro exI [of _ s]) (simp add: hears_def)
  next
    case (Cons ev evs)
    then have live: "\<not> sy_panicked s" using less.prems(1) by (auto simp: system_inv_def channels_ok_def)
    obtain t where t: "quiet net x s t" "hears s t" "sy_events t = evs \<or> sy_events t = []"
      using hear_one [OF assms(1) live less.prems(2) Cons] by blast
    from t(2) have o: "sy_outgoing t = []" by (simp add: hears_def)
    have inv: "system_inv net x cfg t" using quiet_inv [OF r_into_rtranclp less.prems(1)] t(1) by blast
    have "length (sy_events t) < length (sy_events s)" using t(3) Cons by auto
    from less.hyps [OF this inv o] obtain u where "quiet_runs net x t u" "hears t u" "sy_events u = []" by blast
    with t(1,2) show ?thesis by (meson converse_rtranclp_into_rtranclp hears_trans)
  qed
qed

section \<open>The swarm task\<close>

text \<open>The swarm task takes the commands that wait for it.\<close>

lemma take_commands:
  assumes "sy_phase s = Looping"
  shows "\<exists>t. quiet_runs net x s t \<and> sy_phase t = Looping \<and> sy_commands t = [] \<and> sy_outgoing t = sy_outgoing s \<and>
    sy_events t = sy_events s \<and> sy_controller t = sy_controller s \<and> sy_panicked t = sy_panicked s"
  using assms
proof (induction "sy_commands s" arbitrary: s)
  case Nil
  then show ?case by (intro exI [of _ s]) simp
next
  case (Cons cmd cmds)
  let ?i = "SiCommand cmd 0"
  let ?t = "(swarm_take ?i s)\<lparr>sy_swarm := swarm_turn net x ?i (swarm_now s)\<rparr>"
  have "swarm_can_take ?i s" using Cons.hyps(2) [symmetric] by simp
  then have "quiet net x s ?t"
    using Cons.prems by (intro quietI system_step.swarm_turns) (simp_all add: events_sent_eq)
  moreover have "cmds = sy_commands ?t" "sy_phase ?t = Looping" "sy_outgoing ?t = sy_outgoing s"
    "sy_events ?t = sy_events s" "sy_controller ?t = sy_controller s" "sy_panicked ?t = sy_panicked s"
    using Cons.hyps(2) [symmetric] Cons.prems by simp_all
  moreover note Cons.hyps(1) [of ?t]
  ultimately show ?case by (metis converse_rtranclp_into_rtranclp)
qed

text \<open>A turn that was answered is finished.\<close>

lemma answered_loops:
  assumes "sy_phase s = Answered i a" "sy_outgoing s = []"
  shows "\<exists>t. quiet_runs net x s t \<and> sy_phase t = Looping \<and> sy_outgoing t = []"
proof -
  let ?t = "s\<lparr>sy_phase := Looping, sy_swarm := swarm_turn net x (with_answer a i) (sy_swarm s)\<rparr>"
  have "quiet net x s ?t" using assms(1) by (intro quietI system_step.request_answered) simp_all
  with assms(2) show ?thesis by (intro exI [of _ ?t]) auto
qed

lemma asking_loops:
  assumes "connect_ok x" "system_inv net x cfg s" "sy_phase s = Asking i" "sy_outgoing s = []"
  shows "\<exists>t. quiet_runs net x s t \<and> sy_phase t = Looping \<and> sy_outgoing t = []"
proof -
  obtain t where t: "quiet_runs net x s t" "hears s t" "sy_events t = []"
    using hear_all [OF assms(1,2,4)] by blast
  have "system_inv net x cfg t" using t(1) assms(2) by (rule quiet_inv)
  then have "sy_phase t \<noteq> Asking i" using t(3) by (auto simp: system_inv_def channels_ok_def)
  then obtain j a where p: "sy_phase t = Answered j a" using t(2) assms(3) by (auto simp: hears_def)
  have "sy_outgoing t = []" using t(2) by (simp add: hears_def)
  from answered_loops [OF p this, of net x] t(1) show ?thesis by (meson rtranclp_trans)
qed

lemma sending_loops:
  assumes "connect_ok x" "system_inv net x cfg s" "sy_phase s = Sending i ev" "sy_outgoing s = []"
  shows "\<exists>t. quiet_runs net x s t \<and> sy_phase t = Looping"
proof -
  obtain t where t: "quiet_runs net x s t" "hears s t" "sy_events t = []"
    using hear_all [OF assms(1,2,4)] by blast
  have inv: "system_inv net x cfg t" using t(1) assms(2) by (rule quiet_inv)
  have p: "sy_phase t = Sending i ev" and o: "sy_outgoing t = []"
    using t(2) assms(3) by (auto simp: hears_def)
  let ?loop = "t\<lparr>sy_phase := Looping, sy_swarm := swarm_turn net x i (swarm_now t)\<rparr>"
  show ?thesis
  proof (cases "sy_panicked t")
    case True
    with p have "quiet net x t ?loop" by (intro quietI system_step.event_refused) simp_all
    with t(1) show ?thesis by (intro exI [of _ ?loop]) auto
  next
    case False
    show ?thesis
    proof (cases "is_sync_request ev")
      case True
      let ?a = "t\<lparr>sy_events := sy_events t @ [ev], sy_phase := Asking i\<rparr>"
      have q: "quiet net x t ?a"
        using p False True t(3) by (intro quietI system_step.request_sent) (simp_all add: channel_capacity_def)
      have "system_inv net x cfg ?a" using quiet_inv [OF r_into_rtranclp inv] q by blast
      from asking_loops [OF assms(1) this] o obtain u where "quiet_runs net x ?a u" "sy_phase u = Looping" by auto
      with t(1) q show ?thesis by (meson rtranclp.rtrancl_into_rtrancl rtranclp_trans)
    next
      case notreq: False
      let ?a = "t\<lparr>sy_events := sy_events t @ [ev], sy_phase := Looping,
          sy_swarm := swarm_turn net x i (swarm_now t)\<rparr>"
      have "quiet net x t ?a"
        using p False notreq t(3) by (intro quietI system_step.event_sent) (simp_all add: channel_capacity_def)
      with t(1) show ?thesis by (intro exI [of _ ?a]) auto
    qed
  qed
qed

section \<open>What has been published\<close>

definition has_published :: "system \<Rightarrow> string \<Rightarrow> string \<Rightarrow> bool" where
  "has_published s t d \<longleftrightarrow> (\<exists>v. (Publish t d, v) \<in> set (sc_calls (sy_swarm s)))"

lemma turn_keeps_calls: "set (sc_calls c) \<subseteq> set (sc_calls (swarm_turn net x inp c))"
  using proceeds_turn [of inp "set (turn_commands inp)" net x c] by (auto simp: proceeds_def)

lemma now_calls [simp]: "sc_calls (swarm_now s) = sc_calls (sy_swarm s)"
  by (simp add: swarm_now_def)

lemma step_keeps_calls:
  assumes "system_step net x s t"
  shows "set (sc_calls (sy_swarm s)) \<subseteq> set (sc_calls (sy_swarm t))"
  using assms turn_keeps_calls [of "swarm_now s" net x] turn_keeps_calls [of "sy_swarm s" net x]
  by (induction rule: system_step.induct) auto

lemma runs_keep_calls: "system_runs net x s t \<Longrightarrow> set (sc_calls (sy_swarm s)) \<subseteq> set (sc_calls (sy_swarm t))"
  by (induction rule: system_runs.induct) (auto dest: step_keeps_calls)

text \<open>A command to broadcast that the swarm task has taken has been carried out.\<close>

lemma taken_is_published:
  assumes "running net x cfg c cmds" "ScBroadcast m \<in> set cmds" "to_json x m = Ok d"
  shows "\<exists>v. (Publish (msg_topic (md_kind (metadata x m))) d, v) \<in> set (sc_calls c)"
  using assms(1,2)
proof (induction rule: running.induct)
  case (running_turn c cmds inp)
  show ?case
  proof (cases "ScBroadcast m \<in> set cmds")
    case True
    with running_turn.IH turn_keeps_calls [of c net x inp] show ?thesis by blast
  next
    case False
    then obtain pick where "inp = SiCommand (ScBroadcast m) pick" using running_turn.prems by (cases inp) auto
    then show ?thesis using assms(3) by (auto simp: broadcast_message_def do_call_def Let_def)
  qed
qed simp_all

lemma rested_has_published:
  assumes "system_inv net x cfg s" "sy_commands s = []" "sy_outgoing s = []"
    "ScBroadcast m \<in> set (ct_swarm (sy_controller s))" "to_json x m = Ok d"
  shows "has_published s (msg_topic (md_kind (metadata x m))) d"
  using assms taken_is_published [of net x cfg "sy_swarm s" "sy_taken s" m d]
  by (simp add: system_inv_def channels_ok_def has_published_def)

section \<open>Coming to rest\<close>

text \<open>
  The states from which the two tasks end up waiting for each other: they do so already, or the
  controller waits for room for a command and the swarm task is about to wait for an answer.
\<close>

definition doomed :: "system \<Rightarrow> bool" where
  "doomed s \<longleftrightarrow> deadlocked s \<or>
     (\<not> sy_panicked s \<and> sy_outgoing s \<noteq> [] \<and> channel_capacity \<le> length (sy_commands s) \<and>
      (\<exists>i ev. sy_phase s = Sending i ev \<and> is_sync_request ev))"

definition at_rest :: "system \<Rightarrow> bool" where
  "at_rest s \<longleftrightarrow> sy_phase s = Looping \<and> sy_outgoing s = [] \<and> sy_commands s = [] \<and> sy_events s = []"

lemma not_doomed:
  assumes "\<not> doomed s"
  shows "sy_phase s = Asking i \<Longrightarrow> sy_panicked s \<or> sy_outgoing s = [] \<or> length (sy_commands s) < channel_capacity"
    "sy_phase s = Sending i ev \<Longrightarrow> sy_panicked s \<or> sy_outgoing s = [] \<or> length (sy_commands s) < channel_capacity \<or>
       length (sy_events s) < channel_capacity \<and> \<not> is_sync_request ev"
  using assms by (auto simp: doomed_def deadlocked_def not_le)

lemma reaches_loop:
  assumes "connect_ok x" "system_inv net x cfg s" "\<not> doomed s"
  shows "\<exists>t. quiet_runs net x s t \<and> sy_phase t = Looping"
proof (cases "sy_phase s")
  case Looping
  then show ?thesis by blast
next
  case (Answered i a)
  let ?t = "s\<lparr>sy_phase := Looping, sy_swarm := swarm_turn net x (with_answer a i) (sy_swarm s)\<rparr>"
  have "quiet net x s ?t" using Answered by (intro quietI system_step.request_answered) simp_all
  then show ?thesis by (intro exI [of _ ?t]) auto
next
  case (Asking i)
  then have "\<not> sy_panicked s" using assms(2) by (simp add: system_inv_def channels_ok_def)
  then obtain t cmds where t: "quiet_runs net x s t" "t = s\<lparr>sy_commands := sy_commands s @ cmds, sy_outgoing := []\<rparr>"
    using not_doomed(1) [OF assms(3) Asking] quiet_send [OF assms(2)] by blast
  from asking_loops [OF assms(1) quiet_inv [OF t(1) assms(2)], of i] Asking t show ?thesis
    by (auto dest: rtranclp_trans)
next
  case (Sending i ev)
  let ?loop = "s\<lparr>sy_phase := Looping, sy_swarm := swarm_turn net x i (swarm_now s)\<rparr>"
  let ?sent = "s\<lparr>sy_events := sy_events s @ [ev], sy_phase := Looping, sy_swarm := swarm_turn net x i (swarm_now s)\<rparr>"
  consider "sy_panicked s" | "\<not> sy_panicked s" "length (sy_events s) < channel_capacity" "\<not> is_sync_request ev"
    | "sy_outgoing s = [] \<or> length (sy_commands s) < channel_capacity"
    using not_doomed(2) [OF assms(3) Sending] by blast
  then show ?thesis
  proof cases
    case 1
    with Sending have "quiet net x s ?loop" by (intro quietI system_step.event_refused) simp_all
    then show ?thesis by (intro exI [of _ ?loop]) auto
  next
    case 2
    with Sending have "quiet net x s ?sent" by (intro quietI system_step.event_sent) simp_all
    then show ?thesis by (intro exI [of _ ?sent]) auto
  next
    case 3
    from quiet_send [OF assms(2) this, of] obtain t cmds where t: "quiet_runs net x s t"
      "t = s\<lparr>sy_commands := sy_commands s @ cmds, sy_outgoing := []\<rparr>" by blast
    from sending_loops [OF assms(1) quiet_inv [OF t(1) assms(2)], of i ev] Sending t show ?thesis
      by (auto dest: rtranclp_trans)
  qed
qed

lemma quiet_settles:
  assumes "connect_ok x" "system_inv net x cfg s" "\<not> doomed s"
  shows "\<exists>t. quiet_runs net x s t \<and> at_rest t"
proof -
  obtain a where a: "quiet_runs net x s a" "sy_phase a = Looping" using reaches_loop [OF assms] by blast
  obtain b where b: "quiet_runs net x a b" "sy_phase b = Looping" "sy_commands b = []"
    using take_commands [OF a(2)] by blast
  note ib = quiet_inv [OF b(1) quiet_inv [OF a(1) assms(2)]]
  from quiet_send [OF ib] b(3) obtain c cmds where c: "quiet_runs net x b c"
    "c = b\<lparr>sy_commands := sy_commands b @ cmds, sy_outgoing := []\<rparr>" by (auto simp: channel_capacity_def)
  obtain d where d: "quiet_runs net x c d" "sy_phase d = Looping" "sy_commands d = []" "sy_outgoing d = sy_outgoing c"
    using take_commands [of c net x] b(2) c(2) by auto
  have o: "sy_outgoing d = []" using d(4) c(2) by simp
  obtain e where e: "quiet_runs net x d e" "hears d e" "sy_events e = []"
    using hear_all [OF assms(1) quiet_inv [OF d(1) quiet_inv [OF c(1) ib]] o] by blast
  have "at_rest e" using e(2,3) d(2,3) by (auto simp: at_rest_def hears_def)
  moreover have "quiet_runs net x s e" using a(1) b(1) c(1) d(1) e(1) by (meson rtranclp_trans)
  ultimately show ?thesis by blast
qed

lemma doomed_step:
  assumes "system_step net x s t" "doomed s"
  shows "doomed t"
  using assms by (cases rule: system_step.cases) (auto simp: doomed_def deadlocked_def)

lemma doomed_for_ever: "system_runs net x s t \<Longrightarrow> doomed s \<Longrightarrow> doomed t"
  by (induction rule: system_runs.induct) (auto intro: doomed_step)

text \<open>
  C11. Waiting for each other is the only way in which the two tasks of a node get stuck: from
  every state of a started node they can work off everything in both channels and return to
  their loops, unless the controller waits for room for a command while the swarm task waits for
  the controller or is about to ask it; and from such a state they never can.
\<close>

theorem node_settles_unless_doomed:
  assumes "node_starts x en ks net swarm_of rules cfg s0" "system_runs net x s0 s"
  shows "(\<exists>t. system_runs net x s t \<and> at_rest t) \<longleftrightarrow> \<not> doomed s"
proof
  assume "\<exists>t. system_runs net x s t \<and> at_rest t"
  then obtain t where "system_runs net x s t" "at_rest t" by blast
  moreover from this have "\<not> doomed t" by (simp add: at_rest_def doomed_def deadlocked_def)
  ultimately show "\<not> doomed s" using doomed_for_ever by blast
next
  assume "\<not> doomed s"
  moreover have "connect_ok x" using assms(1) by (simp add: node_starts_def)
  ultimately show "\<exists>t. system_runs net x s t \<and> at_rest t"
    using quiet_settles [OF _ node_inv [OF assms]] quiet_is_run by blast
qed

theorem node_settles_unless_doomed_witness:
  "\<exists>s0 s t u. sample_node_starts s0 \<and> system_runs sample_net sample_ext s0 s \<and>
     (\<exists>i. sy_phase s = Asking i) \<and> system_runs sample_net sample_ext s t \<and> at_rest t \<and>
     system_runs sample_net sample_ext s0 u \<and> \<not> (\<exists>t. system_runs sample_net sample_ext u t \<and> at_rest t)"
proof -
  obtain s0 where s0: "sample_node_starts s0" using sample_node by blast
  note n = s0 [unfolded sample_node_starts_def]
  obtain s where s: "system_runs sample_net sample_ext s0 s" "standing_by s"
    using request_arrives [OF n] by blast
  then have "\<not> doomed s" by (auto simp: standing_by_def doomed_def deadlocked_def)
  then obtain t where "system_runs sample_net sample_ext s t" "at_rest t"
    using node_settles_unless_doomed [OF n s(1)] by blast
  moreover obtain u where u: "system_runs sample_net sample_ext s0 u" "deadlocked u"
    using deadlock_arrives [OF n] by blast
  then have "\<not> (\<exists>t. system_runs sample_net sample_ext u t \<and> at_rest t)"
    using node_settles_unless_doomed [OF n u(1)] by (simp add: doomed_def)
  ultimately show ?thesis using s0 s u(1) by (auto simp: standing_by_def)
qed

end
