(* ===== verification/Delivery.thy ===== *)
theory Delivery
  imports Network Progress
begin

text \<open>
  What a network of nodes can achieve: a premint that one node has accepted can get to all the
  nodes that are ready to hear of it. Here gossip goes only where gossipsub takes it: to nodes
  that have subscribed to the topic, from a neighbour that has the message, and not twice under
  one message id.
\<close>

section \<open>Steps of one node in a network\<close>

lemma response_of_call:
  "(case k of SendResponse channel resp \<Rightarrow> Some resp | _ \<Rightarrow> None) = Some r \<longleftrightarrow> (\<exists>channel. k = SendResponse channel r)"
  by (cases k) auto

lemma responses_calls: "r \<in> set (responses_sent c) \<longleftrightarrow> (\<exists>ch v. (SendResponse ch r, v) \<in> set (sc_calls c))"
proof -
  have "(case call of (k, v) \<Rightarrow> (case k of SendResponse channel resp \<Rightarrow> Some resp | _ \<Rightarrow> None)) = Some r \<longleftrightarrow>
      (\<exists>channel v. call = (SendResponse channel r, v))" for call :: "swarm_call \<times> swarm_view"
    by (cases call) (simp add: response_of_call)
  then show ?thesis by (auto simp: responses_sent_def map_filter_set)
qed

lemma genuine_grows:
  assumes "genuine net nw i" "system_step net x (nw n) s"
  shows "genuine net (nw(n := s)) i"
proof -
  have k: "set (sc_calls (sy_swarm (nw n))) \<subseteq> set (sc_calls (sy_swarm s))" using assms(2) by (rule step_keeps_calls)
  then have calls: "call \<in> set (sc_calls (sy_swarm (nw m))) \<Longrightarrow> call \<in> set (sc_calls (sy_swarm ((nw(n := s)) m)))" for call m
    by auto
  have pub: "published net nw t d \<Longrightarrow> published net (nw(n := s)) t d" for t d
    unfolding published_def using calls by blast
  have resp: "r \<in> set (responses_sent (sy_swarm (nw m))) \<Longrightarrow> r \<in> set (responses_sent (sy_swarm ((nw(n := s)) m)))" for r m
    unfolding responses_calls using calls by blast
  from assms(1) show ?thesis
  proof (cases "(net, nw, i)" rule: genuine.cases)
    case (1 net' nw' msg answer)
    then have "i = SiEvent (SeGossipsub (GsMessage msg)) answer" by simp
    with assms(1) pub show ?thesis by simp
  next
    case (2 net' nw' j resp answer)
    then have "i = SiEvent (SeRequestResponse (RrResponse j resp)) answer" by simp
    with assms(1) resp show ?thesis by (auto simp del: fun_upd_apply)
  qed simp_all
qed

text \<open>What the nodes are handling has come from the network.\<close>

definition sources_genuine :: "net \<Rightarrow> network \<Rightarrow> bool" where
  "sources_genuine net nw \<longleftrightarrow> (\<forall>n i ev. sy_phase (nw n) = Sending i ev \<longrightarrow> genuine net nw i)"

lemma sources_step:
  assumes "sources_genuine net nw" "system_step net x (nw n) s" "\<And>i ev. sy_phase s = Sending i ev \<Longrightarrow> genuine net nw i"
  shows "sources_genuine net (nw(n := s))"
  unfolding sources_genuine_def
proof (intro allI impI)
  fix m i ev assume p: "sy_phase ((nw(n := s)) m) = Sending i ev"
  have "genuine net nw i" using p assms(1,3) by (cases "m = n") (auto simp: sources_genuine_def)
  then show "genuine net (nw(n := s)) i" using assms(2) by (rule genuine_grows)
qed

lemma sources_runs: "network_runs net x nw0 nw \<Longrightarrow> sources_genuine net nw0 \<Longrightarrow> sources_genuine net nw"
  by (induction rule: network_runs.induct) (auto intro: sources_step)

lemma network_trans: "network_runs net x nw1 nw2 \<Longrightarrow> network_runs net x nw0 nw1 \<Longrightarrow> network_runs net x nw0 nw2"
  by (induction rule: network_runs.induct) (auto intro: network_runs.intros)

section \<open>How gossip goes around\<close>

text \<open>
  The messages a node got from its neighbours that made its swarm task send an event to its
  controller, which every premint does, in the order they came. Other messages, such as
  announcements, leave no trace here.
\<close>

type_synonym gossip_log = "nat \<Rightarrow> gossip_message list"

text \<open>The swarm of the node took its subscription to the topic (no code path unsubscribes).\<close>

definition listens_to :: "net \<Rightarrow> system \<Rightarrow> string \<Rightarrow> bool" where
  "listens_to net s t \<longleftrightarrow> (\<exists>v. (Subscribe t, v) \<in> set (sc_calls (sy_swarm s)) \<and> is_ok (call_result net (Subscribe t) v))"

text \<open>The node has published the message, with success, or got it.\<close>

definition has_message :: "net \<Rightarrow> network \<Rightarrow> gossip_log \<Rightarrow> nat \<Rightarrow> string \<Rightarrow> string \<Rightarrow> bool" where
  "has_message net nw log p t d \<longleftrightarrow>
     (\<exists>v. (Publish t d, v) \<in> set (sc_calls (sy_swarm (nw p))) \<and> is_ok (call_result net (Publish t d) v)) \<or>
     (\<exists>m\<in>set (log p). gm_topic m = t \<and> gm_data m = d)"

text \<open>The node has neither got nor published a message of this id.\<close>

definition unseen :: "net \<Rightarrow> ext \<Rightarrow> network \<Rightarrow> gossip_log \<Rightarrow> nat \<Rightarrow> string \<Rightarrow> bool" where
  "unseen net x nw log n i \<longleftrightarrow> (\<forall>m\<in>set (log n). gossipsub_message_id net x m \<noteq> i) \<and>
     (\<forall>t d v s. (Publish t d, v) \<in> set (sc_calls (sy_swarm (nw n))) \<and> is_ok (call_result net (Publish t d) v) \<longrightarrow>
        gossipsub_message_id net x \<lparr>gm_topic = t, gm_data = d, gm_propagated_by = s\<rparr> \<noteq> i)"

definition deliverable :: "net \<Rightarrow> ext \<Rightarrow> (nat \<Rightarrow> nat \<Rightarrow> bool) \<Rightarrow> network \<Rightarrow> gossip_log \<Rightarrow> nat \<Rightarrow> gossip_message \<Rightarrow> bool" where
  "deliverable net x linked nw log n m \<longleftrightarrow>
     listens_to net (nw n) (gm_topic m) \<and> unseen net x nw log n (gossipsub_message_id net x m) \<and>
     (\<exists>p. linked n p \<and> has_message net nw log p (gm_topic m) (gm_data m) \<and>
        gm_propagated_by m = sv_local_peer_id (sc_view (sy_swarm (nw p))))"

definition is_gossip :: "swarm_input \<Rightarrow> bool" where
  "is_gossip i \<longleftrightarrow> (\<exists>m answer. i = SiEvent (SeGossipsub (GsMessage m)) answer)"

text \<open>
  One node makes a step. If with it the swarm task begins to send its controller an event that
  came by gossip, the message was delivered to the node then.
\<close>

inductive gossip_runs ::
  "net \<Rightarrow> ext \<Rightarrow> (nat \<Rightarrow> nat \<Rightarrow> bool) \<Rightarrow> network \<times> gossip_log \<Rightarrow> network \<times> gossip_log \<Rightarrow> bool"
  for net :: net and x :: ext and linked :: "nat \<Rightarrow> nat \<Rightarrow> bool" and st0 :: "network \<times> gossip_log" where
  gossip_start: "gossip_runs net x linked st0 st0"
| gossip_none: "gossip_runs net x linked st0 (nw, log) \<Longrightarrow> system_step net x (nw n) s \<Longrightarrow>
    (\<And>i ev. sy_phase s = Sending i ev \<Longrightarrow> sy_phase (nw n) = Sending i ev \<or> genuine net nw i \<and> \<not> is_gossip i) \<Longrightarrow>
    gossip_runs net x linked st0 (nw(n := s), log)"
| gossip_delivered: "gossip_runs net x linked st0 (nw, log) \<Longrightarrow> system_step net x (nw n) s \<Longrightarrow>
    sy_phase (nw n) = Looping \<Longrightarrow> sy_phase s = Sending (SiEvent (SeGossipsub (GsMessage m)) None) ev \<Longrightarrow>
    deliverable net x linked nw log n m \<Longrightarrow>
    gossip_runs net x linked st0 (nw(n := s), log(n := log n @ [m]))"

lemma gossip_trans:
  assumes "gossip_runs net x linked st1 st2" "gossip_runs net x linked st0 st1"
  shows "gossip_runs net x linked st0 st2"
  using assms by (induction rule: gossip_runs.induct) (auto intro: gossip_runs.intros)

lemma gossip_runs_node: "gossip_runs net x linked st0 st \<Longrightarrow> system_runs net x (fst st0 n) (fst st n)"
  by (induction rule: gossip_runs.induct) (auto intro: system_runs.intros)

text \<open>What was delivered had been published, so such a network is one where messages are genuine.\<close>

definition log_genuine :: "net \<Rightarrow> network \<Rightarrow> gossip_log \<Rightarrow> bool" where
  "log_genuine net nw log \<longleftrightarrow> (\<forall>n. \<forall>m\<in>set (log n). published net nw (gm_topic m) (gm_data m))"

lemma published_grows:
  assumes "system_step net x (nw n) s" "published net nw t d"
  shows "published net (nw(n := s)) t d"
proof -
  from assms(2) obtain m v where m: "(Publish t d, v) \<in> set (sc_calls (sy_swarm (nw m)))" "is_ok (call_result net (Publish t d) v)"
    by (auto simp: published_def)
  have "(Publish t d, v) \<in> set (sc_calls (sy_swarm ((nw(n := s)) m)))"
    using m(1) step_keeps_calls [OF assms(1)] by auto
  with m(2) show ?thesis unfolding published_def by blast
qed

lemma has_message_published: "has_message net nw log p t d \<Longrightarrow> log_genuine net nw log \<Longrightarrow> published net nw t d"
  by (auto simp: has_message_def log_genuine_def published_def)

lemma gossip_in_network:
  assumes "gossip_runs net x linked st0 st" "sources_genuine net (fst st0)" "log_genuine net (fst st0) (snd st0)"
  shows "network_runs net x (fst st0) (fst st) \<and> sources_genuine net (fst st) \<and> log_genuine net (fst st) (snd st)"
  using assms
proof (induction rule: gossip_runs.induct)
  case gossip_start
  then show ?case by (simp add: network_runs.network_start)
next
  case (gossip_none nw log n s)
  then have IH: "network_runs net x (fst st0) nw" "sources_genuine net nw" "log_genuine net nw log" by simp_all
  have g: "genuine net nw i" if "sy_phase s = Sending i ev" for i ev
    using gossip_none.hyps(3) [OF that] IH(2) unfolding sources_genuine_def by blast
  with IH gossip_none.hyps(2) have "network_runs net x (fst st0) (nw(n := s))" "sources_genuine net (nw(n := s))"
    by (blast intro: network_runs.network_step sources_step)+
  moreover have "log_genuine net (nw(n := s)) log"
    using IH(3) published_grows [of net x nw n s, OF gossip_none.hyps(2)] unfolding log_genuine_def by blast
  ultimately show ?case unfolding fst_conv snd_conv by blast
next
  case (gossip_delivered nw log n s m ev)
  then have IH: "network_runs net x (fst st0) nw" "sources_genuine net nw" "log_genuine net nw log" by simp_all
  obtain p where "has_message net nw log p (gm_topic m) (gm_data m)"
    using gossip_delivered.hyps(5) by (auto simp: deliverable_def)
  then have p: "published net nw (gm_topic m) (gm_data m)" using IH(3) by (rule has_message_published)
  have g: "genuine net nw i" if "sy_phase s = Sending i ev'" for i ev'
    using that gossip_delivered.hyps(4) p by auto
  with IH gossip_delivered.hyps(2) have "network_runs net x (fst st0) (nw(n := s))" "sources_genuine net (nw(n := s))"
    by (blast intro: network_runs.network_step sources_step)+
  moreover have "log_genuine net (nw(n := s)) (log(n := log n @ [m]))"
    unfolding log_genuine_def
  proof (intro allI ballI)
    fix k g assume "g \<in> set ((log(n := log n @ [m])) k)"
    then have "g = m \<or> g \<in> set (log k)" by (auto split: if_splits)
    with IH(3) p have "published net nw (gm_topic g) (gm_data g)" by (auto simp: log_genuine_def)
    then show "published net (nw(n := s)) (gm_topic g) (gm_data g)" by (rule published_grows [of net x nw n s, OF gossip_delivered.hyps(2)])
  qed
  ultimately show ?case unfolding fst_conv snd_conv by blast
qed

text \<open>What a node does without hearing anything new, it does in a network as well.\<close>

lemma quiet_in_gossip:
  assumes "quiet_runs net x (nw n) s"
  shows "gossip_runs net x linked (nw, log) (nw(n := s), log)"
  using assms
proof (induction rule: rtranclp_induct)
  case base
  then show ?case by (simp add: gossip_runs.gossip_start)
next
  case (step t u)
  have s: "system_step net x ((nw(n := t)) n) u" using step.hyps(2) by (simp add: quiet_def)
  have "sy_phase ((nw(n := t)) n) = Sending i ev" if "sy_phase u = Sending i ev" for i ev
    using step.hyps(2) that by (simp add: quiet_def)
  with gossip_runs.gossip_none [OF step.IH s] show ?case unfolding fun_upd_upd by blast
qed

text \<open>A node that is configured for a premint type listens to its topic, if its swarm takes the subscription.\<close>

lemma node_listens:
  assumes "node_starts x en ks net swarm_of rules cfg s0" "system_runs net x s0 s" "name \<in> set (premint_names cfg)"
    and "\<And>v. is_ok (call_result net (Subscribe (msg_topic name)) v)"
  shows "listens_to net s (msg_topic name)"
proof -
  obtain key where c: "swarm_start net (cfg_peer_port cfg) (initial_network_ip cfg)
      (swarm_new net cfg (swarm_of key)) = (Ok (), sy_swarm s0)"
    using assms(1) by (auto simp: node_starts_def system_start_def start_p2p_services_def
      Let_def is_ok_iff split: outcome.splits prod.splits)
  from start_subscribes [OF c] assms(3) have "subscribed net (sy_swarm s0) (msg_topic name)" by blast
  then obtain v where "(Subscribe (msg_topic name), v) \<in> set (sc_calls (sy_swarm s0))" by (auto simp: subscribed_def)
  with runs_keep_calls [OF assms(2)] assms(4) show ?thesis unfolding listens_to_def by blast
qed

section \<open>A message arrives\<close>

text \<open>A node that is ready: its controller lives, has no events before it, and its swarm task is in its loop.\<close>

definition ready :: "system \<Rightarrow> bool" where
  "ready s \<longleftrightarrow> \<not> sy_panicked s \<and> sy_phase s = Looping \<and> sy_events s = []"

lemma node_clears:
  assumes "system_inv net x cfg s" "sy_phase s = Looping"
  shows "\<exists>t. quiet_runs net x s t \<and> sy_phase t = Looping \<and> sy_outgoing t = [] \<and> sy_events t = sy_events s \<and>
    sy_controller t = sy_controller s \<and> sy_panicked t = sy_panicked s"
proof -
  obtain t where t: "quiet_runs net x s t" "sy_phase t = Looping" "sy_commands t = []" "sy_outgoing t = sy_outgoing s"
    "sy_events t = sy_events s" "sy_controller t = sy_controller s" "sy_panicked t = sy_panicked s"
    using take_commands [OF assms(2)] by blast
  obtain u cmds where u: "quiet_runs net x t u" "u = t\<lparr>sy_commands := sy_commands t @ cmds, sy_outgoing := []\<rparr>"
    using quiet_send [OF quiet_inv [OF t(1) assms(1)]] t(3) by (auto simp: channel_capacity_def)
  have "quiet_runs net x s u" using t(1) u(1) by (rule rtranclp_trans)
  with t u(2) show ?thesis by (intro exI [of _ u]) simp
qed

text \<open>
  A premint that can be delivered to a ready node reaches its controller, which validates it:
  the message comes in, its event goes into the channel, and when the command the controller may
  have waited to send is out, the controller takes the event.
\<close>

lemma premint_arrives:
  assumes "connect_ok x" "ready (nw b)" "system_inv net x cfg (nw b)" "deliverable net x linked nw log b g"
    and "\<And>names. event_for net x names (SeGossipsub (GsMessage g)) = [EvPremintReceived m]"
  shows "\<exists>s. gossip_runs net x linked (nw, log) (nw(b := s), log(b := log b @ [g])) \<and>
    sy_controller s = snd (validate_and_insert x m (sy_controller (nw b)))"
proof -
  let ?b = "nw b" and ?i = "SiEvent (SeGossipsub (GsMessage g)) None" and ?ev = "EvPremintReceived m"
  let ?log = "log(b := log b @ [g])"
  let ?s1 = "?b\<lparr>sy_phase := Sending ?i ?ev\<rparr>"
  have 1: "system_step net x ?b ?s1"
    using system_step.swarm_offers [of ?b ?i net x ?ev] assms(2,5) by (simp add: ready_def events_sent_eq)
  let ?s2 = "?s1\<lparr>sy_events := [?ev], sy_phase := Looping, sy_swarm := swarm_turn net x ?i (swarm_now ?s1)\<rparr>"
  have 2: "system_step net x ?s1 ?s2"
    using system_step.event_sent [of ?s1 ?i ?ev net x] assms(2) by (simp add: ready_def channel_capacity_def)
  have inv: "system_inv net x cfg ?s2" using assms(3) 1 2 by (blast intro: system_step_inv)
  obtain s3 where s3: "quiet_runs net x ?s2 s3" "sy_phase s3 = Looping" "sy_outgoing s3 = []" "sy_events s3 = [?ev]"
    "sy_controller s3 = sy_controller ?b" "\<not> sy_panicked s3"
    using node_clears [OF inv] assms(2) by (auto simp: ready_def)
  obtain r c where v: "validate_and_insert x m (sy_controller ?b) = (r, c)"
    by (cases "validate_and_insert x m (sy_controller ?b)")
  let ?j = "InEvent ?ev []"
  let ?s4 = "(controller_take ?j s3)\<lparr>sy_controller := c, sy_outgoing := new_commands (sy_controller ?b) c,
      sy_phase := Looping\<rparr>"
  have 4: "system_step net x s3 ?s4"
    using system_step.controller_turns [of s3 ?j x x 0 c net] assms(1) s3 v by simp
  have "gossip_runs net x linked (nw, log) (nw(b := ?s1), ?log)"
    using gossip_runs.gossip_delivered [OF gossip_runs.gossip_start 1 _ _ assms(4)] assms(2) by (simp add: ready_def)
  moreover have "gossip_runs net x linked (nw(b := ?s1), ?log) ((nw(b := ?s1))(b := ?s2), ?log)"
    using 2 by (intro gossip_runs.gossip_none [OF gossip_runs.gossip_start]) simp_all
  moreover have "gossip_runs net x linked (nw(b := ?s2), ?log) ((nw(b := ?s2))(b := s3), ?log)"
    using s3(1) by (intro quiet_in_gossip) simp
  moreover have "gossip_runs net x linked (nw(b := s3), ?log) ((nw(b := s3))(b := ?s4), ?log)"
    using 4 by (intro gossip_runs.gossip_none [OF gossip_runs.gossip_start]) simp_all
  ultimately have "gossip_runs net x linked (nw, log) (nw(b := ?s4), ?log)"
    by (simp only: fun_upd_upd) (blast intro: gossip_trans)
  with v show ?thesis by (intro exI [of _ ?s4]) simp
qed

section \<open>A premint spreads\<close>

lemma fresh_network:
  assumes "\<And>n. fresh_node net x (cfg n) (nw0 n)"
  shows "sources_genuine net nw0" "connect_ok x"
    "network_runs net x nw0 nw \<Longrightarrow> system_inv net x (cfg n) (nw n)"
proof -
  show "network_runs net x nw0 nw \<Longrightarrow> system_inv net x (cfg n) (nw n)"
    using fresh_inv(1) [OF assms(1)] system_runs_inv [OF network_node_runs] by blast
  have n: "\<exists>en ks swarm_of rules. node_starts x en ks net swarm_of rules (cfg m) (nw0 m)" for m
    using assms [of m] by (auto simp: fresh_node_def)
  then have "sy_phase (nw0 m) = Looping" for m using start_state(2) by blast
  then show "sources_genuine net nw0" by (simp add: sources_genuine_def)
  show "connect_ok x" using n [of n] by (auto simp: node_starts_def)
qed

text \<open>The node that accepted a premint publishes it.\<close>

lemma accepted_is_published:
  assumes "connect_ok x" "system_inv net x cfg (nw a)" "\<not> doomed (nw a)"
    and "ScBroadcast m \<in> set (ct_swarm (sy_controller (nw a)))" "to_json x m = Ok d"
  shows "\<exists>s. quiet_runs net x (nw a) s \<and> has_published s (msg_topic (md_kind (metadata x m))) d"
proof -
  obtain s where s: "quiet_runs net x (nw a) s" "at_rest s" using quiet_settles [OF assms(1-3)] by blast
  have "submitted (sy_controller (nw a)) \<subseteq> submitted (sy_controller s)"
    using s(1) by (induction rule: rtranclp_induct) (auto simp: quiet_def dest: step_keeps_commands)
  then have "ScBroadcast m \<in> set (ct_swarm (sy_controller s))" using assms(4) by (auto simp: submitted_def)
  then have "has_published s (msg_topic (md_kind (metadata x m))) d"
    using rested_has_published [OF quiet_inv [OF s(1) assms(2)]] s(2) assms(5) by (simp add: at_rest_def)
  with s(1) show ?thesis by blast
qed

text \<open>
  The nodes of the list can be reached from those of the set, each over a link to one that was
  there before it.
\<close>

fun links_up :: "(nat \<Rightarrow> nat \<Rightarrow> bool) \<Rightarrow> nat set \<Rightarrow> nat list \<Rightarrow> bool" where
  "links_up linked S [] \<longleftrightarrow> True"
| "links_up linked S (b # bs) \<longleftrightarrow> b \<notin> S \<and> (\<exists>p\<in>S. linked b p) \<and> links_up linked (insert b S) bs"

lemma links_up_fresh: "links_up linked S bs \<Longrightarrow> b \<in> set bs \<Longrightarrow> b \<notin> S"
  by (induction bs arbitrary: S) auto

lemma premint_message_event:
  assumes "serde_ok x" "json_text_ok x" "to_json x m = Ok d" "gm_topic g = msg_topic (md_kind (metadata x m))" "gm_data g = d"
  shows "event_for net x names (SeGossipsub (GsMessage g)) = [EvPremintReceived m]"
    "gossipsub_message_id net x g = sha256_digest net (md_id (metadata x m))"
  using wire_premint [OF assms(1-3)] assms(4,5) by (simp_all add: gossipsub_message_id_def from_json_def)

lemma everyone_hears:
  assumes x: "serde_ok x" "json_text_ok x" "connect_ok x" and inv: "\<And>n. system_inv net x (cfg n) (nw n)"
    and d: "to_json x m = Ok d" "t = msg_topic (md_kind (metadata x m))"
    and "\<And>p. p \<in> S \<Longrightarrow> has_message net nw log p t d" "links_up linked S bs"
    and "\<And>b. b \<in> set bs \<Longrightarrow> ready (nw b) \<and> listens_to net (nw b) t \<and>
      unseen net x nw log b (sha256_digest net (md_id (metadata x m)))"
  shows "\<exists>nw' log'. gossip_runs net x linked (nw, log) (nw', log') \<and> (\<forall>n. n \<notin> set bs \<longrightarrow> nw' n = nw n) \<and>
    (\<forall>b\<in>set bs. sy_controller (nw' b) = snd (validate_and_insert x m (sy_controller (nw b))))"
  using inv assms(7-9)
proof (induction bs arbitrary: S nw log)
  case Nil
  then show ?case by (intro exI [of _ nw] exI [of _ log]) (simp add: gossip_runs.gossip_start)
next
  case (Cons b bs)
  from Cons.prems(3) obtain p where p: "p \<in> S" "linked b p" "b \<notin> S" "links_up linked (insert b S) bs" by auto
  let ?g = "\<lparr>gm_topic = t, gm_data = d, gm_propagated_by = sv_local_peer_id (sc_view (sy_swarm (nw p)))\<rparr>"
  have b: "ready (nw b)" "listens_to net (nw b) t" "unseen net x nw log b (sha256_digest net (md_id (metadata x m)))"
    using Cons.prems(4) [of b] by simp_all
  have g: "event_for net x names (SeGossipsub (GsMessage ?g)) = [EvPremintReceived m]"
    "gossipsub_message_id net x ?g = sha256_digest net (md_id (metadata x m))" for names
    using premint_message_event [OF x(1,2) d(1), of ?g] d(2) by simp_all
  have "deliverable net x linked nw log b ?g"
    using b(2,3) g(2) p(1,2) Cons.prems(2) [OF p(1)] by (auto simp: deliverable_def)
  from premint_arrives [OF x(3) b(1) Cons.prems(1) this g(1)] obtain s
    where s: "gossip_runs net x linked (nw, log) (nw(b := s), log(b := log b @ [?g]))"
      "sy_controller s = snd (validate_and_insert x m (sy_controller (nw b)))" by blast
  let ?nw = "nw(b := s)" and ?log = "log(b := log b @ [?g])"
  have new: "c \<notin> insert b S" if "c \<in> set bs" for c using links_up_fresh [OF p(4) that] .
  have inv': "system_inv net x (cfg n) (?nw n)" for n
  proof -
    have "system_runs net x (nw n) (?nw n)"
      using gossip_runs_node [OF s(1), of n] by simp
    then show ?thesis using Cons.prems(1) by (rule system_runs_inv)
  qed
  have "has_message net ?nw ?log q t d" if "q \<in> insert b S" for q
    using that p(3) Cons.prems(2) [of q] by (cases "q = b") (auto simp: has_message_def)
  moreover have "ready (?nw c) \<and> listens_to net (?nw c) t \<and> unseen net x ?nw ?log c (sha256_digest net (md_id (metadata x m)))"
    if "c \<in> set bs" for c
    using Cons.prems(4) [of c] new [OF that] that by (simp add: unseen_def)
  ultimately obtain nw' log' where nw': "gossip_runs net x linked (?nw, ?log) (nw', log')" "\<forall>n. n \<notin> set bs \<longrightarrow> nw' n = ?nw n"
    "\<forall>c\<in>set bs. sy_controller (nw' c) = snd (validate_and_insert x m (sy_controller (?nw c)))"
    using Cons.IH [OF inv' _ p(4)] by blast
  have "b \<notin> set bs" using new by blast
  then have "\<forall>c\<in>set (b # bs). sy_controller (nw' c) = snd (validate_and_insert x m (sy_controller (nw c)))"
    using nw'(2,3) s(2) by auto
  moreover have "\<forall>n. n \<notin> set (b # bs) \<longrightarrow> nw' n = nw n" using nw'(2) by simp
  ultimately show ?case using gossip_trans [OF nw'(1) s(1)] by blast
qed

text \<open>
  C6. An accepted premint can reach everyone: take nodes that started empty and pass messages on
  as gossipsub does, each only to neighbours that subscribed to the topic and have not seen the
  message id. If one node has accepted a premint, its two tasks are not waiting for each other,
  and the swarms take its publication and the subscriptions, then the network can go on so that
  this node publishes it and, hop by hop, any number of further nodes linked up with it have run
  their own rules on it, where those that accept it then hold it; provided these nodes are
  configured for its kind, ready, and have not seen a premint of the same identifier before.
\<close>

theorem accepted_premint_can_reach_everyone:
  assumes "serde_ok x" "json_text_ok x" "\<And>n. fresh_node net x (cfg n) (nw0 n)"
    and "gossip_runs net x linked (nw0, \<lambda>n. []) (nw, log)"
    and "ScBroadcast m \<in> set (ct_swarm (sy_controller (nw a)))" "\<not> doomed (nw a)"
    and "to_json x m = Ok d" "t = msg_topic (md_kind (metadata x m))"
    and "\<And>v. is_ok (call_result net (Publish t d) v)" "\<And>v. is_ok (call_result net (Subscribe t) v)"
    and "links_up linked {a} bs" "\<And>b. b \<in> set bs \<Longrightarrow> md_kind (metadata x m) \<in> set (premint_names (cfg b)) \<and>
      ready (nw b) \<and> unseen net x nw log b (sha256_digest net (md_id (metadata x m)))"
  shows "\<exists>nw' log'. gossip_runs net x linked (nw, log) (nw', log') \<and> has_published (nw' a) t d \<and>
    (\<forall>b\<in>set bs. case validate_and_insert x m (sy_controller (nw b)) of (r, c) \<Rightarrow>
       sy_controller (nw' b) = c \<and> (is_ok r \<longrightarrow> holds_premint x (nw' b) m))"
proof -
  note f = fresh_network [OF assms(3)]
  have net: "network_runs net x nw0 nw"
    using gossip_in_network [OF assms(4)] f(1) by (simp add: log_genuine_def)
  note inv = f(3) [OF net]
  obtain s where s: "quiet_runs net x (nw a) s" "has_published s t d"
    using accepted_is_published [where nw = nw and a = a, OF f(2) inv assms(6,5,7)] assms(8) by blast
  let ?nw = "nw(a := s)"
  have q: "gossip_runs net x linked (nw, log) (?nw, log)" using s(1) by (rule quiet_in_gossip)
  have inv': "system_inv net x (cfg n) (?nw n)" for n
    using gossip_runs_node [OF q, of n] inv by (auto intro: system_runs_inv)
  have a: "has_message net ?nw log p t d" if "p \<in> {a}" for p
    using that s(2) assms(9) by (auto simp: has_published_def has_message_def)
  have b: "ready (?nw b) \<and> listens_to net (?nw b) t \<and> unseen net x ?nw log b (sha256_digest net (md_id (metadata x m)))"
    if "b \<in> set bs" for b
  proof -
    have "b \<noteq> a" using links_up_fresh [OF assms(11) that] by simp
    moreover obtain en ks swarm_of rules where "node_starts x en ks net swarm_of rules (cfg b) (nw0 b)"
      using assms(3) [of b] by (auto simp: fresh_node_def)
    then have "listens_to net (nw b) t"
      using node_listens [OF _ network_node_runs [OF net]] assms(8,10) assms(12) [OF that] by blast
    ultimately show ?thesis using assms(12) [OF that] by (simp add: unseen_def)
  qed
  obtain nw' log' where nw': "gossip_runs net x linked (?nw, log) (nw', log')" "\<forall>n. n \<notin> set bs \<longrightarrow> nw' n = ?nw n"
    "\<forall>b\<in>set bs. sy_controller (nw' b) = snd (validate_and_insert x m (sy_controller (?nw b)))"
    using everyone_hears [OF assms(1,2) f(2) inv' assms(7,8) a assms(11) b] by blast
  have "a \<notin> set bs" using links_up_fresh [OF assms(11)] by blast
  have "case validate_and_insert x m (sy_controller (nw b)) of (r, c) \<Rightarrow>
       sy_controller (nw' b) = c \<and> (is_ok r \<longrightarrow> holds_premint x (nw' b) m)" if "b \<in> set bs" for b
  proof -
    have c: "sy_controller (nw' b) = snd (validate_and_insert x m (sy_controller (nw b)))"
      using nw'(3) that \<open>a \<notin> set bs\<close> by auto
    have "good_store x (ct_store (sy_controller (nw b)))" using inv by (simp add: system_inv_def controller_inv_def)
    with c show ?thesis using inserted_is_stored by (auto simp: holds_premint_def is_ok_iff)
  qed
  moreover have "has_published (nw' a) t d" using nw'(2) \<open>a \<notin> set bs\<close> s(2) by simp
  ultimately show ?thesis using gossip_trans [OF nw'(1) q] by (intro exI [of _ nw'] exI [of _ log'] conjI ballI)
qed

section \<open>A network to run\<close>

lemma sample_accepts:
  "is_ok (fst (validate_and_insert sample_ext (ZoraV2 signed_v2) (sample_controller Check (sample_store False))))"
  using signed_as_stored [of "CHR ''A''" 0 Check False] by simp

lemma start_unseen: "sample_node_starts s0 \<Longrightarrow> nw n = s0 \<Longrightarrow> unseen sample_net sample_ext nw (\<lambda>n. []) n i"
proof -
  assume s0: "sample_node_starts s0" "nw n = s0"
  note n = s0(1) [unfolded sample_node_starts_def]
  have "(Publish t d, v) \<notin> set (sc_calls (sy_swarm s0))" for t d v
  proof
    assume p: "(Publish t d, v) \<in> set (sc_calls (sy_swarm s0))"
    have inv: "system_inv sample_net sample_ext (sample_config Check) s0" using n by (rule start_inv)
    moreover have "sy_taken s0 = []" using inv start_state(6) [OF n] by (simp add: system_inv_def channels_ok_def)
    ultimately have "sanctioned sample_net sample_ext (sample_config Check) {} (Publish t d, v)"
      using running_sanctioned p unfolding system_inv_def by fastforce
    then show False by simp
  qed
  with s0(2) show ?thesis by (simp add: unseen_def)
qed

text \<open>Three nodes in a row: the first accepts, and the last hears of it from the second.\<close>

theorem accepted_premint_can_reach_everyone_witness:
  "\<exists>nw0 nw log nw' log'. sample_node_starts (nw0 1) \<and> sample_node_starts (nw0 2) \<and>
     gossip_runs sample_net sample_ext (\<lambda>n p. n = Suc p) (nw0, \<lambda>n. []) (nw, log) \<and>
     gossip_runs sample_net sample_ext (\<lambda>n p. n = Suc p) (nw, log) (nw', log') \<and>
     holds_premint sample_ext (nw' 1) (ZoraV2 signed_v2) \<and> holds_premint sample_ext (nw' 2) (ZoraV2 signed_v2)"
proof -
  let ?m = "ZoraV2 signed_v2" and ?linked = "\<lambda>n p. n = Suc p"
  obtain s0 t c where t: "sample_node_starts s0" "view sample_ext (ct_store (sy_controller s0)) = Map.empty"
    "system_step sample_net sample_ext s0 t" "t = s0\<lparr>sy_controller := c, sy_outgoing := [ScBroadcast ?m]\<rparr>"
    "sy_phase t = Looping" "sy_controller s0 = sample_controller Check (sample_store False)"
    using sample_submit by blast
  let ?first = "\<lambda>n::nat. s0"
  have fresh: "fresh_node sample_net sample_ext (sample_config Check) (?first n)" for n
    using t(1,2) by (auto simp: fresh_node_def sample_node_starts_def)
  let ?nw = "?first(0 := t)"
  have runs: "gossip_runs sample_net sample_ext ?linked (?first, \<lambda>n. []) (?nw, \<lambda>n. [])"
    using t(3,5) gossip_runs.gossip_none [of sample_net sample_ext ?linked "(?first, \<lambda>n. [])" ?first "\<lambda>n. []" 0 t,
      OF gossip_runs.gossip_start] by simp
  have "system_inv sample_net sample_ext (sample_config Check) t"
    using t(3) fresh_inv(1) [OF fresh] by (rule system_step_inv)
  then have sent: "ScBroadcast ?m \<in> set (ct_swarm (sy_controller (?nw 0)))"
    using t(4) by (simp add: system_inv_def channels_ok_def)
  have free: "\<not> doomed (?nw 0)" using t(5) by (simp add: doomed_def deadlocked_def)
  obtain d where d: "to_json sample_ext ?m = Ok d"
    by (rule serde_okE [OF sample_serde_ok, of ?m]) (simp add: to_json_def)
  have takes: "is_ok (call_result sample_net k v)" for k v by (simp add: sample_net_def)
  have "ready s0" using start_state [OF t(1) [unfolded sample_node_starts_def]] by (simp add: ready_def)
  moreover have "md_kind (metadata sample_ext ?m) \<in> set (premint_names (sample_config Check))"
    by (simp add: sample_config_def premint_names_def config_test_default_def zora_metadata_def ns_v2_def)
  ultimately have B: "md_kind (metadata sample_ext ?m) \<in> set (premint_names (sample_config Check)) \<and>
      ready (?nw b) \<and> unseen sample_net sample_ext ?nw (\<lambda>n. []) b (sha256_digest sample_net (md_id (metadata sample_ext ?m)))"
    if "b \<in> set [1, 2]" for b
    using that start_unseen [OF t(1), of ?nw b] by auto
  have up: "links_up ?linked {0} [1, 2]" by simp
  from accepted_premint_can_reach_everyone [OF sample_serde_ok sample_json_text_ok fresh runs sent free d refl takes takes up B]
  obtain nw log where nw: "gossip_runs sample_net sample_ext ?linked (?nw, \<lambda>n. []) (nw, log)"
    "\<forall>b\<in>set [1, 2]. case validate_and_insert sample_ext ?m (sy_controller (?nw b)) of (r, c) \<Rightarrow>
       sy_controller (nw b) = c \<and> (is_ok r \<longrightarrow> holds_premint sample_ext (nw b) ?m)"
    by blast
  have "holds_premint sample_ext (nw b) ?m" if "b \<in> set [1, 2]" for b
    using bspec [OF nw(2) that] that sample_accepts t(6) by (auto simp: case_prod_unfold)
  with nw(1) runs t(1) show ?thesis
    by (intro exI [of _ ?first] exI [of _ ?nw] exI [of _ "\<lambda>n. []"] exI [of _ nw] exI [of _ log]) simp
qed

end
