(* ===== verification/Evidence.thy ===== *)
theory Evidence
  imports Progress Writes
begin

text \<open>
  Why a node takes a premint off its list: over every run, a premint that is stored as not yet
  minted stays so until the node is told of a mint by its own watcher or by a peer whose word
  has been checked.
\<close>

section \<open>Premints that are not minted\<close>

definition unminted :: "ext \<Rightarrow> premint_storage \<Rightarrow> string \<times> string \<Rightarrow> bool" where
  "unminted x s k \<longleftrightarrow> (\<exists>e. view x s k = Some e \<and> \<not> en_seen e)"

lemma stored_unminted:
  "stored_by x A s t \<Longrightarrow> good_store x s \<Longrightarrow> good_store x t \<and> (unminted x s k \<longrightarrow> unminted x t k)"
proof (induction rule: stored_by.induct)
  case (stored_more t p)
  then have g: "good_store x t" "unminted x s k \<longrightarrow> unminted x t k" by simp_all
  moreover have "unminted x t k \<longrightarrow> unminted x (snd (store x t p)) k"
    using db.put_mono [OF g(1)] unfolding unminted_def by metis
  ultimately show ?case by (simp add: db.put_good)
qed simp

lemma mark_unminted:
  assumes "good_store x s" "unminted x s k" "\<not> unminted x (snd (mark_seen_on_chain x s cl)) k"
  shows "k = (cl_kind cl, cl_premint_id cl)"
proof (cases "db_up s")
  case True
  from assms(2,3) db.mark_law [OF assms(1) True, of cl] show ?thesis
    by (auto simp: unminted_def spec_mark_def claims_entry_def split: if_splits)
qed (use assms(2,3) db.mark_Err [of s x cl] in simp)

lemma turn_unminted:
  assumes "good_store x (ct_store c)" "unminted x (ct_store c) k"
    "\<not> unminted x (ct_store (snd (loop_turn x now i c))) k"
  shows "\<exists>cl. input_claim i = Some cl \<and> k = (cl_kind cl, cl_premint_id cl)"
proof (cases "input_claim i")
  case None
  from stored_unminted [OF turn_stores [OF None] assms(1)] assms(2,3) show ?thesis by blast
next
  case (Some cl)
  from turn_marks [OF Some, of x now c] mark_unminted [OF assms(1,2), of cl] assms(2,3) Some show ?thesis by auto
qed

section \<open>Reasons\<close>

text \<open>
  The word of the node's own watcher, of a trusted peer in mode \<open>trust\<close>, and otherwise that of a
  peer whose claim names a transaction with a log of the factory that mints the stored premint.
\<close>

fun has_reason :: "ext \<Rightarrow> controller \<Rightarrow> controller_input \<Rightarrow> bool" where
  "has_reason x c (InCommand (CcResolveOnchainMint cl)) \<longleftrightarrow> True"
| "has_reason x c (InEvent (EvMintSeenOnchain pc) schedule) \<longleftrightarrow>
     (if cfg_chain_inclusion_mode (ct_config c) = Trust
      then pc_from_peer_id pc \<in> set (trusted_peers x (ct_config c))
      else (\<exists>p rpc tx log. get_for_id_and_kind x (st_db (ct_store c)) (cl_premint_id (pc_claim pc))
           (PremintName (cl_kind (pc_claim pc))) = Ok (ZoraV2 p) \<and>
         receipt_of x rpc (cl_tx_hash (pc_claim pc)) = Ok (Some tx) \<and> log \<in> set (rc_logs tx) \<and>
         zora_mint_of ns_v2 x p tx log))"
| "has_reason x c _ \<longleftrightarrow> False"

lemma change_has_reason:
  assumes "good_store x (ct_store c)" "input_claim i = Some cl"
    "ct_store (snd (loop_turn x now i c)) \<noteq> ct_store c"
  shows "has_reason x c i"
proof (cases i rule: input_claim.cases)
  case (2 pc schedule)
  then have "ct_store (snd (handle_event_onchain_claim x pc c)) \<noteq> ct_store c"
    using assms(3) by (simp split: prod.splits outcome.splits)
  from peer_claims_need_evidence [OF assms(1) this] 2 show ?thesis by auto
qed (use assms(2) in simp_all)

text \<open>A turn of the controller with such an input, from one state of the node to the next.\<close>

definition told_of_mint :: "ext \<Rightarrow> string \<times> string \<Rightarrow> system \<Rightarrow> system \<Rightarrow> bool" where
  "told_of_mint x k s t \<longleftrightarrow> (\<exists>y now i cl. same_text x y \<and> controller_can_take i s \<and>
     snd (loop_turn y now i (sy_controller s)) = sy_controller t \<and> input_claim i = Some cl \<and>
     k = (cl_kind cl, cl_premint_id cl) \<and> has_reason y (sy_controller s) i)"

lemma same_unminted: "same_text x y \<Longrightarrow> unminted y = unminted x"
  by (intro HOL.ext) (simp add: unminted_def same_store(4))

lemma told_by_turn:
  assumes "controller_inv x cfg (sy_controller s)" "unminted x (ct_store (sy_controller s)) k"
    "\<not> unminted x (ct_store c) k" "same_text x y" "controller_can_take i s"
    "loop_turn y now i (sy_controller s) = (r, c)" "sy_controller t = c"
  shows "told_of_mint x k s t"
proof -
  have g: "good_store y (ct_store (sy_controller s))"
    using assms(1,4) by (simp add: controller_inv_def same_store(3))
  obtain cl where cl: "input_claim i = Some cl" "k = (cl_kind cl, cl_premint_id cl)"
    using turn_unminted [OF g, of k now i] assms(2,3,6) by (auto simp: same_unminted [OF assms(4)])
  have "ct_store (snd (loop_turn y now i (sy_controller s))) \<noteq> ct_store (sy_controller s)" using assms(2,3,6) by auto
  from change_has_reason [OF g cl(1) this] cl assms(4-7) show ?thesis unfolding told_of_mint_def by (metis snd_conv)
qed

lemma step_unminted:
  assumes "system_step net x s t" "system_inv net x cfg s"
    "unminted x (ct_store (sy_controller s)) k" "\<not> unminted x (ct_store (sy_controller t)) k"
  shows "told_of_mint x k s t"
proof -
  have c: "controller_inv x cfg (sy_controller s)" using assms(2) by (simp add: system_inv_def)
  from assms(1) show ?thesis
  proof (cases rule: system_step.cases)
    case (controller_turns i y now c)
    then show ?thesis using assms(4) told_by_turn [OF c assms(3) _ controller_turns(5,4,7), of t] by simp
  next
    case (controller_panics i y now c)
    then show ?thesis using assms(4) told_by_turn [OF c assms(3) _ controller_panics(5,4,7), of t] by simp
  next
    case (database_changes db)
    with assms(3,4) show ?thesis by (simp add: unminted_def database_view)
  qed (use assms(3,4) in simp_all)
qed

text \<open>
  C7. No premint is taken for minted without a reason: over every run of a started node, a
  premint that is stored as not minted stays so, unless at some step in between the controller
  was told of a mint of it, by the node's own watcher, in mode \<open>trust\<close> by a configured peer, and
  in the other modes by a peer whose claim names a transaction whose receipt, as the node itself
  got it, has a log of the factory that mints this premint.
\<close>

theorem minted_for_a_reason:
  assumes "node_starts x en ks net swarm_of rules cfg s0" "system_runs net x s0 s1" "system_runs net x s1 s"
    "unminted x (ct_store (sy_controller s1)) k" "\<not> unminted x (ct_store (sy_controller s)) k"
  shows "\<exists>s2 s3. system_runs net x s1 s2 \<and> system_step net x s2 s3 \<and> system_runs net x s3 s \<and> told_of_mint x k s2 s3"
  using assms(3,5)
proof (induction rule: system_runs.induct)
  case (runs_step t u)
  show ?case
  proof (cases "unminted x (ct_store (sy_controller t)) k")
    case True
    have "system_inv net x cfg t" using node_inv [OF assms(1)] runs_trans [OF runs_step.hyps(1) assms(2)] by blast
    from step_unminted [OF runs_step.hyps(2) this True runs_step.prems] runs_step.hyps show ?thesis
      by (blast intro: system_runs.runs_start)
  next
    case False
    with runs_step.IH runs_step.hyps(2) show ?thesis by (blast intro: system_runs.runs_step)
  qed
qed (use assms(4) in simp)

section \<open>A premint that is minted\<close>

text \<open>The claim a node's own watcher would report for a premint.\<close>

definition mint_of :: "ext \<Rightarrow> premint_types \<Rightarrow> inclusion_claim" where
  "mint_of x m = \<lparr>cl_premint_id = md_id (metadata x m), cl_chain_id = md_chain_id (metadata x m), cl_tx_hash = 7,
     cl_log_index = 0, cl_kind = name_of (md_kind (metadata x m))\<rparr>"

lemma told_and_marked:
  assumes "connect_ok x" "good_store x (ct_store (sy_controller s))" "holds_premint x s m"
    "\<not> sy_panicked s" "sy_outgoing s = []"
  shows "\<exists>t. system_step net x s t \<and> \<not> unminted x (ct_store (sy_controller t)) (premint_key x m)"
proof -
  let ?c = "sy_controller s" and ?i = "InCommand (CcResolveOnchainMint (mint_of x m))"
  obtain r d where d: "loop_turn x 0 ?i ?c = (r, d)" by (cases "loop_turn x 0 ?i ?c")
  then have r: "r = Returns ()" "ct_store d = snd (mark_seen_on_chain x (ct_store ?c) (mint_of x m))"
    by (auto simp: Let_def)
  let ?t = "s\<lparr>sy_controller := d, sy_outgoing := new_commands ?c d\<rparr>"
  have get: "rd_get_for_id_and_kind (storage_reader x) (ct_store ?c) (md_id (metadata x m)) (md_kind (metadata x m)) = Ok m"
    using assms(3) by (simp add: holds_premint_def storage_reader_def)
  have up: "db_up (ct_store ?c)"
  proof (rule ccontr)
    assume "\<not> db_up (ct_store ?c)"
    from db.get_down [OF this, of x "md_id (metadata x m)" "md_kind (metadata x m)"] get show False by auto
  qed
  have "\<not> unminted x (ct_store d) (premint_key x m)"
    using db.get_Ok [OF assms(2) get] db.mark_law [OF assms(2) up, of "mint_of x m"]
    by (auto simp: r(2) unminted_def spec_mark_def claims_entry_def premint_key_def mint_of_def split: if_splits)
  moreover have "system_step net x s ?t"
    using system_step.controller_turns [OF assms(4,5) _ same_text_refl assms(1), of ?i 0 d net] d r(1) by simp
  ultimately show ?thesis by (intro exI [of _ ?t]) simp
qed

lemma stored_none_seen:
  "stored_by x A s t \<Longrightarrow> good_store x s \<Longrightarrow> (\<And>k e. view x s k = Some e \<Longrightarrow> \<not> en_seen e) \<Longrightarrow>
     good_store x t \<and> (\<forall>k e. view x t k = Some e \<longrightarrow> \<not> en_seen e)"
proof (induction rule: stored_by.induct)
  case (stored_more t p)
  then have g: "good_store x t" "\<forall>k e. view x t k = Some e \<longrightarrow> \<not> en_seen e" by simp_all
  have "\<not> en_seen e" if "view x (snd (store x t p)) k = Some e" for k e
  proof (cases "fst (store x t p)")
    case (Inl r)
    then have "view x t k = Some e" using that by (simp add: db.put_Err)
    with g(2) show ?thesis by blast
  next
    case (Inr u)
    then have "spec_put x p (view x t) k = Some e" using db.put_Ok [OF g(1), of p] that by simp
    moreover have "view x t k = Some e' \<Longrightarrow> \<not> en_seen e'" for e' using g(2) by blast
    ultimately show ?thesis by (auto simp: spec_put_def split: option.splits if_splits)
  qed
  with g(1) show ?case by (simp add: db.put_good)
qed simp

theorem minted_for_a_reason_witness:
  "\<exists>s0 s1 s s2 s3. sample_node_starts s0 \<and> system_runs sample_net sample_ext s0 s1 \<and>
     holds_premint sample_ext s1 (ZoraV2 signed_v2) \<and> system_runs sample_net sample_ext s1 s2 \<and>
     system_step sample_net sample_ext s2 s3 \<and> system_runs sample_net sample_ext s3 s \<and>
     told_of_mint sample_ext (premint_key sample_ext (ZoraV2 signed_v2)) s2 s3"
proof -
  let ?m = "ZoraV2 signed_v2"
  obtain s0 a c where a: "sample_node_starts s0" "system_step sample_net sample_ext s0 a" "sy_commands s0 = []"
    "view sample_ext (ct_store (sy_controller s0)) = Map.empty" "holds_premint sample_ext a ?m"
    "a = s0\<lparr>sy_controller := c, sy_outgoing := [ScBroadcast ?m]\<rparr>"
    "ct_store (sy_controller a) = ct_store (snd (validate_and_insert sample_ext ?m (sy_controller s0)))"
    using sample_submit by blast
  note n = a(1) [unfolded sample_node_starts_def]
  let ?s1 = "a\<lparr>sy_commands := sy_commands a @ [ScBroadcast ?m], sy_outgoing := []\<rparr>"
  have b: "system_step sample_net sample_ext a ?s1"
    using a(3,6) by (intro system_step.command_sent) (simp_all add: channel_capacity_def)
  have r1: "system_runs sample_net sample_ext s0 ?s1"
    using runs_first [OF a(2) runs_first [OF b system_runs.runs_start]] .
  have g: "good_store sample_ext (ct_store (sy_controller ?s1))" "connect_ok sample_ext"
    using node_inv [OF n r1] n by (simp_all add: system_inv_def controller_inv_def node_starts_def)
  have h: "holds_premint sample_ext ?s1 ?m" using a(5) by (simp add: holds_premint_def)
  have live: "\<not> sy_panicked ?s1" using a(6) start_state(1) [OF n] by simp
  obtain t where t: "system_step sample_net sample_ext ?s1 t"
    "\<not> unminted sample_ext (ct_store (sy_controller t)) (premint_key sample_ext ?m)"
    using told_and_marked [OF g(2,1) h live] by auto
  have "unminted sample_ext (ct_store (sy_controller ?s1)) (premint_key sample_ext ?m)"
  proof -
    have g0: "good_store sample_ext (ct_store (sy_controller s0))"
      using start_inv [OF n] by (simp add: system_inv_def controller_inv_def)
    have "stored_by sample_ext {?m} (ct_store (sy_controller s0)) (ct_store (sy_controller ?s1))"
      using stored_insert [of ?m "{?m}" sample_ext "sy_controller s0"] a(7) by simp
    from stored_none_seen [OF this g0] a(4)
    have "\<forall>k e. view sample_ext (ct_store (sy_controller ?s1)) k = Some e \<longrightarrow> \<not> en_seen e" by simp
    moreover have "\<exists>e. view sample_ext (ct_store (sy_controller ?s1)) (premint_key sample_ext ?m) = Some e"
      using db.get_Ok [OF g(1), of "md_id (metadata sample_ext ?m)" "md_kind (metadata sample_ext ?m)" ?m] h
      by (auto simp: holds_premint_def storage_reader_def premint_key_def)
    ultimately show ?thesis unfolding unminted_def by blast
  qed
  from minted_for_a_reason [OF n r1 runs_first [OF t(1) system_runs.runs_start] this t(2)] a(1) r1 h
  show ?thesis by blast
qed

end
