(* ===== verification/Examples.thy ===== *)
theory Examples
  imports Run
begin

text \<open>
  The programs under \<open>src/examples\<close> that use the library: a node with two more rules and two more
  routes (\<open>extra_rules_and_routes.rs\<close>), a client that builds, signs, checks and submits a premint
  (\<open>sign_and_submit.rs\<close>), and a bot that mints the premints of one creator (\<open>mintpool-bot\<close>).
  Wallets, hexadecimal digits, the sending of transactions and of HTTP requests are parameters.
\<close>

section \<open>Extra rules\<close>

definition must_start_with_a :: "ext \<Rightarrow> 's rule" where
  "must_start_with_a x =
     \<lparr>rl_name = ''collection address must start with 0xa'',
      rl_check = (\<lambda>item ctx.
        case item of
          ZoraV2 premint \<Rightarrow>
            (if starts_with (to_lowercase (addr_checksum x (zp_collection_address premint))) ''0xa''
             then Ok Accept else Ok (Reject ''collection address must start with 0xa''))
        | _ \<Rightarrow> Ok (Ignore ''not a zora v2 premint''))\<rparr>"

text \<open>\<open>U256::to::<u128>\<close> panics if the number does not fit.\<close>

definition to_u128 :: "u256 \<Rightarrow> 128 word outcome" where
  "to_u128 n = (if unat n < 2 ^ 128 then Returns (ucast n) else Panic)"

definition only_odd_token_ids ::
  "premint_metadata \<Rightarrow> 's rule_context \<Rightarrow> (evaluation, report) result outcome" where
  "only_odd_token_ids meta ctx =
     (case to_u128 (md_token_id meta) of
        Panic \<Rightarrow> Panic
      | Returns n \<Rightarrow> Returns (if n mod 2 = 1 then Ok Accept else Ok (Reject ''token id must be odd'')))"

text \<open>A rule that panics gives no result; this one never does, see \<open>odd_rule_returns\<close>.\<close>

definition odd_rule :: "ext \<Rightarrow> 's rule" where
  "odd_rule x = metadata_rule x ''only_odd_token_ids''
     (\<lambda>meta ctx. case only_odd_token_ids meta ctx of Returns r \<Rightarrow> r | Panic \<Rightarrow> Err (Eyre ''panicked''))"

definition extra_rules :: "config \<Rightarrow> ext \<Rightarrow> premint_storage rules_engine" where
  "extra_rules cfg x =
     add_rule (add_rule (new_with_default_rules x (storage_reader x) cfg) (odd_rule x)) (must_start_with_a x)"

section \<open>Extra routes\<close>

definition my_simple_route :: string where
  "my_simple_route = ''wow so simple''"

datatype count_body = CountError string | Count int

text \<open>The column \<open>count\<close> of the row is there and is a number: it is the count the query asks for.\<close>

definition query_route :: "ext \<Rightarrow> app_state \<Rightarrow> status_code \<times> count_body" where
  "query_route x state =
     (case sql_count (as_db state) (\<lambda>_. True) of
        Inl e \<Rightarrow> (INTERNAL_SERVER_ERROR, CountError (''failed to get count, '' @ sqlx_text x e))
      | Inr n \<Rightarrow> (OK_STATUS, Count n))"

definition extra_routes :: "(string \<times> http_method \<times> endpoint) list" where
  "extra_routes =
     [(''/simple'', GET, RtCustom ''my_simple_route''), (''/count'', GET, RtCustom ''query_route'')]"

text \<open>\<open>main\<close> up to waiting for a signal. It starts no watchers of the chains.\<close>

definition extra_main ::
  "ext \<Rightarrow> engine \<Rightarrow> keys \<Rightarrow> net \<Rightarrow> (peer_id \<Rightarrow> swarm_view) \<Rightarrow> (string \<Rightarrow> (unit, string) result) \<Rightarrow>
     (started_node \<times> app_state \<times> (string \<times> http_method \<times> endpoint) list) outcome" where
  "extra_main x en ks net swarm_of bind =
     (case init x of
        Panic \<Rightarrow> Panic
      | Returns cfg \<Rightarrow>
          (case start_p2p_services x en ks net swarm_of (extra_rules cfg) cfg of
             Panic \<Rightarrow> Panic
           | Returns nd \<Rightarrow>
               (let router = router_with_defaults @ extra_routes
                in case start_api bind cfg (Ok ()) (Some (Ok (st_db (ct_store (sn_controller nd))))) of
                     Panic \<Rightarrow> Panic
                   | Returns (state, addr) \<Rightarrow> Returns (nd, state, router))))"

section \<open>Signing a premint\<close>

text \<open>A wallet, as its address and the hexadecimal text of its signature over a hash.\<close>

record wallet =
  wl_address :: address
  wl_sign :: "b256 \<Rightarrow> (string, string) result"

definition example_contract :: "address \<Rightarrow> contract_config" where
  "example_contract user =
     \<lparr>contractAdmin = user, contractURI = ''ipfs://someCollectionCid'',
      contractName = ''Example Zora premint mintpool message''\<rparr>"

definition example_token :: "address \<Rightarrow> v2_token_config" where
  "example_token user =
     \<lparr>v2_tokenURI = ''ipfs://tokenIPFSCid'', v2_maxSupply = 10000, v2_maxTokensPerAddress = 10,
      v2_pricePerToken = 0, v2_mintStart = 0, v2_mintDuration = 0, v2_royaltyBPS = 0,
      v2_payoutRecipient = user, v2_fixedPriceMinter = 0, v2_createReferral = 0\<rparr>"

definition example_premint :: "address \<Rightarrow> address \<Rightarrow> v2" where
  "example_premint user collection_address =
     \<lparr>zp_collection_address = collection_address, zp_chain_id = 7777777,
      zp_collection = example_contract user,
      zp_premint = \<lparr>tokenConfig = example_token user, ca_uid = 1, ca_version = 2, ca_deleted = False\<rparr>,
      zp_signature = []\<rparr>"

definition sign_premint :: "ext \<Rightarrow> wallet \<Rightarrow> v2 \<Rightarrow> (v2, string) result" where
  "sign_premint x w p =
     (case wl_sign w (ns_hash ns_v2 x (zp_premint p) (eip712_domain_of ns_v2 p)) of
        Inl e \<Rightarrow> Err e
      | Inr sig \<Rightarrow> Ok (p\<lparr>zp_signature := sig\<rparr>))"

text \<open>
  What \<open>main\<close> does to the world: the two lines it prints, as the values printed, and the request it
  posts, as the address and the premint in its body.
\<close>

datatype client_effect = PrintedPremint v2 | PrintedResult results | Posted string premint_types

text \<open>
  \<open>main\<close>, with the wallet that was drawn, the decoder of the contract's answer and the HTTP client,
  whose answer is an error only if none came back; \<open>port\<close> is the random port of the
  configuration. A failed assertion panics. The effects are in the order they happen.
\<close>

definition sign_and_submit ::
  "ext \<Rightarrow> engine \<Rightarrow> wallet \<Rightarrow> (bytes \<Rightarrow> (address, string) result) \<Rightarrow> u64 \<Rightarrow>
     (string \<Rightarrow> premint_types \<Rightarrow> (unit, string) result) \<Rightarrow> (unit, report) result outcome \<times> client_effect list" where
  "sign_and_submit x en w decode_address port post =
     (case get_rpc x Map.empty 7777777 of
        (Inl e, _) \<Rightarrow> (Returns (Err e), [])
      | (Inr chain, cache) \<Rightarrow>
          (case view_contract_call x decode_address (GetContractAddress (example_contract (wl_address w))) chain
                  PREMINT_FACTORY_ADDR of
             Inl e \<Rightarrow> (Returns (Err e), [])
           | Inr collection_address \<Rightarrow>
               (case sign_premint x w (example_premint (wl_address w) collection_address) of
                  Inl e \<Rightarrow> (Returns (Err (Eyre e)), [])
                | Inr premint \<Rightarrow>
                    (let printed = PrintedPremint premint; premint_item = ZoraV2 premint;
                         cfg = config_test_default port
                     in case storage_new en cfg of
                          Panic \<Rightarrow> (Panic, [printed])
                        | Returns s \<Rightarrow>
                            (let rules = add_default_rules x (storage_reader x) (rules_engine_new cfg)
                             in case evaluate x (storage_reader x) rules cache premint_item s of
                               (Inl e, _) \<Rightarrow> (Returns (Err e), [printed])
                             | (Inr result, _) \<Rightarrow>
                                 (if \<not> is_accept result then (Panic, [printed, PrintedResult result])
                                  else (Returns (map_err Eyre
                                          (post ''https://mintpool.zora.co/submit-premint'' premint_item)),
                                        [printed, PrintedResult result,
                                         Posted ''https://mintpool.zora.co/submit-premint'' premint_item])))))))"

section \<open>The bot\<close>

text \<open>The struct of the call \<open>premintV2\<close>, and the transaction that makes it.\<close>

record premint_v2_call =
  pv_contractConfig :: contract_config
  pv_premintConfig :: "v2_token_config creator_attribution"
  pv_signature :: bytes
  pv_quantityToMint :: u256
  pv_mintRecipient :: address
  pv_mintComment :: string
  pv_mintRewardsRecipients :: "address list"

record tx_request =
  tx_from :: address
  tx_to :: address
  tx_input :: premint_v2_call
  tx_value :: u256
  tx_chain_id :: u64
  tx_gas_price :: "128 word"
  tx_max_fee_per_gas :: "128 word"

text \<open>
  A signer is a wallet, and the chain it signs for if it is bound to one, as \<open>with_chain_id\<close> does.
  A provider is made from an address and a signer.
\<close>

record bot_signer =
  sg_wallet :: wallet
  sg_chain_id :: "u64 option"

record mint_provider =
  mp_url :: string
  mp_signer :: bot_signer

text \<open>
  The third party code of the bot: the \<open>hex\<close> crate, parsing of addresses and URLs, making a
  wallet from a key, and what a provider answers. Sending a transaction includes that alloy fills
  it in and signs it with the provider's signer.
\<close>

record bot_ext =
  bx_hex_decode :: "string \<Rightarrow> (bytes, string) result"
  bx_parse_checksummed :: "string \<Rightarrow> (address, string) result"
  bx_wallet_from_bytes :: "bytes \<Rightarrow> (wallet, string) result"
  bx_parse_url :: "string \<Rightarrow> (string, string) result"
  bx_gas_price :: "mint_provider \<Rightarrow> (128 word, string) result"
  bx_max_priority_fee :: "mint_provider \<Rightarrow> (128 word, string) result"
  bx_send_transaction :: "mint_provider \<Rightarrow> tx_request \<Rightarrow> (unit, string) result"
  bx_get_receipt :: "mint_provider \<Rightarrow> tx_request \<Rightarrow> (unit, string) result"

record minter =
  mi_signer :: bot_signer
  mi_creator_address :: address

text \<open>\<open>B256::from_slice\<close> panics if there are not 32 bytes.\<close>

definition minter_new :: "ext \<Rightarrow> bot_ext \<Rightarrow> minter outcome" where
  "minter_new x b =
     (case env_var x ''PRIVATE_KEY'' of
        None \<Rightarrow> Panic
      | Some key \<Rightarrow>
          (if \<not> starts_with key ''0x'' then Panic
           else case bx_hex_decode b (drop 2 key) of
                  Inl e \<Rightarrow> Panic
                | Inr pkey \<Rightarrow>
                    (case bx_parse_checksummed b
                            (case env_var x ''CREATOR_ADDRESS'' of
                               None \<Rightarrow> ''0x17cd072cBd45031EFc21Da538c783E0ed3b25DCc'' | Some a \<Rightarrow> a) of
                       Inl e \<Rightarrow> Panic
                     | Inr creator_address \<Rightarrow>
                         (if length pkey \<noteq> 32 then Panic
                          else case bx_wallet_from_bytes b pkey of
                                 Inl e \<Rightarrow> Panic
                               | Inr signer \<Rightarrow>
                                   Returns \<lparr>mi_signer = \<lparr>sg_wallet = signer, sg_chain_id = None\<rparr>,
                                     mi_creator_address = creator_address\<rparr>))))"

text \<open>The chain id is not used: the provider is always that of the Zora chain.\<close>

definition make_provider_for_chain :: "bot_ext \<Rightarrow> u64 \<Rightarrow> bot_signer \<Rightarrow> (mint_provider, string) result" where
  "make_provider_for_chain b chain_id signer =
     (case bx_parse_url b ''https://rpc.zora.energy'' of
        Inl e \<Rightarrow> Err e
      | Inr url \<Rightarrow> Ok \<lparr>mp_url = url, mp_signer = signer\<rparr>)"

definition mint_call :: "bot_signer \<Rightarrow> v2 \<Rightarrow> bytes \<Rightarrow> premint_v2_call" where
  "mint_call signer premint sig =
     \<lparr>pv_contractConfig = zp_collection premint, pv_premintConfig = zp_premint premint,
      pv_signature = sig, pv_quantityToMint = 1, pv_mintRecipient = wl_address (sg_wallet signer),
      pv_mintComment = [], pv_mintRewardsRecipients = []\<rparr>"

text \<open>The transactions handed to a provider to be sent come with the result.\<close>

definition mint_zora_premint ::
  "bot_ext \<Rightarrow> minter \<Rightarrow> v2 \<Rightarrow> ((unit, string) result \<times> (mint_provider \<times> tx_request) list) outcome" where
  "mint_zora_premint b mi premint =
     (let signer = (mi_signer mi)\<lparr>sg_chain_id := Some (zp_chain_id premint)\<rparr>
      in case make_provider_for_chain b (zp_chain_id premint) signer of
           Inl e \<Rightarrow> Returns (Err e, [])
         | Inr provider \<Rightarrow>
             (case bx_hex_decode b (zp_signature premint) of
                Inl e \<Rightarrow> Panic
              | Inr sig \<Rightarrow>
                  Returns
                    (case bx_gas_price b provider of
                       Inl e \<Rightarrow> (Err e, [])
                     | Inr gas_price \<Rightarrow>
                         (case bx_max_priority_fee b provider of
                            Inl e \<Rightarrow> (Err e, [])
                          | Inr max_fee_per_gas \<Rightarrow>
                              (let tx = \<lparr>tx_from = wl_address (sg_wallet signer), tx_to = PREMINT_FACTORY_ADDR,
                                     tx_input = mint_call signer premint sig, tx_value = 777000000000000,
                                     tx_chain_id = 7777777, tx_gas_price = gas_price,
                                     tx_max_fee_per_gas = max_fee_per_gas\<rparr>
                               in case bx_send_transaction b provider tx of
                                    Inl e \<Rightarrow> (Err e, [(provider, tx)])
                                  | Inr _ \<Rightarrow> (bx_get_receipt b provider tx, [(provider, tx)]))))))"

definition minter_check ::
  "ext \<Rightarrow> bot_ext \<Rightarrow> minter \<Rightarrow> premint_types \<Rightarrow>
     ((evaluation, report) result \<times> (mint_provider \<times> tx_request) list) outcome" where
  "minter_check x b mi item =
     (case item of
        ZoraV2 premint \<Rightarrow>
          (if md_signer (metadata x (ZoraV2 premint)) = mi_creator_address mi then
             (case mint_zora_premint b mi premint of
                Panic \<Rightarrow> Panic
              | Returns (_, sent) \<Rightarrow> Returns (Ok (Reject ''Minted''), sent))
           else Returns (Ok Accept, []))
      | _ \<Rightarrow> Returns (Ok (Ignore ''not a zora premint''), []))"

text \<open>The rule as the engine sees it, once what it answers is known.\<close>

definition minter_rule :: "(evaluation, report) result \<Rightarrow> 's rule" where
  "minter_rule r = \<lparr>rl_name = ''simple minter'', rl_check = (\<lambda>item ctx. r)\<rparr>"

definition bot_rules :: "config \<Rightarrow> (evaluation, report) result \<Rightarrow> ext \<Rightarrow> premint_storage rules_engine" where
  "bot_rules cfg r x = add_rule (new_with_default_rules x (storage_reader x) cfg) (minter_rule r)"

text \<open>
  A premint arrives at the bot's node, which validates and inserts it under these rules: every
  rule runs, whatever the others say, unless the store cannot be read. A panic of the rule is
  one of the whole evaluation.
\<close>

definition bot_insert ::
  "ext \<Rightarrow> bot_ext \<Rightarrow> minter \<Rightarrow> config \<Rightarrow> premint_types \<Rightarrow> controller \<Rightarrow>
     ((results, report) result \<times> controller \<times> (mint_provider \<times> tx_request) list) outcome" where
  "bot_insert x b mi cfg item c =
     (case (case lookup_existing x (storage_reader x) item (storage_clone (ct_store c)) of
              Inl report \<Rightarrow> Returns (Ok Accept, [])
            | Inr existing \<Rightarrow> minter_check x b mi item) of
        Panic \<Rightarrow> Panic
      | Returns (r, sent) \<Rightarrow>
          (let (result, d) = validate_and_insert x item (c\<lparr>ct_rules := bot_rules cfg r\<rparr>)
           in Returns (result, d, sent)))"

end
