(* ===== verification/ExamplesProps.thy ===== *)
theory ExamplesProps
  imports Examples SystemRuns
begin

text \<open>
  What the example programs do: how the added rules restrict a node, that the premint the client
  builds is one the default rules accept, and what the bot does with premints it has not checked.
\<close>

section \<open>Added rules\<close>

lemma small_word_fits: "unat (w :: 'a::len word) < 2 ^ 64 \<Longrightarrow> take_bit n (unat w) < 2 ^ 128"
proof -
  assume "unat w < 2 ^ 64"
  with take_bit_nat_less_eq_self have "take_bit n (unat w) < 2 ^ 64" by (rule le_less_trans)
  also have "(2 :: nat) ^ 64 < 2 ^ 128" by simp
  finally show ?thesis .
qed

lemma token_id_fits: "unat (md_token_id (metadata x item)) < 2 ^ 128"
proof -
  have "unat (v :: u64) < 2 ^ 64" "unat (u :: u32) < 2 ^ 64" for u v
    using unsigned_less [of v, where 'a = nat] unsigned_less [of u, where 'a = nat] by simp_all
  then show ?thesis
    by (cases item) (simp_all only: simple_metadata_def zora_metadata_def unsigned_ucast_eq small_word_fits
        metadata.simps premint_metadata.simps)
qed

text \<open>The conversion of the token id never panics.\<close>

lemma odd_rule_returns:
  "only_odd_token_ids (metadata x item) ctx =
     Returns (if odd (unat (md_token_id (metadata x item))) then Ok Accept else Ok (Reject ''token id must be odd''))"
proof -
  let ?n = "md_token_id (metadata x item)"
  have "unat (ucast ?n :: 128 word) = unat ?n"
    using token_id_fits [of x item] by (simp add: unsigned_ucast_eq take_bit_nat_eq_self)
  then have "(ucast ?n :: 128 word) mod 2 = 1 \<longleftrightarrow> odd (unat ?n)"
    by (simp add: word_unat_eq_iff unat_mod odd_iff_mod_2_eq_one)
  with token_id_fits [of x item] show ?thesis by (simp add: only_odd_token_ids_def to_u128_def)
qed

lemma extra_engine [simp]:
  "re_rules (extra_rules cfg x) = all_rules x (storage_reader x) @ [odd_rule x, must_start_with_a x]"
  "re_use_rpc (extra_rules cfg x) = cfg_enable_rpc cfg"
  by (simp_all add: extra_rules_def add_rule_def)

definition address_allowed :: "ext \<Rightarrow> premint_types \<Rightarrow> bool" where
  "address_allowed x p \<longleftrightarrow>
     (\<forall>v. p = ZoraV2 v \<longrightarrow> starts_with (to_lowercase (addr_checksum x (zp_collection_address v))) ''0xa'')"

lemma extra_checks:
  "\<not> errored (check_rule p ctx (odd_rule x))" "\<not> errored (check_rule p ctx (must_start_with_a x))"
  "rejected (check_rule p ctx (odd_rule x)) \<longleftrightarrow> even (unat (md_token_id (metadata x p)))"
  "rejected (check_rule p ctx (must_start_with_a x)) \<longleftrightarrow> \<not> address_allowed x p"
  by (simp_all add: check_rule_def odd_rule_def odd_rule_returns must_start_with_a_def address_allowed_def
      split: premint_types.split)

text \<open>
  C39. The rules that the example adds only restrict what the default rules accept: its node
  accepts a premint exactly if the default rules do, the token id is odd and a V2 premint's
  collection address begins with \<open>0xa\<close>, or if a default rule failed to give an answer, which
  switches the added rules off as well.
\<close>

theorem extra_rules_restrict:
  assumes "good_store x s" "db_up s"
  shows "\<exists>rs rs' cache'.
    evaluate x (storage_reader x) (new_with_default_rules x (storage_reader x) cfg) cache p s = (Ok rs, cache') \<and>
    evaluate x (storage_reader x) (extra_rules cfg x) cache p s = (Ok rs', cache') \<and>
    (is_accept rs' \<longleftrightarrow> is_err rs \<or>
       is_accept rs \<and> odd (unat (md_token_id (metadata x p))) \<and> address_allowed x p)"
proof -
  obtain rpc cache' where r: "rules_rpc x (cfg_enable_rpc cfg) cache (md_chain_id (metadata x p)) = (rpc, cache')"
    by (cases "rules_rpc x (cfg_enable_rpc cfg) cache (md_chain_id (metadata x p))")
  let ?ctx = "\<lparr>ctx_storage = s, ctx_existing = existing_in x (view x s) p, ctx_rpc = rpc\<rparr>"
  let ?rs = "map (check_rule p ?ctx) (all_rules x (storage_reader x))"
  let ?rs' = "?rs @ [check_rule p ?ctx (odd_rule x), check_rule p ?ctx (must_start_with_a x)]"
  have "evaluate x (storage_reader x) (new_with_default_rules x (storage_reader x) cfg) cache p s = (Ok ?rs, cache')"
    "evaluate x (storage_reader x) (extra_rules cfg x) cache p s = (Ok ?rs', cache')"
    using r by (simp_all add: db.evaluate_up [OF assms] run_rules_def Let_def)
  moreover have "is_accept ?rs' \<longleftrightarrow> is_err ?rs \<or>
      is_accept ?rs \<and> odd (unat (md_token_id (metadata x p))) \<and> address_allowed x p"
    using extra_checks [of p ?ctx x] by (auto simp: is_accept_iff)
  ultimately show ?thesis by blast
qed

theorem extra_rules_restrict_witness:
  "\<exists>rs' cache'. evaluate sample_ext (storage_reader sample_ext) (extra_rules (config_test_default 0) sample_ext)
     Map.empty (ZoraV2 signed_v2) (sample_store True) = (Ok rs', cache')"
  using extra_rules_restrict [OF sample_good sample_up] by blast

section \<open>The premint of the client\<close>

text \<open>Recovering the signer of what a wallet signed gives the wallet's address.\<close>

definition wallet_ok :: "ext \<Rightarrow> wallet \<Rightarrow> bool" where
  "wallet_ok x w \<longleftrightarrow> (\<forall>h. \<exists>text sig. wl_sign w h = Ok text \<and> sig_from_str x text = Ok sig \<and>
     sig_recover x sig h = Ok (wl_address w))"

definition empty_store :: "ext \<Rightarrow> premint_storage \<Rightarrow> bool" where
  "empty_store x s \<longleftrightarrow> good_store x s \<and> db_up s \<and> view x s = Map.empty"

lemma empty_allows:
  assumes "empty_store x s" "uri_length_ok (md_uri (metadata x p))"
  shows "store_allows x s p"
proof -
  have "uri_free x s p"
    using assms(1) db.uri_law [of x s "md_uri (metadata x p)"]
    by (auto simp: empty_store_def uri_free_def storage_reader_def split: sum.splits)
  with assms show ?thesis by (simp add: store_allows_def supersedes_def existing_in_def empty_store_def)
qed

lemma agreed_rules:
  assumes "contract_agrees ns_v2 x rpc p" "ctx_rpc ctx = Some rpc"
  shows "is_authorized_to_create_premint x p ctx = Ok Accept" "not_minted x p ctx = Ok Accept"
    "premint_version_supported ns_v2 x p ctx = Ok Accept"
  using assms by (auto simp: contract_agrees_def Let_def view_contract_call_def is_authorized_to_create_premint_def
      not_minted_def premint_version_supported_def)

lemma clean_v2:
  assumes "good_store x s" "db_up s" "store_allows x s (ZoraV2 p)" "signed_by_admin ns_v2 x p"
    "zp_chain_id p \<in> {7777777, 999999999, 8453}" "contract_agrees ns_v2 x rpc p"
    "ctx = \<lparr>ctx_storage = s, ctx_existing = existing_in x (view x s) (ZoraV2 p), ctx_rpc = Some rpc\<rparr>"
    "r \<in> set (all_rules x (storage_reader x))"
  shows "is_ok (rl_check r (ZoraV2 p) ctx) \<and> not_rejected (rl_check r (ZoraV2 p) ctx)"
proof (cases "r \<in> set (general_rules x (storage_reader x))")
  case True
  then show ?thesis using general_rules_decide [OF assms(1,2,7)] assms(3) by blast
next
  case False
  then have "r \<in> set (all_v2_rules x)" using assms(8) by (simp add: all_rules_def)
  moreover have "\<not> signature_malformed ns_v2 x p"
    using assms(4) by (auto simp: signed_by_admin_def signature_malformed_def split: sum.splits)
  moreover note agreed_rules [OF assms(6), of ctx]
  ultimately show ?thesis using assms(4,5,7) by (auto simp: all_v2_rules_def rule_simps)
qed

lemma get_rpc_again: "get_rpc x c i = (Ok p, c') \<Longrightarrow> get_rpc x c' i = (Ok p, c')"
  by (auto simp: get_rpc_def connect_def split: sum.splits option.splits if_splits)

lemma signed_example:
  assumes "wallet_ok x w"
  obtains p where "sign_premint x w (example_premint (wl_address w) a) = Ok p" "signed_by_admin ns_v2 x p"
    "p = (example_premint (wl_address w) a)\<lparr>zp_signature := zp_signature p\<rparr>"
proof -
  let ?p = "example_premint (wl_address w) a"
  let ?h = "ns_hash ns_v2 x (zp_premint ?p) (eip712_domain_of ns_v2 ?p)"
  obtain t sg where s: "wl_sign w ?h = Ok t" "sig_from_str x t = Ok sg" "sig_recover x sg ?h = Ok (wl_address w)"
    using spec [OF assms [unfolded wallet_ok_def], of ?h] by blast
  let ?q = "?p\<lparr>zp_signature := t\<rparr>"
  have "sign_premint x w ?p = Ok ?q" using s(1) by (simp add: sign_premint_def)
  moreover have "eip712_domain_of ns_v2 ?q = eip712_domain_of ns_v2 ?p" by (simp add: eip712_domain_of_def)
  then have "signed_by_admin ns_v2 x ?q"
    using s by (simp add: signed_by_admin_def) (simp add: example_premint_def example_contract_def)
  ultimately show ?thesis using that by simp
qed

text \<open>
  C38. The client's premint is one a node takes: if the wallet's signature is recovered to its own
  address, the factory contract answers that the admin may create the premint, that it is not
  minted and that its version is supported, and the client's database starts empty, then the
  premint that the client builds is signed by its admin, the wallet's owner; the default rules,
  evaluated on it, all give an answer and accept it; and the client posts this very premint to
  the node and returns what came of the request, having printed the premint and the results.
\<close>

theorem signed_example_is_accepted:
  assumes "wallet_ok x w" "get_rpc x Map.empty 7777777 = (Ok rpc, cache)"
    and "view_contract_call x dec (GetContractAddress (example_contract (wl_address w))) rpc PREMINT_FACTORY_ADDR = Ok a"
    and "contract_agrees ns_v2 x rpc (example_premint (wl_address w) a)"
    and "storage_new en (config_test_default port) = Returns s" "empty_store x s"
  shows "\<exists>p rs cache'. signed_by_admin ns_v2 x p \<and> md_signer (metadata x (ZoraV2 p)) = wl_address w \<and>
    evaluate x (storage_reader x) (new_with_default_rules x (storage_reader x) (config_test_default port)) cache
      (ZoraV2 p) s = (Ok rs, cache') \<and>
    \<not> is_err rs \<and> is_accept rs \<and>
    sign_and_submit x en w dec port post =
      (Returns (map_err Eyre (post ''https://mintpool.zora.co/submit-premint'' (ZoraV2 p))),
       [PrintedPremint p, PrintedResult rs, Posted ''https://mintpool.zora.co/submit-premint'' (ZoraV2 p)])"
proof -
  obtain p where p: "sign_premint x w (example_premint (wl_address w) a) = Ok p" "signed_by_admin ns_v2 x p"
    "p = (example_premint (wl_address w) a)\<lparr>zp_signature := zp_signature p\<rparr>"
    using assms(1) by (rule signed_example)
  have f: "zp_chain_id p = 7777777" "v2_tokenURI (tokenConfig (zp_premint p)) = ''ipfs://tokenIPFSCid''"
    "contractAdmin (zp_collection p) = wl_address w"
    by (subst p(3); simp add: example_premint_def example_token_def example_contract_def)+
  have agrees: "contract_agrees ns_v2 x rpc p"
    using assms(4) by (subst p(3)) (simp add: contract_agrees_def)
  have up: "good_store x s" "db_up s" using assms(6) by (simp_all add: empty_store_def)
  have allows: "store_allows x s (ZoraV2 p)"
    by (rule empty_allows [OF assms(6)]) (simp add: uri_length_ok_def zora_metadata_def ns_v2_def f(2) starts_with_def)
  obtain rpc' cache' where r: "rules_rpc x (cfg_enable_rpc (config_test_default port)) cache (md_chain_id (metadata x (ZoraV2 p))) =
      (rpc', cache')"
    and e: "evaluate x (storage_reader x) (new_with_default_rules x (storage_reader x) (config_test_default port)) cache
        (ZoraV2 p) s = (Ok (map (check_rule (ZoraV2 p) \<lparr>ctx_storage = s, ctx_existing = existing_in x (view x s) (ZoraV2 p),
          ctx_rpc = rpc'\<rparr>) (all_rules x (storage_reader x))), cache')"
    using default_evaluation [OF up, of "config_test_default port" cache "ZoraV2 p"] by blast
  have "rpc' = Some rpc"
    using r get_rpc_again [OF assms(2)] by (simp add: rules_rpc_def config_test_default_def zora_metadata_def f(1))
  define rs where "rs = map (check_rule (ZoraV2 p) \<lparr>ctx_storage = s, ctx_existing = existing_in x (view x s) (ZoraV2 p),
      ctx_rpc = Some rpc\<rparr>) (all_rules x (storage_reader x))"
  have ok: "\<not> is_err rs" "is_accept rs"
    using clean_v2 [OF up allows p(2) _ agrees refl] f(1) unfolding rs_def is_accept_checks is_err_checks by blast+
  have e': "evaluate x (storage_reader x) (new_with_default_rules x (storage_reader x) (config_test_default port)) cache
      (ZoraV2 p) s = (Ok rs, cache')"
    unfolding rs_def e \<open>rpc' = Some rpc\<close> ..
  have "sign_and_submit x en w dec port post =
      (Returns (map_err Eyre (post ''https://mintpool.zora.co/submit-premint'' (ZoraV2 p))),
       [PrintedPremint p, PrintedResult rs, Posted ''https://mintpool.zora.co/submit-premint'' (ZoraV2 p)])"
    by (simp add: sign_and_submit_def Let_def assms(2,3,5) p(1) e' [unfolded new_with_default_rules_def] ok(2))
  moreover have "md_signer (metadata x (ZoraV2 p)) = wl_address w" using f(3) by (simp add: zora_metadata_def)
  ultimately show ?thesis using p(2) e' ok by blast
qed

section \<open>The bot\<close>

text \<open>
  alloy signs a transaction only for the chain the signer is bound to: sending one that names
  another chain is an error (\<open>TransactionChainIdMismatch\<close>).
\<close>

definition signer_checks_chain :: "bot_ext \<Rightarrow> bool" where
  "signer_checks_chain b \<longleftrightarrow> (\<forall>provider tx chain. sg_chain_id (mp_signer provider) = Some chain \<and> chain \<noteq> tx_chain_id tx \<longrightarrow>
     \<not> is_ok (bx_send_transaction b provider tx))"

lemma bot_rejects:
  assumes "good_store x (ct_store c)" "db_up (ct_store c)"
    and "validate_and_insert x p (c\<lparr>ct_rules := bot_rules cfg (Ok (Reject why))\<rparr>) = (res, d)"
    and "\<not> is_err (fst (run_rules x (new_with_default_rules x (storage_reader x) cfg) (ct_chains c) p
      (storage_clone (ct_store c)) (existing_in x (view x (ct_store c)) p)))"
  shows "\<not> is_ok res" "ct_store d = ct_store c"
proof -
  let ?c = "c\<lparr>ct_rules := bot_rules cfg (Ok (Reject why))\<rparr>"
  let ?rs = "fst (run_rules x (bot_rules cfg (Ok (Reject why)) x) (ct_chains c) p
      (storage_clone (ct_store c)) (existing_in x (view x (ct_store c)) p))"
  have "\<exists>q\<in>set ?rs. rejected q"
    by (auto simp: run_rules_def bot_rules_def add_rule_def minter_rule_def check_rule_def Let_def split: prod.split)
  moreover have "\<not> is_err ?rs"
    using assms(4) by (auto simp: run_rules_def bot_rules_def add_rule_def minter_rule_def check_rule_def is_err_def Let_def
        split: prod.splits)
  ultimately have "\<not> is_accept ?rs" by (auto simp: is_accept_iff)
  with validate_store [of x ?c ?rs p] assms(1-3) show "\<not> is_ok res" "ct_store d = ct_store c" by simp_all
qed

text \<open>
  C40. The bot acts on premints it has not checked. Whatever the other rules say of a V2 premint
  that names the creator as its admin, the bot panics if the signature is not hexadecimal, which
  any peer can bring about, and otherwise hands a transaction that mints it on the Zora chain to a
  provider whose signer is bound to the premint's own chain. For a premint of another chain
  sending is refused, so that such a premint is never minted. Whatever came of the
  transaction, the rule rejects the premint: it is not stored and the store stays as it was, so
  that the bot does the same the next time the premint arrives; unless a default rule failed to
  give an answer, which lets the premint pass.
\<close>

theorem bot_acts_unchecked:
  assumes "signer_checks_chain b" "good_store x (ct_store c)" "db_up (ct_store c)"
    and "contractAdmin (zp_collection p) = mi_creator_address mi"
    and "signer = (mi_signer mi)\<lparr>sg_chain_id := Some (zp_chain_id p)\<rparr>"
    and "bx_parse_url b ''https://rpc.zora.energy'' = Ok url" "provider = \<lparr>mp_url = url, mp_signer = signer\<rparr>"
    and "bx_gas_price b provider = Ok price" "bx_max_priority_fee b provider = Ok fee"
  shows "case bx_hex_decode b (zp_signature p) of
      Inl e \<Rightarrow> bot_insert x b mi cfg (ZoraV2 p) c = Panic
    | Inr sig \<Rightarrow> \<exists>res d tx. bot_insert x b mi cfg (ZoraV2 p) c = Returns (res, d, [(provider, tx)]) \<and>
        tx_chain_id tx = 7777777 \<and> tx_to tx = PREMINT_FACTORY_ADDR \<and> tx_input tx = mint_call signer p sig \<and>
        (zp_chain_id p \<noteq> 7777777 \<longrightarrow> \<not> is_ok (bx_send_transaction b provider tx)) \<and>
        (is_err (fst (run_rules x (new_with_default_rules x (storage_reader x) cfg) (ct_chains c) (ZoraV2 p)
            (storage_clone (ct_store c)) (existing_in x (view x (ct_store c)) (ZoraV2 p)))) \<or>
         \<not> is_ok res \<and> ct_store d = ct_store c)"
proof -
  note up = lookup_clone [OF assms(2,3), of "ZoraV2 p"]
  have signer: "md_signer (metadata x (ZoraV2 p)) = mi_creator_address mi" using assms(4) by (simp add: zora_metadata_def)
  have prov: "make_provider_for_chain b (zp_chain_id p) ((mi_signer mi)\<lparr>sg_chain_id := Some (zp_chain_id p)\<rparr>) = Ok provider"
    using assms(5-7) by (simp add: make_provider_for_chain_def)
  show ?thesis
  proof (cases "bx_hex_decode b (zp_signature p)")
    case (Inl e)
    then show ?thesis
      by (simp add: bot_insert_def up minter_check_def signer mint_zora_premint_def prov Let_def del: metadata.simps)
  next
    case (Inr sig)
    let ?tx = "\<lparr>tx_from = wl_address (sg_wallet signer), tx_to = PREMINT_FACTORY_ADDR, tx_input = mint_call signer p sig,
      tx_value = 777000000000000, tx_chain_id = 7777777, tx_gas_price = price, tx_max_fee_per_gas = fee\<rparr>"
    obtain r where m: "mint_zora_premint b mi p = Returns (r, [(provider, ?tx)])"
      using Inr assms(8,9) prov
      by (cases "bx_send_transaction b provider ?tx") (simp_all add: mint_zora_premint_def assms(5) [symmetric] Let_def)
    obtain res d where v: "validate_and_insert x (ZoraV2 p) (c\<lparr>ct_rules := bot_rules cfg (Ok (Reject ''Minted''))\<rparr>) = (res, d)"
      by (cases "validate_and_insert x (ZoraV2 p) (c\<lparr>ct_rules := bot_rules cfg (Ok (Reject ''Minted''))\<rparr>)")
    have "bot_insert x b mi cfg (ZoraV2 p) c = Returns (res, d, [(provider, ?tx)])"
      by (simp add: bot_insert_def up minter_check_def signer m v del: metadata.simps)
    moreover have "\<not> is_ok (bx_send_transaction b provider ?tx)" if "zp_chain_id p \<noteq> 7777777"
      using assms(1) that unfolding signer_checks_chain_def by (simp add: assms(5,7))
    moreover note bot_rejects [OF assms(2,3) v]
    ultimately show ?thesis unfolding Inr sum.case by (intro exI [of _ res] exI [of _ d] exI [of _ ?tx]) auto
  qed
qed

section \<open>The programs at concrete inputs\<close>

definition sample_wallet :: wallet where
  "sample_wallet = \<lparr>wl_address = 65, wl_sign = (\<lambda>h. Ok ''A'')\<rparr>"

theorem signed_example_is_accepted_witness:
  "\<exists>p rs. signed_by_admin ns_v2 sample_ext p \<and> is_accept rs \<and>
     sign_and_submit sample_ext sample_engine sample_wallet (\<lambda>b. Ok 5) 7778 (\<lambda>url p. Err ''no route'') =
     (Returns (Err (Eyre ''no route'')),
      [PrintedPremint p, PrintedResult rs, Posted ''https://mintpool.zora.co/submit-premint'' (ZoraV2 p)])"
proof -
  have w: "wallet_ok sample_ext sample_wallet" by (simp add: wallet_ok_def sample_wallet_def sample_ext_def)
  have rpc: "get_rpc sample_ext Map.empty 7777777 = (Ok (WsProvider ''wss://rpc.zora.energy''), zora_cache)"
    by (rule sample_rpc_cached) simp
  have a: "view_contract_call sample_ext (\<lambda>b. Ok 5) (GetContractAddress (example_contract (wl_address sample_wallet)))
      (WsProvider ''wss://rpc.zora.energy'') PREMINT_FACTORY_ADDR = Ok 5"
    by (simp add: view_contract_call_def sample_ext_def)
  have c: "contract_agrees ns_v2 sample_ext (WsProvider ''wss://rpc.zora.energy'')
      (example_premint (wl_address sample_wallet) 5)"
    by (auto simp: contract_agrees_def sample_ext_def ns_v2_def)
  have s: "storage_new sample_engine (config_test_default 7778) = Returns (sample_store False)"
    by (simp add: storage_new_def init_db_def expect_def sample_engine_def config_test_default_def sample_store_def)
  have e: "empty_store sample_ext (sample_store False)" by (simp add: empty_store_def)
  show ?thesis
    using signed_example_is_accepted [OF w rpc a c s e, of "\<lambda>url p. Err ''no route''"] by auto
qed

definition sample_bot :: bot_ext where
  "sample_bot =
     \<lparr>bx_hex_decode = (\<lambda>s. if s = ''zz'' then Err ''invalid character'' else Ok [7]),
      bx_parse_checksummed = (\<lambda>s. Ok 65), bx_wallet_from_bytes = (\<lambda>bs. Ok sample_wallet), bx_parse_url = Ok,
      bx_gas_price = (\<lambda>pv. Ok 9), bx_max_priority_fee = (\<lambda>pv. Ok 1),
      bx_send_transaction = (\<lambda>pv tx. if sg_chain_id (mp_signer pv) \<in> {None, Some (tx_chain_id tx)} then Ok ()
        else Err ''transaction-provided chain ID does not match''),
      bx_get_receipt = (\<lambda>pv tx. Ok ())\<rparr>"

lemma sample_bot_signs: "signer_checks_chain sample_bot"
  by (auto simp: signer_checks_chain_def sample_bot_def)

definition sample_minter :: minter where
  "sample_minter = \<lparr>mi_signer = \<lparr>sg_wallet = sample_wallet, sg_chain_id = None\<rparr>, mi_creator_address = 65\<rparr>"

text \<open>A premint with a bad signature, one of another chain, and one of the Zora chain.\<close>

theorem bot_acts_unchecked_witness:
  "bot_insert sample_ext sample_bot sample_minter (config_test_default 0)
     (ZoraV2 (signed_v2\<lparr>zp_signature := ''zz''\<rparr>)) (sample_controller Verify (sample_store True)) = Panic \<and>
   (\<exists>res d pv tx. bot_insert sample_ext sample_bot sample_minter (config_test_default 0)
     (ZoraV2 (signed_v2\<lparr>zp_chain_id := 8453, zp_signature := ''B''\<rparr>)) (sample_controller Verify (sample_store True)) =
       Returns (res, d, [(pv, tx)]) \<and> tx_chain_id tx = 7777777 \<and> \<not> is_ok (bx_send_transaction sample_bot pv tx)) \<and>
   (\<exists>res d pv tx. bot_insert sample_ext sample_bot sample_minter (config_test_default 0)
     (ZoraV2 (signed_v2\<lparr>zp_chain_id := 7777777, zp_signature := ''B''\<rparr>)) (sample_controller Verify (sample_store True)) =
       Returns (res, d, [(pv, tx)]) \<and> tx_chain_id tx = 7777777)"
proof -
  let ?c = "sample_controller Verify (sample_store True)"
  have f: "contractAdmin (zp_collection (signed_v2\<lparr>zp_signature := ''zz''\<rparr>)) = mi_creator_address sample_minter"
    "contractAdmin (zp_collection (signed_v2\<lparr>zp_chain_id := ch, zp_signature := ''B''\<rparr>)) =
      mi_creator_address sample_minter" for ch
    by (simp_all add: signed_as_def sample_v2_def default_defs sample_minter_def)
  have b: "bx_parse_url sample_bot ''https://rpc.zora.energy'' = Ok ''https://rpc.zora.energy''"
    "bx_gas_price sample_bot pv = Ok 9" "bx_max_priority_fee sample_bot pv = Ok 1" for pv by (simp_all add: sample_bot_def)
  have h: "bx_hex_decode sample_bot (zp_signature (signed_v2\<lparr>zp_signature := ''zz''\<rparr>)) = Err ''invalid character''"
    "bx_hex_decode sample_bot (zp_signature (signed_v2\<lparr>zp_chain_id := ch, zp_signature := ''B''\<rparr>)) = Ok [7]" for ch
    by (simp_all add: sample_bot_def)
  have g: "good_store sample_ext (ct_store ?c)" "db_up (ct_store ?c)" by simp_all
  note r = bot_acts_unchecked [OF sample_bot_signs g f(1) refl b(1) refl b(2,3), of "config_test_default 0", unfolded h sum.case]
    bot_acts_unchecked [OF sample_bot_signs g f(2) refl b(1) refl b(2,3), of "config_test_default 0", unfolded h sum.case]
  have "zp_chain_id (signed_v2\<lparr>zp_chain_id := 8453, zp_signature := ''B''\<rparr>) \<noteq> 7777777" by simp
  with r(1) r(2) [of 8453] r(2) [of 7777777] show ?thesis by blast
qed

end
