(* ===== verification/SyncTree.thy ===== *)
theory SyncTree
  imports Prelude "HOL-Library.Sublist"
begin

text \<open>
  The tree for comparing the premints of two nodes (\<open>src/sync.rs\<close>): a tree whose edges are the
  components of a path, ordered among siblings, with a hash at each node over its value and the
  hashes of its children. It can be filled with and without updating the hashes, cut off at a
  depth, and compared with another tree along the differing hashes.
\<close>

section \<open>Nodes\<close>

text \<open>
  What the tree uses of its element type besides the order: the bytes of an element, the default
  element, and the digest of the hasher over all the bytes it was fed.
\<close>

record 'a elem_ops =
  el_ref :: "'a \<Rightarrow> bytes"
  el_default :: 'a
  el_digest :: "bytes \<Rightarrow> u64"

datatype 'a node =
  Node (nd_value: 'a) (nd_level: u64) (nd_hash: u64) (nd_manual: "u64 option")
    (nd_children: "'a node list") (nd_dirty: bool)

definition node_default :: "'a elem_ops \<Rightarrow> 'a node" where
  "node_default ops = Node (el_default ops) 0 0 None [] True"

section \<open>Hashes\<close>

text \<open>\<open>U64Buffer::update\<close>: the four bytes it keeps of a hash.\<close>

definition u64_buffer :: "u64 \<Rightarrow> bytes" where
  "u64_buffer v =
     [ucast (drop_bit 24 v) , ucast (drop_bit 16 v), ucast (drop_bit 8 v), ucast v]"

fun update_hash :: "'a elem_ops \<Rightarrow> 'a node \<Rightarrow> 'a node" where
  "update_hash ops (Node v l h m cs d) =
     (case m of
        Some hash \<Rightarrow> Node v l hash m cs False
      | None \<Rightarrow>
          (if \<not> d then Node v l h m cs d
           else Node v l
             (el_digest ops (concat (map (\<lambda>c. u64_buffer (nd_hash c)) cs) @ el_ref ops v))
             m cs False))"

declare update_hash.simps [simp del]

fun rehash :: "'a elem_ops \<Rightarrow> 'a node \<Rightarrow> 'a node" where
  "rehash ops (Node v l h m cs d) = update_hash ops (Node v l h m (map (rehash ops) cs) d)"

section \<open>Insertion\<close>

text \<open>\<open>binary_search_by\<close> over the values of the children between two bounds.\<close>

function search_between :: "'a::linorder list \<Rightarrow> 'a \<Rightarrow> nat \<Rightarrow> nat \<Rightarrow> (nat, nat) result" where
  "search_between xs v left right =
     (if left \<ge> right then Err left
      else (let mid = left + (right - left) div 2
            in if xs ! mid < v then search_between xs v (mid + 1) right
               else if v < xs ! mid then search_between xs v left mid
               else Ok mid))"
  by pat_completeness auto
termination search_between
  by (relation "measure (\<lambda>(xs, v, left, right). right - left)") auto

declare search_between.simps [simp del]

definition binary_search :: "'a::linorder list \<Rightarrow> 'a \<Rightarrow> (nat, nat) result" where
  "binary_search xs v = search_between xs v 0 (length xs)"

definition insert_at :: "nat \<Rightarrow> 'b \<Rightarrow> 'b list \<Rightarrow> 'b list" where
  "insert_at i x xs = take i xs @ x # drop i xs"

text \<open>The position of the child with the value, and the children with it.\<close>

definition get_or_create_child ::
  "'a elem_ops \<Rightarrow> u64 \<Rightarrow> 'a::linorder node list \<Rightarrow> 'a \<Rightarrow> bool \<Rightarrow> nat \<times> 'a node list" where
  "get_or_create_child ops level cs value update =
     (case binary_search (map nd_value cs) value of
        Inr position \<Rightarrow> (position, cs)
      | Inl position \<Rightarrow>
          (let node = Node value (level + 1) 0 None [] True;
               node = (if update then update_hash ops node else node)
           in (position, insert_at position node cs)))"

definition place_value :: "'a elem_ops \<Rightarrow> 'a \<Rightarrow> u64 option \<Rightarrow> bool \<Rightarrow> 'a node \<Rightarrow> 'a node" where
  "place_value ops value hash update node =
     (case node of Node v l h m cs d \<Rightarrow>
        (case hash of
           Some given \<Rightarrow> Node value l given (Some given) cs d
         | None \<Rightarrow>
             (if update then update_hash ops (Node value l h m cs d) else Node value l h m cs d)))"

fun node_insert ::
  "'a elem_ops \<Rightarrow> 'a list \<Rightarrow> 'a \<Rightarrow> u64 option \<Rightarrow> bool \<Rightarrow> 'a::linorder node \<Rightarrow> 'a node" where
  "node_insert ops path value hash update (Node v l h m cs d) =
     (let cs' = (case path of
            [] \<Rightarrow>
              (let (position, cs1) = get_or_create_child ops l cs value update
               in cs1[position := place_value ops value hash update (cs1 ! position)])
          | head # tail \<Rightarrow>
              (let (position, cs1) = get_or_create_child ops l cs head update
               in cs1[position := node_insert ops tail value hash update (cs1 ! position)]));
          self = Node v l h m cs' True
      in if update then update_hash ops self else self)"

declare node_insert.simps [simp del]

section \<open>Visiting\<close>

datatype visit_result = VisitContinue | VisitSkip | VisitStop

text \<open>The callback reads the path to the node and the node and may change its own state.\<close>

fun visit ::
  "('a list \<Rightarrow> 'a node \<Rightarrow> 's \<Rightarrow> visit_result \<times> 's) \<Rightarrow> 'a list \<Rightarrow> 'a node \<Rightarrow> 's \<Rightarrow> visit_result \<times> 's"
  and visit_children ::
  "('a list \<Rightarrow> 'a node \<Rightarrow> 's \<Rightarrow> visit_result \<times> 's) \<Rightarrow> 'a list \<Rightarrow> 'a node list \<Rightarrow> 's \<Rightarrow>
     visit_result \<times> 's"
  where
  "visit f path (Node v l h m cs d) s =
     (case f path (Node v l h m cs d) s of
        (VisitContinue, s') \<Rightarrow> visit_children f (path @ [v]) cs s'
      | (other, s') \<Rightarrow> (other, s'))"
| "visit_children f path [] s = (VisitContinue, s)"
| "visit_children f path (c # cs) s =
     (case visit f path c s of
        (VisitStop, s') \<Rightarrow> (VisitStop, s')
      | (_, s') \<Rightarrow> visit_children f path cs s')"

definition prefix_match :: "'a list \<Rightarrow> 'a list \<Rightarrow> 'a node \<Rightarrow> bool" where
  "prefix_match pre path node \<longleftrightarrow>
     (if pre = [] \<or> path = [] then True
      else (let full_path = path @ [nd_value node];
                check_prefix_len = min (length full_path) (length pre)
            in take check_prefix_len full_path = take check_prefix_len pre))"

section \<open>The tree\<close>

record 'a tree_set =
  ts_root :: "'a node"

definition tree_new :: "'a elem_ops \<Rightarrow> 'a tree_set" where
  "tree_new ops = \<lparr>ts_root = node_default ops\<rparr>"

definition tree_rehash :: "'a elem_ops \<Rightarrow> 'a tree_set \<Rightarrow> 'a tree_set" where
  "tree_rehash ops t = \<lparr>ts_root = rehash ops (ts_root t)\<rparr>"

definition tree_insert :: "'a elem_ops \<Rightarrow> 'a list \<Rightarrow> 'a::linorder \<Rightarrow> 'a tree_set \<Rightarrow> 'a tree_set" where
  "tree_insert ops path value t = \<lparr>ts_root = node_insert ops path value None False (ts_root t)\<rparr>"

definition tree_insert_update :: "'a elem_ops \<Rightarrow> 'a list \<Rightarrow> 'a::linorder \<Rightarrow> 'a tree_set \<Rightarrow> 'a tree_set" where
  "tree_insert_update ops path value t = \<lparr>ts_root = node_insert ops path value None True (ts_root t)\<rparr>"

definition tree_insert_with_hash_update ::
  "'a elem_ops \<Rightarrow> 'a list \<Rightarrow> 'a::linorder \<Rightarrow> u64 \<Rightarrow> 'a tree_set \<Rightarrow> 'a tree_set" where
  "tree_insert_with_hash_update ops path value hash t =
     \<lparr>ts_root = node_insert ops path value (Some hash) True (ts_root t)\<rparr>"

definition tree_insert_with_hash ::
  "'a elem_ops \<Rightarrow> 'a list \<Rightarrow> 'a::linorder \<Rightarrow> u64 \<Rightarrow> 'a tree_set \<Rightarrow> 'a tree_set" where
  "tree_insert_with_hash ops path value hash t =
     \<lparr>ts_root = node_insert ops path value (Some hash) False (ts_root t)\<rparr>"

definition tree_visit ::
  "('a list \<Rightarrow> 'a node \<Rightarrow> 's \<Rightarrow> visit_result \<times> 's) \<Rightarrow> 'a tree_set \<Rightarrow> 's \<Rightarrow> 's" where
  "tree_visit f t s = snd (visit_children f [] (nd_children (ts_root t)) s)"

definition leafs :: "'a list \<Rightarrow> 'a tree_set \<Rightarrow> 'a list" where
  "leafs pre t = tree_visit (\<lambda>path node found.
     if \<not> prefix_match pre path node then (VisitSkip, found)
     else (VisitContinue, if nd_children node = [] then found @ [nd_value node] else found)) t []"

definition tree_extract :: "'a elem_ops \<Rightarrow> 'a::linorder list \<Rightarrow> nat \<Rightarrow> 'a tree_set \<Rightarrow> 'a tree_set" where
  "tree_extract ops pre depth t = tree_visit (\<lambda>path node sparse.
     if \<not> prefix_match pre path node \<or> length path + 1 > length pre + depth then (VisitSkip, sparse)
     else (VisitContinue, tree_insert_with_hash ops path (nd_value node) (nd_hash node) sparse)) t
     (tree_new ops)"

definition tree_extract_root :: "'a elem_ops \<Rightarrow> nat \<Rightarrow> 'a::linorder tree_set \<Rightarrow> 'a tree_set" where
  "tree_extract_root ops depth t = tree_extract ops [] depth t"

section \<open>Differences\<close>

datatype 'a diff = MissingSelf "'a list" | MissingOther "'a list" | HashMismatch "'a list"

function diff_children ::
  "'a::linorder list \<Rightarrow> 'a node list \<Rightarrow> 'a node list \<Rightarrow> 'a diff list" where
  "diff_children path [] [] = []"
| "diff_children path (a # xs) [] = MissingOther (path @ [nd_value a]) # diff_children path xs []"
| "diff_children path [] (b # ys) = MissingSelf (path @ [nd_value b]) # diff_children path [] ys"
| "diff_children path (a # xs) (b # ys) =
     (if nd_value a < nd_value b
      then MissingOther (path @ [nd_value a]) # diff_children path xs (b # ys)
      else if nd_value b < nd_value a
      then MissingSelf (path @ [nd_value b]) # diff_children path (a # xs) ys
      else
        (if nd_hash a \<noteq> nd_hash b then
           (let below = diff_children (path @ [nd_value a]) (nd_children a) (nd_children b)
            in if below = [] then [HashMismatch (path @ [nd_value a])] else below)
         else []) @ diff_children path xs ys)"
  by pat_completeness auto

lemma size_children [simp]: "size_list size (nd_children n) < size n"
  by (cases n) simp

lemma size_children_pair:
  "size_list size (nd_children a) + size_list size (nd_children b) <
     Suc (Suc (size a + k + (size b + m)))"
  using size_children [of a] size_children [of b] by linarith

termination diff_children
  by (relation "measure (\<lambda>(path, xs, ys). size_list size xs + size_list size ys)")
    (auto simp: size_children_pair)

definition tree_diff :: "'a::linorder tree_set \<Rightarrow> 'a tree_set \<Rightarrow> 'a diff list" where
  "tree_diff t other = diff_children [] (nd_children (ts_root t)) (nd_children (ts_root other))"

section \<open>Display\<close>

fun node_text :: "('a \<Rightarrow> string) \<Rightarrow> 'a node \<Rightarrow> string" where
  "node_text display (Node v l h m cs d) =
     replicate (unat l) (CHR ''-'') @ display v @ [CHR 0x0A] @ concat (map (node_text display) cs)"

definition tree_text :: "('a \<Rightarrow> string) \<Rightarrow> 'a tree_set \<Rightarrow> string" where
  "tree_text display t = node_text display (ts_root t)"

section \<open>Serialisation\<close>

text \<open>The fields of a serialised node: its level, given hash and dirty flag are left out.\<close>

datatype 'a node_json = NodeJson (js_value: 'a) (js_hash: u64) (js_children: "'a node_json list")

fun node_serialize :: "'a node \<Rightarrow> 'a node_json" where
  "node_serialize (Node v l h m cs d) = NodeJson v h (map node_serialize cs)"

end
