(* ===== verification/SyncTreeProps.thy ===== *)
theory SyncTreeProps
  imports SyncTree
begin

text \<open>
  The properties of the synchronisation tree: order among siblings, the set of paths a tree
  holds, hashes updated on the way against hashes computed afterwards, the leaves under a
  prefix, and what a comparison of two trees says.
\<close>

section \<open>Searching among the children\<close>

text \<open>
  What inserting a child relies on: a search either finds the value or says where it belongs.
\<close>

locale child_search =
  fixes search :: "'a::linorder list \<Rightarrow> 'a \<Rightarrow> (nat, nat) result"
  assumes found: "sorted_wrt (<) xs \<Longrightarrow> search xs v = Ok p \<Longrightarrow> p < length xs \<and> xs ! p = v"
    and missing: "sorted_wrt (<) xs \<Longrightarrow> search xs v = Err p \<Longrightarrow>
      p \<le> length xs \<and> (\<forall>i<p. xs ! i < v) \<and> (\<forall>i. p \<le> i \<longrightarrow> i < length xs \<longrightarrow> v < xs ! i)"
begin

lemma missing_sets:
  assumes "sorted_wrt (<) xs" "search xs v = Err p"
  shows "\<forall>y\<in>set (take p xs). y < v" "\<forall>y\<in>set (drop p xs). v < y"
  using missing [OF assms]
  by (auto simp: in_set_conv_nth)

lemma missing_notin: "sorted_wrt (<) xs \<Longrightarrow> search xs v = Err p \<Longrightarrow> v \<notin> set xs"
  using missing_sets [of xs v p] by (metis append_take_drop_id in_set_conv_decomp less_irrefl Un_iff set_append)

lemma insert_sorted:
  assumes "sorted_wrt (<) xs" "search xs v = Err p"
  shows "sorted_wrt (<) (insert_at p v xs)"
proof -
  have "sorted_wrt (<) (take p xs @ drop p xs)" using assms(1) by simp
  then show ?thesis
    using missing_sets [OF assms] unfolding insert_at_def sorted_wrt_append by auto
qed

lemma found_iff: "sorted_wrt (<) xs \<Longrightarrow> is_ok (search xs v) \<longleftrightarrow> v \<in> set xs"
  using found [of xs v] missing_notin [of xs v] by (cases "search xs v") auto

end

lemma search_between_spec:
  assumes "sorted_wrt (<) xs" "left \<le> right" "right \<le> length xs"
    "\<forall>i<left. xs ! i < v" "\<forall>i. right \<le> i \<longrightarrow> i < length xs \<longrightarrow> v < xs ! i"
  shows "case search_between xs v left right of
      Inr p \<Rightarrow> p < length xs \<and> xs ! p = v
    | Inl p \<Rightarrow> p \<le> length xs \<and> (\<forall>i<p. xs ! i < v) \<and> (\<forall>i. p \<le> i \<longrightarrow> i < length xs \<longrightarrow> v < xs ! i)"
  using assms
proof (induction xs v left right rule: search_between.induct)
  case (1 xs v left right)
  show ?case
  proof (cases "left \<ge> right")
    case True
    with 1 have "left = right" by simp
    with "1.prems" show ?thesis by (simp add: search_between.simps)
  next
    case False
    let ?mid = "left + (right - left) div 2"
    have mid: "left \<le> ?mid" "?mid < right" using False by auto
    then have len: "?mid < length xs" using "1.prems"(3) by simp
    have below: "xs ! i \<le> xs ! j" if "i \<le> j" "j < length xs" for i j
      using "1.prems"(1) that by (cases "i = j") (auto simp: sorted_wrt_iff_nth_less less_imp_le)
    consider "xs ! ?mid < v" | "v < xs ! ?mid" | "xs ! ?mid = v" by fastforce
    then show ?thesis
    proof cases
      case 1
      then have "\<forall>i<?mid + 1. xs ! i < v" using below len by (metis less_Suc_eq_le Suc_eq_plus1 le_less_trans)
      from "1.IH"(1) [OF False refl 1 "1.prems"(1) _ "1.prems"(3) this "1.prems"(5)] mid 1 False show ?thesis
        by (subst search_between.simps) (simp add: Let_def)
    next
      case 2
      then have above: "\<forall>i. ?mid \<le> i \<longrightarrow> i < length xs \<longrightarrow> v < xs ! i" using below by (metis less_le_trans)
      have nl: "\<not> xs ! ?mid < v" using 2 by simp
      from "1.IH"(2) [OF False refl nl 2 "1.prems"(1) mid(1) _ "1.prems"(4) above] 2 nl mid len False show ?thesis
        by (subst search_between.simps) (simp add: Let_def)
    next
      case 3
      with False len show ?thesis by (subst search_between.simps) (simp add: Let_def)
    qed
  qed
qed

interpretation bs: child_search binary_search
proof unfold_locales
  fix xs :: "'a list" and v p
  assume s: "sorted_wrt (<) xs"
  show "p < length xs \<and> xs ! p = v" if "binary_search xs v = Ok p"
    using search_between_spec [of xs 0 "length xs" v] s that by (simp add: binary_search_def)
  show "p \<le> length xs \<and> (\<forall>i<p. xs ! i < v) \<and> (\<forall>i. p \<le> i \<longrightarrow> i < length xs \<longrightarrow> v < xs ! i)"
    if "binary_search xs v = Err p"
    using search_between_spec [of xs 0 "length xs" v] s that by (simp add: binary_search_def)
qed

section \<open>Shape\<close>

fun wf_node :: "'a::linorder node \<Rightarrow> bool" where
  "wf_node (Node v l h m cs d) \<longleftrightarrow> sorted_wrt (<) (map nd_value cs) \<and> (\<forall>c\<in>set cs. wf_node c)"

text \<open>The paths from the node, without its own value.\<close>

fun paths :: "'a node \<Rightarrow> 'a list set" where
  "paths (Node v l h m cs d) = insert [] (\<Union>c\<in>set cs. (#) (nd_value c) ` paths c)"

lemma update_hash_alt:
  "\<exists>h' d'. update_hash ops (Node v l h m cs d) = Node v l h' m cs d'"
  by (auto simp: update_hash.simps split: option.split)

lemma update_hash_shape [simp]:
  "nd_value (update_hash ops n) = nd_value n" "nd_children (update_hash ops n) = nd_children n"
  "nd_level (update_hash ops n) = nd_level n" "nd_manual (update_hash ops n) = nd_manual n"
proof -
  obtain v l h m cs d where n: "n = Node v l h m cs d" by (cases n)
  obtain h' d' where "update_hash ops n = Node v l h' m cs d'" using update_hash_alt [of ops v l h m cs d] n by auto
  then show "nd_value (update_hash ops n) = nd_value n" "nd_children (update_hash ops n) = nd_children n"
    "nd_level (update_hash ops n) = nd_level n" "nd_manual (update_hash ops n) = nd_manual n"
    by (simp_all add: n)
qed

lemma paths_alt: "paths n = insert [] (\<Union>c\<in>set (nd_children n). (#) (nd_value c) ` paths c)"
  by (cases n) simp

lemma wf_node_alt: "wf_node n \<longleftrightarrow> sorted_wrt (<) (map nd_value (nd_children n)) \<and> (\<forall>c\<in>set (nd_children n). wf_node c)"
  by (cases n) simp

lemma update_hash_paths [simp]: "paths (update_hash ops n) = paths n"
  by (simp add: paths_alt [of "update_hash ops n"] paths_alt [of n])

lemma update_hash_wf [simp]: "wf_node (update_hash ops n) = wf_node n"
  by (simp add: wf_node_alt [of "update_hash ops n"] wf_node_alt [of n])

lemma rehash_shape [simp]:
  "nd_value (rehash ops n) = nd_value n" "nd_children (rehash ops n) = map (rehash ops) (nd_children n)"
  by (cases n; simp)+

lemma rehash_paths [simp]: "paths (rehash ops n) = paths n"
  by (induction n) simp

lemma rehash_wf [simp]: "wf_node (rehash ops n) = wf_node n"
  by (induction n) (simp add: comp_def)

lemma node_insert_value [simp]: "nd_value (node_insert ops path v hs u n) = nd_value n"
  by (cases n) (simp add: node_insert.simps Let_def)

lemma place_value_value [simp]: "nd_value (place_value ops v hs u n) = v"
  by (cases n) (simp add: place_value_def split: option.split)

lemma place_value_shape:
  "paths (place_value ops v hs u n) = paths n" "wf_node (place_value ops v hs u n) = wf_node n"
  by (cases n; simp add: place_value_def split: option.split)+

text \<open>The new child that \<open>get_or_create_child\<close> puts in.\<close>

definition new_child :: "'a elem_ops \<Rightarrow> u64 \<Rightarrow> 'a \<Rightarrow> bool \<Rightarrow> 'a node" where
  "new_child ops level v u =
     (if u then update_hash ops (Node v (level + 1) 0 None [] True) else Node v (level + 1) 0 None [] True)"

lemma new_child_shape [simp]:
  "nd_value (new_child ops l v u) = v" "paths (new_child ops l v u) = {[]}" "wf_node (new_child ops l v u)"
  by (simp_all add: new_child_def)

lemma map_insert_at: "map f (insert_at p x xs) = insert_at p (f x) (map f xs)"
  by (simp add: insert_at_def take_map drop_map)

lemma insert_at_update: "p \<le> length xs \<Longrightarrow> (insert_at p x xs)[p := y] = insert_at p y xs"
  by (simp add: insert_at_def list_update_append)

lemma insert_at_nth: "p \<le> length xs \<Longrightarrow> insert_at p x xs ! p = x"
  by (simp add: insert_at_def nth_append)

lemma insert_at_set: "set (insert_at p x xs) = insert x (set xs)"
  by (metis append_take_drop_id insert_at_def list.simps(15) set_append Un_insert_right)

lemma get_or_create_cases:
  assumes "sorted_wrt (<) (map nd_value cs)"
  obtains (existing) p where "p < length cs" "nd_value (cs ! p) = v" "get_or_create_child ops l cs v u = (p, cs)"
  | (created) p where "p \<le> length cs" "v \<notin> nd_value ` set cs"
      "get_or_create_child ops l cs v u = (p, insert_at p (new_child ops l v u) cs)"
      "sorted_wrt (<) (insert_at p v (map nd_value cs))"
proof (cases "binary_search (map nd_value cs) v")
  case (Inr p)
  with bs.found [OF assms this] show ?thesis by (intro existing [of p]) (auto simp: get_or_create_child_def)
next
  case (Inl p)
  show ?thesis
    using bs.missing [OF assms Inl] bs.missing_notin [OF assms Inl] bs.insert_sorted [OF assms Inl] Inl
    by (intro created [of p]) (auto simp: get_or_create_child_def new_child_def Let_def)
qed

text \<open>Changing the child with a value: the other children stay, the order is kept.\<close>

lemma put_child:
  assumes "sorted_wrt (<) (map nd_value cs)" "get_or_create_child ops l cs v u = (p, cs1)"
    "\<And>n. nd_value n = v \<Longrightarrow> nd_value (f n) = v"
  obtains c0 where "c0 \<in> set cs \<and> nd_value c0 = v \<or> v \<notin> nd_value ` set cs \<and> c0 = new_child ops l v u"
    "c0 = cs1 ! p" "sorted_wrt (<) (map nd_value (cs1[p := f (cs1 ! p)]))"
    "set (cs1[p := f (cs1 ! p)]) = insert (f c0) {c \<in> set cs. nd_value c \<noteq> v}"
  using assms(1)
proof (cases rule: get_or_create_cases [where v = v and ops = ops and l = l and u = u])
  case (existing q)
  then have q: "q = p" "cs1 = cs" using assms(2) by simp_all
  have same: "map nd_value (cs[p := f (cs ! p)]) = map nd_value cs"
    using existing q assms(3) [of "cs ! p"] by (simp add: map_update list_update_same_conv)
  have p: "p < length cs" "nd_value (cs ! p) = v" using existing q by simp_all
  have d: "distinct (map nd_value cs)" using assms(1) by (simp add: strict_sorted_iff)
  have "{c \<in> set cs. nd_value c \<noteq> v} = {cs ! i |i. i < length cs \<and> i \<noteq> p}"
    using d p by (auto simp: set_conv_nth distinct_conv_nth)
  moreover have "set (cs[p := y]) = insert y {cs ! i |i. i < length cs \<and> i \<noteq> p}" for y
    using p(1) by (fastforce simp: set_conv_nth nth_list_update)
  ultimately have "set (cs[p := f (cs ! p)]) = insert (f (cs ! p)) {c \<in> set cs. nd_value c \<noteq> v}" by simp
  with p q same assms(1) show ?thesis by (intro that [of "cs ! p"]) auto
next
  case (created q)
  then have q: "p = q" "cs1 = insert_at q (new_child ops l v u) cs" using assms(2) by simp_all
  have e: "cs1[p := f (cs1 ! p)] = insert_at p (f (new_child ops l v u)) cs" "cs1 ! p = new_child ops l v u"
    using created(1) by (simp_all add: q insert_at_update insert_at_nth)
  have "map nd_value (insert_at p (f (new_child ops l v u)) cs) = insert_at p v (map nd_value cs)"
    using assms(3) [of "new_child ops l v u"] by (simp add: map_insert_at)
  moreover have "set (insert_at p (f (new_child ops l v u)) cs) =
      insert (f (new_child ops l v u)) {c \<in> set cs. nd_value c \<noteq> v}"
    using created(2) by (auto simp: insert_at_set)
  ultimately show ?thesis using created q e by (intro that [of "new_child ops l v u"]) auto
qed

section \<open>Inserting\<close>

text \<open>The child that an insertion goes to, found or created, and the children after it.\<close>

definition target_child :: "'a elem_ops \<Rightarrow> bool \<Rightarrow> 'a node \<Rightarrow> 'a \<Rightarrow> 'a node \<Rightarrow> bool" where
  "target_child ops u n v c \<longleftrightarrow> c \<in> set (nd_children n) \<and> nd_value c = v \<or>
     v \<notin> nd_value ` set (nd_children n) \<and> c = new_child ops (nd_level n) v u"

lemma target_child_shape: "wf_node n \<Longrightarrow> target_child ops u n v c \<Longrightarrow> wf_node c \<and> nd_value c = v"
  using wf_node_alt [of n] by (auto simp: target_child_def)

definition children_become :: "'a::linorder node \<Rightarrow> 'a node \<Rightarrow> 'a node \<Rightarrow> bool" where
  "children_become n c n' \<longleftrightarrow> sorted_wrt (<) (map nd_value (nd_children n')) \<and>
     set (nd_children n') = insert c {c' \<in> set (nd_children n). nd_value c' \<noteq> nd_value c}"

lemma insert_step:
  assumes "wf_node n" "\<And>c. nd_value c = head \<Longrightarrow> nd_value (f c) = head"
    "get_or_create_child ops (nd_level n) (nd_children n) head u = (p, cs1)"
    "nd_children n' = cs1[p := f (cs1 ! p)]"
  shows "\<exists>c. target_child ops u n head c \<and> children_become n (f c) n'"
proof -
  have s: "sorted_wrt (<) (map nd_value (nd_children n))" using assms(1) wf_node_alt [of n] by blast
  obtain c where c: "c \<in> set (nd_children n) \<and> nd_value c = head \<or>
      head \<notin> nd_value ` set (nd_children n) \<and> c = new_child ops (nd_level n) head u" "c = cs1 ! p"
    "sorted_wrt (<) (map nd_value (cs1[p := f (cs1 ! p)]))"
    "set (cs1[p := f (cs1 ! p)]) = insert (f c) {c' \<in> set (nd_children n). nd_value c' \<noteq> head}"
    by (rule put_child [OF s assms(3,2)])
  have "nd_value (f c) = head" using c(1) assms(2) [of c] new_child_shape(1) by metis
  with c(1,3,4) show ?thesis unfolding target_child_def children_become_def assms(4)
    by (intro exI [of _ c] conjI) simp_all
qed

lemma node_insert_children:
  "nd_children (node_insert ops [] v hs u n) =
     (let (p, cs1) = get_or_create_child ops (nd_level n) (nd_children n) v u
      in cs1[p := place_value ops v hs u (cs1 ! p)])"
  "nd_children (node_insert ops (a # path) v hs u n) =
     (let (p, cs1) = get_or_create_child ops (nd_level n) (nd_children n) a u
      in cs1[p := node_insert ops path v hs u (cs1 ! p)])"
  by (cases n; simp add: node_insert.simps Let_def)+

lemma insert_here:
  assumes "wf_node n"
  shows "\<exists>c. target_child ops u n v c \<and> children_become n (place_value ops v hs u c) (node_insert ops [] v hs u n)"
proof -
  obtain p cs1 where g: "get_or_create_child ops (nd_level n) (nd_children n) v u = (p, cs1)" by fastforce
  show ?thesis by (rule insert_step [OF assms _ g]) (simp_all add: node_insert_children g)
qed

lemma insert_below:
  assumes "wf_node n"
  shows "\<exists>c. target_child ops u n a c \<and>
    children_become n (node_insert ops path v hs u c) (node_insert ops (a # path) v hs u n)"
proof -
  obtain p cs1 where g: "get_or_create_child ops (nd_level n) (nd_children n) a u = (p, cs1)" by fastforce
  show ?thesis by (rule insert_step [OF assms _ g]) (simp_all add: node_insert_children g)
qed

lemma children_become_wf: "wf_node n \<Longrightarrow> wf_node c \<Longrightarrow> children_become n c n' \<Longrightarrow> wf_node n'"
  unfolding wf_node_alt [of n] wf_node_alt [of n'] children_become_def by simp

text \<open>
  The children of every node stay in strictly increasing order, whatever is inserted, with
  or without hashes, and rehashing keeps it: the binary search for a child always works on a
  sorted list.
\<close>

lemma insert_keeps_order:
  assumes "wf_node n"
  shows "wf_node (node_insert ops path v hs u n) \<and> wf_node (rehash ops n)"
proof -
  have "wf_node (node_insert ops path v hs u n)"
    using assms
  proof (induction path arbitrary: n)
    case Nil
    from insert_here [OF Nil] target_child_shape [OF Nil] children_become_wf [OF Nil] place_value_shape(2)
    show ?case by metis
  next
    case (Cons a path)
    from insert_below [OF Cons.prems] target_child_shape [OF Cons.prems] children_become_wf [OF Cons.prems] Cons.IH
    show ?case by metis
  qed
  with assms show ?thesis by simp
qed

lemma paths_Nil [simp]: "[] \<in> paths n"
  by (subst paths_alt) simp

lemma child_paths:
  assumes "wf_node n" "target_child ops u n head c0"
  shows "insert [head] (paths n) =
    insert [] ((#) head ` paths c0 \<union> (\<Union>c\<in>{c \<in> set (nd_children n). nd_value c \<noteq> head}. (#) (nd_value c) ` paths c))"
proof -
  let ?rest = "\<Union>c\<in>{c \<in> set (nd_children n). nd_value c \<noteq> head}. (#) (nd_value c) ` paths c"
  have all: "paths n = insert [] (\<Union>c\<in>set (nd_children n). (#) (nd_value c) ` paths c)" by (rule paths_alt)
  from assms(2) consider "c0 \<in> set (nd_children n)" "nd_value c0 = head" |
    "head \<notin> nd_value ` set (nd_children n)" "c0 = new_child ops (nd_level n) head u"
    unfolding target_child_def by blast
  then show ?thesis
  proof cases
    case 1
    have "distinct (map nd_value (nd_children n))"
      using assms(1) wf_node_alt [of n] by (simp add: strict_sorted_iff)
    then have only: "c = c0" if "c \<in> set (nd_children n)" "nd_value c = head" for c
      using that 1 distinct_map_unique [of nd_value "nd_children n" c c0] by simp
    have "set (nd_children n) = insert c0 {c \<in> set (nd_children n). nd_value c \<noteq> head}"
      using 1 only by blast
    then have "(\<Union>c\<in>set (nd_children n). (#) (nd_value c) ` paths c) =
        (\<Union>c\<in>insert c0 {c \<in> set (nd_children n). nd_value c \<noteq> head}. (#) (nd_value c) ` paths c)" by (rule arg_cong)
    then have "paths n = insert [] ((#) head ` paths c0 \<union> ?rest)"
      unfolding all UN_insert using 1(2) by simp
    moreover have "[head] \<in> (#) head ` paths c0" by simp
    ultimately show ?thesis by blast
  next
    case 2
    then have "{c \<in> set (nd_children n). nd_value c \<noteq> head} = set (nd_children n)" by blast
    then show ?thesis unfolding all 2(2) by (simp add: insert_commute)
  qed
qed

lemma inserted_paths:
  assumes "children_become n d n'" "nd_value d = head"
  shows "paths n' = insert [] ((#) head ` paths d \<union>
    (\<Union>c\<in>{c \<in> set (nd_children n). nd_value c \<noteq> head}. (#) (nd_value c) ` paths c))"
  using assms(1) unfolding paths_alt [of n'] children_become_def assms(2) by (simp add: assms(2))

text \<open>
  C20. Inserting a value under a path adds that path, its prefixes, and nothing else to the
  paths of the tree, whatever hash it is given and whether hashes are kept up or not, so that the
  order of insertions does not matter to what a tree holds.
\<close>

theorem insert_adds_path:
  assumes "wf_node n"
  shows "paths (node_insert ops path v hs u n) = paths n \<union> set (prefixes (path @ [v]))"
  using assms
proof (induction path arbitrary: n)
  case Nil
  obtain c where c: "target_child ops u n v c"
    "children_become n (place_value ops v hs u c) (node_insert ops [] v hs u n)"
    using insert_here [OF Nil] by blast
  have "paths (node_insert ops [] v hs u n) = insert [v] (paths n)"
    using inserted_paths [OF c(2)] child_paths [OF Nil c(1)] by (simp add: place_value_shape)
  then show ?case by (simp add: insert_absorb insert_commute)
next
  case (Cons a path)
  obtain c where c: "target_child ops u n a c"
    "children_become n (node_insert ops path v hs u c) (node_insert ops (a # path) v hs u n)"
    using insert_below [OF Cons.prems] by blast
  have wf: "wf_node c" "nd_value c = a" using target_child_shape [OF Cons.prems c(1)] by simp_all
  let ?P = "set (prefixes (path @ [v]))"
  let ?rest = "\<Union>c\<in>{c \<in> set (nd_children n). nd_value c \<noteq> a}. (#) (nd_value c) ` paths c"
  have "paths (node_insert ops (a # path) v hs u n) = insert [] ((#) a ` (paths c \<union> ?P) \<union> ?rest)"
    using inserted_paths [OF c(2)] wf Cons.IH [OF wf(1)] by simp
  also have "\<dots> = insert [] ((#) a ` paths c \<union> ?rest) \<union> (#) a ` ?P" by blast
  also have "\<dots> = insert [a] (paths n) \<union> (#) a ` ?P" by (simp only: child_paths [OF Cons.prems c(1)])
  also have "[a] \<in> (#) a ` ?P" by simp
  then have "insert [a] (paths n) \<union> (#) a ` ?P = paths n \<union> insert [] ((#) a ` ?P)"
    using paths_Nil [of n] by blast
  finally show ?case by simp
qed

section \<open>Hashes\<close>

text \<open>Every node has the hash of its value and its children's hashes, or its given one.\<close>

definition node_digest :: "'a elem_ops \<Rightarrow> 'a \<Rightarrow> 'a node list \<Rightarrow> u64" where
  "node_digest ops v cs = el_digest ops (concat (map (\<lambda>c. u64_buffer (nd_hash c)) cs) @ el_ref ops v)"

fun hashed :: "'a elem_ops \<Rightarrow> 'a node \<Rightarrow> bool" where
  "hashed ops (Node v l h m cs d) \<longleftrightarrow>
     \<not> d \<and> h = (case m of None \<Rightarrow> node_digest ops v cs | Some given \<Rightarrow> given) \<and> (\<forall>c\<in>set cs. hashed ops c)"

lemma update_hash_dirty:
  "update_hash ops (Node v l h m cs True) =
     Node v l (case m of None \<Rightarrow> node_digest ops v cs | Some given \<Rightarrow> given) m cs False"
  by (simp add: update_hash.simps node_digest_def split: option.split)

lemma update_hash_hashed: "hashed ops n \<Longrightarrow> update_hash ops n = n"
  by (cases n) (auto simp: update_hash.simps split: option.split)

lemma rehash_hashed: "hashed ops n \<Longrightarrow> rehash ops n = n"
proof (induction n)
  case (Node v l h m cs d)
  then have "map (rehash ops) cs = cs" by (intro map_idI) simp
  with Node.prems update_hash_hashed [of ops "Node v l h m cs d"] show ?case by simp
qed

text \<open>A dirty node is hashed afresh: its old hash does not matter.\<close>

lemma rehash_dirty: "rehash ops (Node v l h m cs True) = rehash ops (Node v l h' m cs True)"
  by (simp add: update_hash_dirty)

lemma insert_dirty: "node_insert ops path v hs u (Node w l h m cs d) = node_insert ops path v hs u (Node w l h m cs d')"
  by (simp add: node_insert.simps)

lemma rehash_insert_old_hash:
  "rehash ops (node_insert ops path v hs False (Node w l h m cs d)) =
     rehash ops (node_insert ops path v hs False (Node w l h' m cs d'))"
  by (simp add: node_insert.simps Let_def update_hash_dirty)

lemma hashed_rehash_new: "new_child ops l v True = rehash ops (new_child ops l v False)" "hashed ops (new_child ops l v True)"
  by (simp_all add: new_child_def update_hash_dirty node_digest_def)

lemma hash_step:
  assumes "wf_node (Node w l h m cs d)" "\<forall>c\<in>set cs. hashed ops c"
    "\<And>c. hashed ops c \<Longrightarrow> wf_node c \<Longrightarrow> nd_value c = head \<Longrightarrow> fT c = rehash ops (fF c) \<and> hashed ops (fT c)"
    "rehash ops (fF (new_child ops l head False)) = rehash ops (fF (new_child ops l head True))"
    "get_or_create_child ops l cs head True = (p, csT)" "get_or_create_child ops l cs head False = (q, csF)"
  shows "csT[p := fT (csT ! p)] = map (rehash ops) (csF[q := fF (csF ! q)]) \<and>
    (\<forall>c\<in>set (csT[p := fT (csT ! p)]). hashed ops c)"
proof -
  have sorted: "sorted_wrt (<) (map nd_value cs)" and wf: "\<forall>c\<in>set cs. wf_node c" using assms(1) by simp_all
  have same: "map (rehash ops) cs = cs" using assms(2) by (intro map_idI) (simp add: rehash_hashed)
  show ?thesis
  proof (cases "binary_search (map nd_value cs) head")
    case (Inr r)
    with assms(5,6) have e: "p = r" "q = r" "csT = cs" "csF = cs" by (simp_all add: get_or_create_child_def)
    have r: "r < length cs" "nd_value (cs ! r) = head" using bs.found [OF sorted Inr] by auto
    then have c: "fT (cs ! r) = rehash ops (fF (cs ! r))" "hashed ops (fT (cs ! r))"
      using assms(2,3) wf nth_mem [OF r(1)] by blast+
    have "map (rehash ops) (cs[r := fF (cs ! r)]) = cs[r := fT (cs ! r)]"
      by (simp only: map_update same c(1))
    moreover have "\<forall>c\<in>set (cs[r := fT (cs ! r)]). hashed ops c"
      using c(2) assms(2) set_update_subset_insert [of cs r "fT (cs ! r)"] by blast
    ultimately show ?thesis by (simp only: e simp_thms)
  next
    case (Inl r)
    with assms(5,6) have e: "p = r" "q = r" "csT = insert_at r (new_child ops l head True) cs"
      "csF = insert_at r (new_child ops l head False) cs"
      by (auto simp: get_or_create_child_def new_child_def Let_def)
    have r: "r \<le> length cs" using bs.missing [OF sorted Inl] by simp
    have c: "fT (new_child ops l head True) = rehash ops (fF (new_child ops l head True))"
      "hashed ops (fT (new_child ops l head True))"
      using assms(3) [OF hashed_rehash_new(2) new_child_shape(3,1)] by blast+
    have T: "csT[p := fT (csT ! p)] = insert_at r (fT (new_child ops l head True)) cs"
      and F: "csF[q := fF (csF ! q)] = insert_at r (fF (new_child ops l head False)) cs"
      using r by (simp_all add: e insert_at_nth insert_at_update)
    have "\<forall>c\<in>set (insert_at r (fT (new_child ops l head True)) cs). hashed ops c"
      unfolding insert_at_set using c(2) assms(2) by blast
    then show ?thesis unfolding T F map_insert_at same assms(4) c(1) [symmetric] by blast
  qed
qed

lemma place_value_hash:
  assumes "hashed ops c" "nd_value c = v"
  shows "place_value ops v hs True c = rehash ops (place_value ops v hs False c) \<and>
    hashed ops (place_value ops v hs True c)"
proof -
  obtain l h m cs d where c: "c = Node v l h m cs d" using assms(2) by (cases c) auto
  show ?thesis
  proof (cases hs)
    case None
    then have "place_value ops v hs False c = c" "place_value ops v hs True c = update_hash ops c"
      by (simp_all add: place_value_def c)
    with assms(1) show ?thesis by (simp add: update_hash_hashed rehash_hashed)
  next
    case (Some g)
    let ?n = "Node v l g (Some g) cs d"
    have "place_value ops v hs u c = ?n" for u using Some by (simp add: place_value_def c)
    moreover have h: "hashed ops ?n" using assms(1) by (simp add: c)
    ultimately show ?thesis using rehash_hashed [OF h] by (simp only: simp_thms)
  qed
qed

lemma place_value_new:
  "rehash ops (place_value ops v hs False (new_child ops l v False)) =
     rehash ops (place_value ops v hs False (new_child ops l v True))"
proof (cases hs)
  case None
  then have p: "place_value ops v hs False (new_child ops l v u) = new_child ops l v u" for u
    by (simp add: new_child_def place_value_def update_hash_dirty)
  have "rehash ops (new_child ops l v True) = new_child ops l v True"
    by (rule rehash_hashed [OF hashed_rehash_new(2)])
  with hashed_rehash_new(1) [of ops l v] show ?thesis unfolding p by metis
next
  case (Some g)
  then show ?thesis by (simp add: place_value_def new_child_def update_hash.simps)
qed

lemma node_insert_new:
  "rehash ops (node_insert ops path v hs False (new_child ops l a False)) =
     rehash ops (node_insert ops path v hs False (new_child ops l a True))"
  using rehash_insert_old_hash by (simp add: new_child_def update_hash_dirty)

text \<open>
  C18. In a tree whose hashes are current, inserting with an update of the hashes on the way
  gives the very tree that inserting without hashes and rehashing the whole tree gives, and its
  hashes are current again; so it does for values inserted with a given hash.
\<close>

theorem incremental_hash_is_rehash:
  assumes "wf_node n" "hashed ops n"
  shows "node_insert ops path v hs True n = rehash ops (node_insert ops path v hs False n) \<and>
    hashed ops (node_insert ops path v hs True n)"
  using assms
proof (induction path arbitrary: n)
  case Nil
  obtain w l h m cs d where n: "n = Node w l h m cs d" by (cases n)
  obtain p csT q csF where g: "get_or_create_child ops l cs v True = (p, csT)" "get_or_create_child ops l cs v False = (q, csF)"
    by fastforce
  have step: "csT[p := place_value ops v hs True (csT ! p)] = map (rehash ops) (csF[q := place_value ops v hs False (csF ! q)]) \<and>
      (\<forall>c\<in>set (csT[p := place_value ops v hs True (csT ! p)]). hashed ops c)"
    using Nil unfolding n
    by (intro hash_step [OF _ _ _ place_value_new g]) (auto dest: place_value_hash)
  show ?case using step by (simp add: n node_insert.simps g Let_def update_hash_dirty)
next
  case (Cons a path)
  obtain w l h m cs d where n: "n = Node w l h m cs d" by (cases n)
  obtain p csT q csF where g: "get_or_create_child ops l cs a True = (p, csT)" "get_or_create_child ops l cs a False = (q, csF)"
    by fastforce
  have step: "csT[p := node_insert ops path v hs True (csT ! p)] = map (rehash ops) (csF[q := node_insert ops path v hs False (csF ! q)]) \<and>
      (\<forall>c\<in>set (csT[p := node_insert ops path v hs True (csT ! p)]). hashed ops c)"
  proof (rule hash_step [OF _ _ _ node_insert_new g])
    show "wf_node (Node w l h m cs d)" "\<forall>c\<in>set cs. hashed ops c" using Cons.prems by (simp_all add: n)
  qed (rule Cons.IH)
  show ?case using step by (simp add: n node_insert.simps g Let_def update_hash_dirty)
qed

text \<open>Only the low 32 bits of a child's hash reach the hash of its parent.\<close>

lemma u64_buffer_low: "take_bit 32 v = take_bit 32 w \<Longrightarrow> u64_buffer v = u64_buffer w"
proof -
  assume a: "take_bit 32 v = take_bit 32 w"
  have b: "bit v k = bit w k" if "k < 32" for k
    using arg_cong [OF a, of "\<lambda>t. bit t k"] that by (simp add: bit_take_bit_iff)
  have "(ucast (drop_bit n v) :: u8) = ucast (drop_bit n w)" if "n \<le> 24" for n
    by (rule bit_word_eqI) (use that b in \<open>auto simp: bit_ucast_iff bit_drop_bit_eq\<close>)
  from this [of 24] this [of 16] this [of 8] this [of 0] show ?thesis by (simp add: u64_buffer_def)
qed

lemma high_hash_bits_ignored:
  "map (\<lambda>c. take_bit 32 (nd_hash c)) cs = map (\<lambda>c. take_bit 32 (nd_hash c)) cs' \<Longrightarrow>
     node_digest ops v cs = node_digest ops v cs'"
proof -
  assume "map (\<lambda>c. take_bit 32 (nd_hash c)) cs = map (\<lambda>c. take_bit 32 (nd_hash c)) cs'"
  then have "list_all2 (\<lambda>c c'. take_bit 32 (nd_hash c) = take_bit 32 (nd_hash c')) cs cs'"
    by (simp add: list_all2_conv_all_nth list_eq_iff_nth_eq)
  then have "map (\<lambda>c. u64_buffer (nd_hash c)) cs = map (\<lambda>c. u64_buffer (nd_hash c)) cs'"
    by (induction rule: list_all2_induct) (auto intro: u64_buffer_low)
  then show ?thesis by (simp add: node_digest_def)
qed

section \<open>Leaves\<close>

text \<open>The paths to the leaves below a node, in the order of a visit.\<close>

fun leaf_paths :: "'a list \<Rightarrow> 'a node \<Rightarrow> 'a list list" where
  "leaf_paths path (Node v l h m cs d) =
     (if cs = [] then [path @ [v]] else concat (map (leaf_paths (path @ [v])) cs))"

text \<open>A path and a prefix agree as far as the shorter of them goes.\<close>

definition comparable :: "'a list \<Rightarrow> 'a list \<Rightarrow> bool" where
  "comparable p q \<longleftrightarrow> prefix p q \<or> prefix q p"

lemma prefix_take_iff: "prefix p q \<longleftrightarrow> length p \<le> length q \<and> take (length p) q = p"
  by (auto simp: prefix_def) (metis append_take_drop_id)

lemma comparable_take: "comparable p q \<longleftrightarrow> take (min (length p) (length q)) p = take (min (length p) (length q)) q"
  by (cases "length p \<le> length q") (auto simp: comparable_def prefix_take_iff min_def)

lemma prefix_match_iff:
  "prefix_match pre path n \<longleftrightarrow> path = [] \<or> comparable (path @ [nd_value n]) pre"
  by (auto simp: prefix_match_def Let_def comparable_take comparable_def [of _ "[]"])

lemma comparable_extend: "comparable (p @ q) r \<Longrightarrow> comparable p r"
  unfolding comparable_def by (metis append_prefixD prefix_same_cases prefixI)

lemma leaf_paths_extend: "p \<in> set (leaf_paths path n) \<Longrightarrow> \<exists>q. p = path @ nd_value n # q"
proof (induction path n arbitrary: p rule: leaf_paths.induct)
  case (1 path v l h m cs d)
  then show ?case by (fastforce split: if_splits)
qed

definition leaf_callback :: "'a list \<Rightarrow> 'a list \<Rightarrow> 'a node \<Rightarrow> 'a list \<Rightarrow> visit_result \<times> 'a list" where
  "leaf_callback pre path node found =
     (if \<not> prefix_match pre path node then (VisitSkip, found)
      else (VisitContinue, if nd_children node = [] then found @ [nd_value node] else found))"

text \<open>The leaves a visit under a prefix keeps.\<close>

definition kept :: "'a list \<Rightarrow> 'a list \<Rightarrow> bool" where
  "kept pre p \<longleftrightarrow> length p = 1 \<or> comparable p pre"

lemma visit_leafs:
  "fst (visit (leaf_callback pre) path n s) \<noteq> VisitStop \<and>
     snd (visit (leaf_callback pre) path n s) = s @ map last (filter (kept pre) (leaf_paths path n))"
  "fst (visit_children (leaf_callback pre) path cs s) \<noteq> VisitStop \<and>
     snd (visit_children (leaf_callback pre) path cs s) =
       s @ map last (filter (kept pre) (concat (map (leaf_paths path) cs)))"
proof (induction "leaf_callback pre" path n s and "leaf_callback pre" path cs s rule: visit_visit_children.induct)
  case (1 path v l h m cs d s)
  let ?n = "Node v l h m cs d"
  show ?case
  proof (cases "prefix_match pre path ?n")
    case False
    then have no: "\<not> kept pre p" if p: "p \<in> set (leaf_paths path ?n)" for p
    proof -
      obtain q where q: "p = path @ v # q" using leaf_paths_extend [OF p] by auto
      with False show ?thesis using comparable_extend [of "path @ [v]" q pre]
        by (auto simp: prefix_match_iff kept_def)
    qed
    then have "filter (kept pre) (leaf_paths path ?n) = []" by (simp only: filter_empty_conv) blast
    with False show ?thesis by (simp add: leaf_callback_def del: leaf_paths.simps)
  next
    case True
    then have "kept pre (path @ [v])" by (auto simp: prefix_match_iff kept_def)
    with True 1 [of VisitContinue "if cs = [] then s @ [v] else s"] show ?thesis
      by (cases "cs = []") (simp_all add: leaf_callback_def)
  qed
next
  case (3 path c cs s)
  then show ?case by (auto split: prod.split visit_result.split)
qed simp

text \<open>
  The leaves listed under a prefix are those whose path agrees with the prefix as far as
  both go, in the order of the tree, and besides them every leaf directly under the root, which
  the test of the prefix lets through whatever the prefix is.
\<close>

lemma leafs_under_prefix:
  "leafs pre t = map last (filter (\<lambda>p. length p = 1 \<or> prefix p pre \<or> prefix pre p)
     (concat (map (leaf_paths []) (nd_children (ts_root t)))))"
proof -
  have "leafs pre t = tree_visit (leaf_callback pre) t []"
    unfolding leafs_def leaf_callback_def ..
  also have "\<dots> = map last (filter (kept pre) (concat (map (leaf_paths []) (nd_children (ts_root t)))))"
    using visit_leafs(2) [of pre "[]" "nd_children (ts_root t)" "[]"] by (simp add: tree_visit_def)
  finally show ?thesis by (simp add: kept_def [abs_def] comparable_def)
qed

section \<open>Differences\<close>

text \<open>The child with a value, and the hash of the node a path leads to.\<close>

definition child_of :: "'a node list \<Rightarrow> 'a \<Rightarrow> 'a node option" where
  "child_of cs v = find (\<lambda>c. nd_value c = v) cs"

fun hash_at :: "'a node list \<Rightarrow> 'a list \<Rightarrow> u64 option" where
  "hash_at cs [] = None"
| "hash_at cs [v] = map_option nd_hash (child_of cs v)"
| "hash_at cs (v # w # p) =
     (case child_of cs v of None \<Rightarrow> None | Some c \<Rightarrow> hash_at (nd_children c) (w # p))"

abbreviation tree_hash :: "'a tree_set \<Rightarrow> 'a list \<Rightarrow> u64 option" where
  "tree_hash t \<equiv> hash_at (nd_children (ts_root t))"

text \<open>
  Given the hashes at the paths of two trees: a path is in both with different hashes; such are
  all its proper prefixes; and what a comparison is to report.
\<close>

definition differ :: "('a list \<Rightarrow> u64 option) \<Rightarrow> ('a list \<Rightarrow> u64 option) \<Rightarrow> 'a list \<Rightarrow> bool" where
  "differ H H' p \<longleftrightarrow> H p \<noteq> None \<and> H' p \<noteq> None \<and> H p \<noteq> H' p"

definition reached :: "('a list \<Rightarrow> u64 option) \<Rightarrow> ('a list \<Rightarrow> u64 option) \<Rightarrow> 'a list \<Rightarrow> bool" where
  "reached H H' p \<longleftrightarrow> (\<forall>q. q \<noteq> [] \<and> strict_prefix q p \<longrightarrow> differ H H' q)"

fun diff_spec :: "('a list \<Rightarrow> u64 option) \<Rightarrow> ('a list \<Rightarrow> u64 option) \<Rightarrow> 'a diff \<Rightarrow> bool" where
  "diff_spec H H' (MissingOther p) \<longleftrightarrow> H p \<noteq> None \<and> H' p = None \<and> reached H H' p"
| "diff_spec H H' (MissingSelf p) \<longleftrightarrow> H p = None \<and> H' p \<noteq> None \<and> reached H H' p"
| "diff_spec H H' (HashMismatch p) \<longleftrightarrow>
     differ H H' p \<and> reached H H' p \<and> (\<forall>v. H (p @ [v]) = H' (p @ [v]))"

lemma child_of_simps [simp]:
  "child_of [] v = None" "child_of (c # cs) v = (if nd_value c = v then Some c else child_of cs v)"
  by (simp_all add: child_of_def)

lemma child_of_above: "\<forall>c\<in>set cs. u < nd_value c \<Longrightarrow> v \<le> u \<Longrightarrow> child_of cs v = None" for u :: "'a::linorder"
  by (induction cs) auto

lemma child_of_mem: "child_of cs v = Some c \<Longrightarrow> c \<in> set cs \<and> nd_value c = v"
  by (induction cs) (auto split: if_splits)

lemma hash_at_Cons:
  "q \<noteq> [] \<Longrightarrow> hash_at cs (v # q) = (case child_of cs v of None \<Rightarrow> None | Some c \<Rightarrow> hash_at (nd_children c) q)"
  by (cases q) (auto split: option.split)

text \<open>The merge of two sorted lists of siblings, value by value.\<close>

definition diff_value :: "'a::linorder list \<Rightarrow> 'a \<Rightarrow> 'a node option \<Rightarrow> 'a node option \<Rightarrow> 'a diff set" where
  "diff_value path v a b =
     (case (a, b) of
        (None, None) \<Rightarrow> {}
      | (Some a, None) \<Rightarrow> {MissingOther (path @ [v])}
      | (None, Some b) \<Rightarrow> {MissingSelf (path @ [v])}
      | (Some a, Some b) \<Rightarrow>
          (let below = set (diff_children (path @ [v]) (nd_children a) (nd_children b))
           in if nd_hash a = nd_hash b then {} else if below = {} then {HashMismatch (path @ [v])} else below))"

lemma UN_split:
  assumes "\<And>v. v \<noteq> u \<Longrightarrow> F v = G v" "G u = {}"
  shows "(\<Union>v. F v) = F u \<union> (\<Union>v. G v)"
proof (intro equalityI subsetI)
  fix d assume "d \<in> (\<Union>v. F v)"
  then obtain v where "d \<in> F v" by blast
  then show "d \<in> F u \<union> (\<Union>v. G v)" using assms(1) [of v] by (cases "v = u") auto
next
  fix d assume "d \<in> F u \<union> (\<Union>v. G v)"
  then show "d \<in> (\<Union>v. F v)"
  proof
    assume "d \<in> (\<Union>v. G v)"
    then obtain v where "d \<in> G v" by blast
    with assms show ?thesis by (cases "v = u") auto
  qed blast
qed

lemma diff_merge:
  assumes "sorted_wrt (<) (map nd_value xs)" "sorted_wrt (<) (map nd_value ys)"
  shows "set (diff_children path xs ys) = (\<Union>v. diff_value path v (child_of xs v) (child_of ys v))"
  using assms
proof (induction path xs ys rule: diff_children.induct)
  case (1 path)
  then show ?case by (simp add: diff_value_def)
next
  case (2 path a xs)
  have "child_of xs (nd_value a) = None" using "2.prems"(1) by (intro child_of_above [of _ "nd_value a"]) simp_all
  then have "(\<Union>v. diff_value path v (child_of (a # xs) v) (child_of [] v)) =
      {MissingOther (path @ [nd_value a])} \<union> (\<Union>v. diff_value path v (child_of xs v) (child_of [] v))"
    by (subst UN_split [where u = "nd_value a" and G = "\<lambda>v. diff_value path v (child_of xs v) (child_of [] v)"])
      (simp_all add: diff_value_def)
  with 2 show ?case by simp
next
  case (3 path b ys)
  have "child_of ys (nd_value b) = None" using "3.prems"(2) by (intro child_of_above [of _ "nd_value b"]) simp_all
  then have "(\<Union>v. diff_value path v (child_of [] v) (child_of (b # ys) v)) =
      {MissingSelf (path @ [nd_value b])} \<union> (\<Union>v. diff_value path v (child_of [] v) (child_of ys v))"
    by (subst UN_split [where u = "nd_value b" and G = "\<lambda>v. diff_value path v (child_of [] v) (child_of ys v)"])
      (simp_all add: diff_value_def)
  with 3 show ?case by simp
next
  case (4 path a xs b ys)
  have sx: "sorted_wrt (<) (map nd_value xs)" "\<forall>c\<in>set xs. nd_value a < nd_value c"
    and sy: "sorted_wrt (<) (map nd_value ys)" "\<forall>c\<in>set ys. nd_value b < nd_value c"
    using "4.prems" by simp_all
  have na: "child_of xs (nd_value a) = None" and nb: "child_of ys (nd_value b) = None"
    using child_of_above [OF sx(2)] child_of_above [OF sy(2)] by simp_all
  consider (less) "nd_value a < nd_value b" | (greater) "nd_value b < nd_value a" | (equal) "nd_value a = nd_value b"
    by fastforce
  then show ?case
  proof cases
    case less
    then have "child_of (b # ys) (nd_value a) = None" using sy(2) by (intro child_of_above [of _ "nd_value a"]) auto
    with na have "(\<Union>v. diff_value path v (child_of (a # xs) v) (child_of (b # ys) v)) =
        {MissingOther (path @ [nd_value a])} \<union> (\<Union>v. diff_value path v (child_of xs v) (child_of (b # ys) v))"
      by (subst UN_split [where u = "nd_value a" and G = "\<lambda>v. diff_value path v (child_of xs v) (child_of (b # ys) v)"])
        (auto simp: diff_value_def split: if_splits)
    with less "4.IH"(1) [OF less sx(1) "4.prems"(2)] show ?thesis by simp
  next
    case greater
    then have "child_of (a # xs) (nd_value b) = None" using sx(2) by (intro child_of_above [of _ "nd_value b"]) auto
    with nb have "(\<Union>v. diff_value path v (child_of (a # xs) v) (child_of (b # ys) v)) =
        {MissingSelf (path @ [nd_value b])} \<union> (\<Union>v. diff_value path v (child_of (a # xs) v) (child_of ys v))"
      by (subst UN_split [where u = "nd_value b" and G = "\<lambda>v. diff_value path v (child_of (a # xs) v) (child_of ys v)"])
        (auto simp: diff_value_def split: if_splits)
    with "4.IH"(2) [OF less_not_sym [OF greater] greater "4.prems"(1) sy(1)] less_not_sym [OF greater] greater
    show ?thesis by simp
  next
    case equal
    with na nb have "(\<Union>v. diff_value path v (child_of (a # xs) v) (child_of (b # ys) v)) =
        diff_value path (nd_value a) (Some a) (Some b) \<union> (\<Union>v. diff_value path v (child_of xs v) (child_of ys v))"
      by (subst UN_split [where u = "nd_value a" and G = "\<lambda>v. diff_value path v (child_of xs v) (child_of ys v)"])
        (auto simp: diff_value_def split: if_splits)
    moreover have "set (diff_children path xs ys) = (\<Union>v. diff_value path v (child_of xs v) (child_of ys v))"
      using "4.IH"(4) [OF _ _ sx(1) sy(1)] equal by simp
    ultimately show ?thesis using equal by (simp add: diff_value_def Let_def)
  qed
qed

fun diff_path :: "'a diff \<Rightarrow> 'a list" where
  "diff_path (MissingSelf p) = p"
| "diff_path (MissingOther p) = p"
| "diff_path (HashMismatch p) = p"

lemma diff_below: "d \<in> set (diff_children path xs ys) \<Longrightarrow> \<exists>v q. diff_path d = path @ v # q"
proof (induction path xs ys rule: diff_children.induct)
  case (4 path a xs b ys)
  then show ?case by (fastforce simp: Let_def split: if_splits)
qed auto

lemma diff_value_below:
  assumes "d \<in> diff_value path v a b"
  shows "\<exists>q. diff_path d = path @ v # q"
proof (cases "\<exists>a' b'. a = Some a' \<and> b = Some b' \<and> d \<in> set (diff_children (path @ [v]) (nd_children a') (nd_children b'))")
  case True
  then show ?thesis using diff_below by fastforce
next
  case False
  with assms show ?thesis by (auto simp: diff_value_def Let_def split: option.splits if_splits)
qed

lemma diff_at:
  assumes "sorted_wrt (<) (map nd_value xs)" "sorted_wrt (<) (map nd_value ys)" "diff_path d = path @ v # q"
  shows "d \<in> set (diff_children path xs ys) \<longleftrightarrow> d \<in> diff_value path v (child_of xs v) (child_of ys v)"
  unfolding diff_merge [OF assms(1,2)] using diff_value_below assms(3) by fastforce

text \<open>Two lists of siblings have no difference exactly if they have the same values and hashes.\<close>

lemma no_difference:
  "diff_children path xs ys = [] \<longleftrightarrow>
     map (\<lambda>c. (nd_value c, nd_hash c)) xs = map (\<lambda>c. (nd_value c, nd_hash c)) ys"
proof (induction path xs ys rule: diff_children.induct)
  case (4 path a xs b ys)
  show ?case
  proof (cases "nd_value a = nd_value b")
    case True
    with 4 show ?thesis by (auto simp: Let_def)
  next
    case False
    then show ?thesis by auto
  qed
qed simp_all

lemma no_difference_at:
  assumes "sorted_wrt (<) (map nd_value xs)" "sorted_wrt (<) (map nd_value ys)"
  shows "diff_children path xs ys = [] \<longleftrightarrow> (\<forall>v. hash_at xs [v] = hash_at ys [v])"
proof -
  have "diff_value path v (child_of xs v) (child_of ys v) = {} \<longleftrightarrow> hash_at xs [v] = hash_at ys [v]" for v
    by (auto simp: diff_value_def Let_def split: option.split if_splits)
  then have "set (diff_children path xs ys) = {} \<longleftrightarrow> (\<forall>v. hash_at xs [v] = hash_at ys [v])"
    unfolding diff_merge [OF assms] by simp
  then show ?thesis by simp
qed

lemma reached_Cons:
  "reached H H' (v # q) \<longleftrightarrow> q = [] \<or> differ H H' [v] \<and> reached (\<lambda>r. H (v # r)) (\<lambda>r. H' (v # r)) q"
proof (cases "q = []")
  case True
  then have "\<not> (r \<noteq> [] \<and> strict_prefix r (v # q))" for r by (cases r) (auto simp: strict_prefix_def)
  with True show ?thesis by (auto simp: reached_def)
next
  case False
  have "(\<forall>r. r \<noteq> [] \<and> strict_prefix r (v # q) \<longrightarrow> P r) \<longleftrightarrow> P [v] \<and> (\<forall>r. r \<noteq> [] \<and> strict_prefix r q \<longrightarrow> P (v # r))" for P
  proof (intro iffI conjI allI impI)
    assume "\<forall>r. r \<noteq> [] \<and> strict_prefix r (v # q) \<longrightarrow> P r"
    moreover have "strict_prefix [v] (v # q)" using False by (simp add: strict_prefix_def)
    ultimately show "P [v]" by blast
  next
    fix r assume "\<forall>r. r \<noteq> [] \<and> strict_prefix r (v # q) \<longrightarrow> P r" "r \<noteq> [] \<and> strict_prefix r q"
    then show "P (v # r)" by (simp add: strict_prefix_def)
  next
    fix r assume a: "P [v] \<and> (\<forall>r. r \<noteq> [] \<and> strict_prefix r q \<longrightarrow> P (v # r))" "r \<noteq> [] \<and> strict_prefix r (v # q)"
    then obtain r' where "r = v # r'" "strict_prefix r' q" by (cases r) (auto simp: strict_prefix_def)
    with a(1) show "P r" by (cases "r' = []") auto
  qed
  with False show ?thesis by (simp add: reached_def differ_def)
qed

text \<open>What is seen at the children of one value is what is seen below it.\<close>

lemma seen_below:
  assumes "child_of xs v = Some a" "q \<noteq> []"
  shows "hash_at xs (v # q) = hash_at (nd_children a) q"
  using assms by (simp add: hash_at_Cons)

lemma reached_below:
  assumes "child_of xs v = Some a" "child_of ys v = Some b"
  shows "reached (\<lambda>r. hash_at xs (v # r)) (\<lambda>r. hash_at ys (v # r)) q \<longleftrightarrow>
    reached (hash_at (nd_children a)) (hash_at (nd_children b)) q"
  using seen_below [OF assms(1)] seen_below [OF assms(2)] by (auto simp: reached_def differ_def)

fun same_kind :: "'a diff \<Rightarrow> 'a list \<Rightarrow> 'a diff" where
  "same_kind (MissingSelf p) q = MissingSelf q"
| "same_kind (MissingOther p) q = MissingOther q"
| "same_kind (HashMismatch p) q = HashMismatch q"

lemma diff_spec_below:
  assumes "child_of xs v = Some a" "child_of ys v = Some b" "q \<noteq> []"
  shows "diff_spec (hash_at xs) (hash_at ys) (same_kind d (v # q)) \<longleftrightarrow>
    nd_hash a \<noteq> nd_hash b \<and> diff_spec (hash_at (nd_children a)) (hash_at (nd_children b)) (same_kind d q)"
proof -
  note s = seen_below [OF assms(1)] seen_below [OF assms(2)]
  have "differ (hash_at xs) (hash_at ys) [v] \<longleftrightarrow> nd_hash a \<noteq> nd_hash b"
    using assms(1,2) by (simp add: differ_def)
  with assms(3) s show ?thesis
    by (cases d) (auto simp: reached_Cons reached_below [OF assms(1,2)] differ_def)
qed

lemma diff_spec_here:
  "diff_spec (hash_at xs) (hash_at ys) (MissingOther [v]) \<longleftrightarrow> child_of xs v \<noteq> None \<and> child_of ys v = None"
  "diff_spec (hash_at xs) (hash_at ys) (MissingSelf [v]) \<longleftrightarrow> child_of xs v = None \<and> child_of ys v \<noteq> None"
  "diff_spec (hash_at xs) (hash_at ys) (HashMismatch [v]) \<longleftrightarrow>
     (\<exists>a b. child_of xs v = Some a \<and> child_of ys v = Some b \<and> nd_hash a \<noteq> nd_hash b \<and>
        (\<forall>w. hash_at (nd_children a) [w] = hash_at (nd_children b) [w]))"
  by (auto simp: reached_Cons differ_def split: option.splits)

lemma diff_spec_absent:
  assumes "child_of xs v = None \<or> child_of ys v = None" "q \<noteq> []"
  shows "\<not> diff_spec (hash_at xs) (hash_at ys) (same_kind d (v # q))"
  using assms by (cases d) (auto simp: reached_Cons differ_def)

lemma diff_children_exact:
  assumes "sorted_wrt (<) (map nd_value xs)" "sorted_wrt (<) (map nd_value ys)"
    "\<forall>c\<in>set xs. wf_node c" "\<forall>c\<in>set ys. wf_node c"
  shows "same_kind d (path @ q) \<in> set (diff_children path xs ys) \<longleftrightarrow>
    diff_spec (hash_at xs) (hash_at ys) (same_kind d q)"
  using assms
proof (induction q arbitrary: path xs ys)
  case Nil
  have "same_kind d path \<notin> set (diff_children path xs ys)"
    using diff_below [of "same_kind d path" path xs ys] by (cases d) auto
  then show ?case by (cases d) (auto simp: differ_def)
next
  case (Cons v q)
  let ?d = "same_kind d (path @ v # q)"
  have at: "?d \<in> set (diff_children path xs ys) \<longleftrightarrow> ?d \<in> diff_value path v (child_of xs v) (child_of ys v)"
    by (rule diff_at [OF Cons.prems(1,2)]) (cases d; simp)
  show ?case
  proof (cases "\<exists>a b. child_of xs v = Some a \<and> child_of ys v = Some b")
    case False
    then have "?d \<in> diff_value path v (child_of xs v) (child_of ys v) \<longleftrightarrow>
        q = [] \<and> diff_spec (hash_at xs) (hash_at ys) (same_kind d [v])"
      by (cases d; cases "child_of xs v"; cases "child_of ys v")
        (simp_all add: diff_value_def diff_spec_here del: diff_spec.simps)
    with at False diff_spec_absent [of xs v ys q d] show ?thesis by (cases "q = []") auto
  next
    case True
    then obtain a b where ab: "child_of xs v = Some a" "child_of ys v = Some b" by blast
    then have wf: "wf_node a" "wf_node b" using child_of_mem Cons.prems(3,4) by metis+
    let ?below = "set (diff_children (path @ [v]) (nd_children a) (nd_children b))"
    have sorted: "sorted_wrt (<) (map nd_value (nd_children a))" "sorted_wrt (<) (map nd_value (nd_children b))"
      and wfs: "\<forall>c\<in>set (nd_children a). wf_node c" "\<forall>c\<in>set (nd_children b). wf_node c"
      using wf wf_node_alt [of a] wf_node_alt [of b] by simp_all
    have vals: "diff_value path v (child_of xs v) (child_of ys v) =
        (if nd_hash a = nd_hash b then {} else if ?below = {} then {HashMismatch (path @ [v])} else ?below)"
      by (simp add: diff_value_def ab Let_def)
    show ?thesis
    proof (cases "q = []")
      case True
      have "?d \<notin> ?below" using diff_below [of ?d "path @ [v]" "nd_children a" "nd_children b"] True by (cases d) auto
      moreover have "?below = {} \<longleftrightarrow> (\<forall>w. hash_at (nd_children a) [w] = hash_at (nd_children b) [w])"
        using no_difference_at [OF sorted, of "path @ [v]"] by simp
      ultimately show ?thesis unfolding at vals using True
        by (cases d) (auto simp: diff_spec_here ab simp del: diff_spec.simps hash_at.simps)
    next
      case False
      then have "?d \<noteq> HashMismatch (path @ [v])" by (cases d) simp_all
      moreover have "?d \<in> ?below \<longleftrightarrow> diff_spec (hash_at (nd_children a)) (hash_at (nd_children b)) (same_kind d q)"
        using Cons.IH [OF sorted wfs, of "path @ [v]"] by simp
      ultimately show ?thesis unfolding at vals diff_spec_below [OF ab False] by auto
    qed
  qed
qed

text \<open>
  C19. A comparison of two trees says what it is to say, no less and no more: it reports a path as
  missing on one side exactly if it leads to a node of the other side only, and a path as having
  differing hashes exactly if it leads to nodes of both whose hashes do differ while their
  children agree in values and hashes; always provided that the hashes differ at every node above,
  which is as far as the comparison descends.
\<close>

theorem diff_is_exact:
  assumes "wf_node (ts_root t)" "wf_node (ts_root t')"
  shows "d \<in> set (tree_diff t t') \<longleftrightarrow> diff_spec (tree_hash t) (tree_hash t') d"
proof -
  have "same_kind d ([] @ diff_path d) = d" by (cases d) simp_all
  with diff_children_exact [of "nd_children (ts_root t)" "nd_children (ts_root t')" d "[]" "diff_path d"]
    assms wf_node_alt [of "ts_root t"] wf_node_alt [of "ts_root t'"]
  show ?thesis by (simp add: tree_diff_def)
qed

section \<open>Trees of numbers\<close>

definition num_ops :: "nat elem_ops" where
  "num_ops = \<lparr>el_ref = (\<lambda>n. [of_nat n]), el_default = 0,
     el_digest = (\<lambda>bs. fold (\<lambda>b h. 31 * h + ucast b) bs 7)\<rparr>"

definition num_root :: "nat node" where
  "num_root = node_default num_ops"

lemma num_root_wf [simp]: "wf_node num_root"
  by (simp add: num_root_def node_default_def)

lemma num_root_hashed: "hashed num_ops (rehash num_ops num_root)" "wf_node (rehash num_ops num_root)"
  by (simp_all add: num_root_def node_default_def update_hash_dirty)

theorem incremental_hash_is_rehash_witness:
  "node_insert num_ops [1, 2] 3 None True (rehash num_ops num_root) =
     rehash num_ops (node_insert num_ops [1, 2] 3 None False (rehash num_ops num_root))"
  using incremental_hash_is_rehash [OF num_root_hashed(2,1)] by blast

theorem insert_adds_path_witness:
  "paths (node_insert num_ops [1, 2] 3 (Some 5) True num_root) = paths num_root \<union> {[], [1], [1, 2], [1, 2, 3]}"
  using insert_adds_path [OF num_root_wf, of num_ops "[1, 2]" 3 "Some 5" True] by simp

lemma num_child_given:
  "nd_children (node_insert num_ops [] v (Some h) False num_root) = [Node v 1 h (Some h) [] True]"
  by (simp add: num_root_def node_default_def node_insert.simps get_or_create_child_def binary_search_def
      search_between.simps Let_def insert_at_def place_value_def)

theorem diff_is_exact_witness:
  "HashMismatch [1] \<in> set (tree_diff (tree_insert_with_hash num_ops [] 1 5 \<lparr>ts_root = num_root\<rparr>)
     (tree_insert_with_hash num_ops [] 1 6 \<lparr>ts_root = num_root\<rparr>)) \<and>
   HashMismatch [1] \<notin> set (tree_diff (tree_insert_with_hash num_ops [] 1 5 \<lparr>ts_root = num_root\<rparr>)
     (tree_insert_with_hash num_ops [] 1 5 \<lparr>ts_root = num_root\<rparr>))"
proof -
  let ?t = "\<lambda>h. tree_insert_with_hash num_ops [] 1 h \<lparr>ts_root = num_root\<rparr>"
  have c: "nd_children (ts_root (?t h)) = [Node 1 1 h (Some h) [] True]" for h
    by (simp add: tree_insert_with_hash_def num_child_given)
  have wf: "wf_node (ts_root (?t h))" for h
    unfolding wf_node_alt [of "ts_root (?t h)"] c by simp
  show ?thesis
    unfolding diff_is_exact [OF wf wf] c by (simp add: reached_Cons differ_def)
qed

end
