(* ===== verification/Ticker.thy ===== *)
theory Ticker
  imports Prelude
begin

text \<open>
  Several tickers as one stream (\<open>src/multi_ticker.rs\<close>), from which the swarm task takes its ticks.
  A single ticker is third party code: polling it gives an item, the end or nothing yet, and a
  new state. \<open>select_all\<close> polls its streams one after the other, in an order it does not promise,
  and stops at the first that has an item.
\<close>

section \<open>Polling\<close>

datatype 'a poll = Pending | Ready "'a option"

type_synonym ('k, 't) multi_ticker = "'k \<rightharpoonup> 't"

text \<open>Collecting into a map: of two tickers with one key the later stays.\<close>

definition multi_ticker_new :: "('k \<times> 't) list \<Rightarrow> ('k, 't) multi_ticker" where
  "multi_ticker_new tickers = map_of (rev tickers)"

definition keyed_poll :: "('t \<Rightarrow> 'i poll \<times> 't) \<Rightarrow> 'k \<times> 't \<Rightarrow> ('k \<times> 'i) poll \<times> ('k \<times> 't)" where
  "keyed_poll poll_next keyed =
     (case keyed of (key, stream) \<Rightarrow>
        (case poll_next stream of
           (Ready (Some item), stream') \<Rightarrow> (Ready (Some (key, item)), key, stream')
         | (Ready None, stream') \<Rightarrow> (Ready None, key, stream')
         | (Pending, stream') \<Rightarrow> (Pending, key, stream')))"

text \<open>
  \<open>order\<close> is the order of polling; the flag says whether a ticker was found that may still tick.
\<close>

fun multi_poll ::
  "('t \<Rightarrow> 'i poll \<times> 't) \<Rightarrow> bool \<Rightarrow> 'k list \<Rightarrow> ('k, 't) multi_ticker \<Rightarrow> ('k \<times> 'i) poll \<times> ('k, 't) multi_ticker" where
  "multi_poll poll_next waiting [] m = (if waiting then Pending else Ready None, m)"
| "multi_poll poll_next waiting (k # order) m =
     (case m k of
        None \<Rightarrow> multi_poll poll_next waiting order m
      | Some stream \<Rightarrow>
          (case keyed_poll poll_next (k, stream) of
             (Ready (Some item), _, stream') \<Rightarrow> (Ready (Some item), m(k \<mapsto> stream'))
           | (Ready None, _, stream') \<Rightarrow> multi_poll poll_next waiting order (m(k \<mapsto> stream'))
           | (Pending, _, stream') \<Rightarrow> multi_poll poll_next True order (m(k \<mapsto> stream'))))"

definition is_terminated :: "('k, 't) multi_ticker \<Rightarrow> bool" where
  "is_terminated m \<longleftrightarrow> dom m = {}"

section \<open>No tick is lost\<close>

lemma keyed_poll_cases:
  "keyed_poll poll_next (k, stream) = (r, k', stream') \<Longrightarrow> k' = k \<and>
     (case r of Ready (Some (k'', i)) \<Rightarrow> k'' = k \<and> poll_next stream = (Ready (Some i), stream')
      | Ready None \<Rightarrow> poll_next stream = (Ready None, stream')
      | Pending \<Rightarrow> poll_next stream = (Pending, stream'))"
  by (auto simp: keyed_poll_def split: prod.splits poll.splits option.splits)

text \<open>A ticker that was not polled, or was polled without giving an item.\<close>

definition no_item :: "('t \<Rightarrow> 'i poll \<times> 't) \<Rightarrow> 't option \<Rightarrow> 't option \<Rightarrow> bool" where
  "no_item poll_next old new \<longleftrightarrow> new = old \<or>
     (\<exists>t t'. old = Some t \<and> new = Some t' \<and> (poll_next t = (Pending, t') \<or> poll_next t = (Ready None, t')))"

text \<open>
  A tick that comes out is the tick of one ticker, under its key, and no other ticker has given
  one that was dropped; if none comes out, no ticker has given any.
\<close>

definition polled ::
  "('t \<Rightarrow> 'i poll \<times> 't) \<Rightarrow> ('k, 't) multi_ticker \<Rightarrow> ('k \<times> 'i) poll \<Rightarrow> ('k, 't) multi_ticker \<Rightarrow> bool" where
  "polled poll_next m r m' \<longleftrightarrow>
     (\<forall>k. (\<forall>i. r \<noteq> Ready (Some (k, i))) \<longrightarrow> no_item poll_next (m k) (m' k)) \<and>
     (\<forall>k i. r = Ready (Some (k, i)) \<longrightarrow>
        (\<exists>t t'. m k = Some t \<and> poll_next t = (Ready (Some i), t') \<and> m' k = Some t'))"

lemma polled_skip:
  assumes "polled poll_next (m(k \<mapsto> t')) r m'" "m' k = Some t'" "\<forall>i. r \<noteq> Ready (Some (k, i))"
    "no_item poll_next (m k) (Some t')"
  shows "polled poll_next m r m'"
  using assms unfolding polled_def by (metis fun_upd_apply)

lemma multi_poll_rest:
  assumes "multi_poll poll_next waiting order m = (r, m')" "k \<notin> set order"
  shows "m' k = m k \<and> (\<forall>i. r \<noteq> Ready (Some (k, i)))"
  using assms
proof (induction order arbitrary: waiting m)
  case (Cons a order)
  then show ?case
    by (auto split: option.splits prod.splits poll.splits dest: keyed_poll_cases)
qed (auto split: if_splits)

lemma tick_of_one_ticker:
  assumes "multi_poll poll_next waiting order m = (r, m')" "distinct order"
  shows "polled poll_next m r m'"
  using assms
proof (induction order arbitrary: waiting m)
  case (Cons k order)
  show ?case
  proof (cases "m k")
    case None
    with Cons show ?thesis by simp
  next
    case (Some t)
    obtain p t' where q: "keyed_poll poll_next (k, t) = (p, k, t')"
      using keyed_poll_cases by (metis prod_cases3)
    note c = keyed_poll_cases [OF q]
    show ?thesis
    proof (cases "\<exists>item. p = Ready (Some item)")
      case True
      with c obtain i where p: "p = Ready (Some (k, i))" "poll_next t = (Ready (Some i), t')" by auto
      with Cons.prems(1) Some q have "r = p" "m' = m(k \<mapsto> t')" by auto
      with p Some show ?thesis by (auto simp: polled_def no_item_def)
    next
      case False
      then obtain w where rest: "multi_poll poll_next w order (m(k \<mapsto> t')) = (r, m')"
        using Cons.prems(1) Some q by (cases p) (auto split: option.splits)
      have "no_item poll_next (m k) (Some t')"
        using c False Some by (cases p) (auto simp: no_item_def split: option.splits)
      moreover have o: "k \<notin> set order" "distinct order" using Cons.prems(2) by auto
      moreover have "m' k = Some t'" "\<forall>i. r \<noteq> Ready (Some (k, i))" using multi_poll_rest [OF rest o(1)] by auto
      ultimately show ?thesis using polled_skip [OF Cons.IH [OF rest]] by blast
    qed
  qed
qed (auto simp: polled_def no_item_def split: if_splits)

text \<open>As long as one of the tickers is only waiting, the stream does not end.\<close>

lemma waiting_stays: "fst (multi_poll poll_next True order m) \<noteq> Ready None"
  by (induction order arbitrary: m) (auto split: option.split prod.split poll.split)

end
