(* ===== verification/UnitTests.thy ===== *)
theory UnitTests
  imports Run SyncTreeProps Ticker
begin

text \<open>
  Unit tests of the repository, read as statements about the model: each test is the function of
  its assertions, and the lemmas show that the model passes it under the hypotheses they name.
  They are computations on the fixed inputs of the tests. Not among them are
  \<open>test_is_valid_signature\<close> and \<open>test_is_authorized_to_create_premint\<close> (a signature and a contract
  that only the libraries and the chain can judge), \<open>test_get_bootnodes_from_chain\<close>,
  \<open>test_chains_new\<close> and \<open>test_chain_connect\<close> (live chains), and \<open>test_large_tree\<close> (the size of a
  serialised tree).
\<close>

section \<open>Premint store (\<open>src/storage.rs\<close>)\<close>

text \<open>An engine whose memory database is empty, works, and returns rows in the order of the table.\<close>

definition fresh_engine :: "engine \<Rightarrow> string \<Rightarrow> bool" where
  "fresh_engine en now \<longleftrightarrow> (\<exists>db. db_connect en ''sqlite::memory:'' = Ok db \<and>
     db_migrate en db = Ok \<lparr>db_rows = [], db_fault = None, db_clock = now, db_scan = (\<lambda>rs. rs)\<rparr>)"

definition with_store :: "engine \<Rightarrow> config \<Rightarrow> (premint_storage \<Rightarrow> bool) \<Rightarrow> bool" where
  "with_store en cfg test = (case storage_new en cfg of Panic \<Rightarrow> False | Returns s \<Rightarrow> test s)"

definition test_insert_and_get :: "ext \<Rightarrow> engine \<Rightarrow> u64 \<Rightarrow> bool" where
  "test_insert_and_get x en port = with_store en (config_test_default port) (\<lambda>s.
     let premint = ZoraV2 v2_default; (r, s1) = store x s premint
     in is_ok r \<and> get_for_id_and_kind x (st_db s1) (md_id (metadata x premint)) (md_kind (metadata x premint)) = Ok premint)"

definition test_update :: "ext \<Rightarrow> engine \<Rightarrow> u64 \<Rightarrow> bool" where
  "test_update x en port = with_store en (config_test_default port) (\<lambda>s.
     let premint = ZoraV2 v2_default;
         (first, s1) = store x s premint;
         (second, s2) = store x s1 premint;
         newer = ZoraV2 (v2_default\<lparr>zp_premint := (zp_premint v2_default)\<lparr>ca_version := 2\<rparr>\<rparr>);
         (third, s3) = store x s2 newer
     in is_ok first \<and> \<not> is_ok second \<and> is_ok third \<and>
        get_for_id_and_kind x (st_db s3) (md_id (metadata x newer)) (md_kind (metadata x newer)) = Ok newer)"

text \<open>Three of the tests begin with the same two premints in the store.\<close>

definition two_premints :: "ext \<Rightarrow> premint_storage \<Rightarrow> (premint_types \<Rightarrow> premint_types \<Rightarrow> premint_storage \<Rightarrow> bool) \<Rightarrow> bool" where
  "two_premints x s test =
     (let premint_v2 = ZoraV2 v2_default;
          (r1, s1) = store x s premint_v2;
          premint_simple = Simple simple_premint_default;
          (r2, s2) = store x s1 premint_simple
      in is_ok r1 \<and> is_ok r2 \<and> test premint_v2 premint_simple s2)"

definition test_list_all :: "ext \<Rightarrow> engine \<Rightarrow> u64 \<Rightarrow> bool" where
  "test_list_all x en port = with_store en (config_test_default port) (\<lambda>s.
     two_premints x s (\<lambda>premint_v2 premint_simple s2.
       list_all_premints x (st_db s2) = Ok [premint_v2, premint_simple]))"

definition test_list_all_with_options :: "ext \<Rightarrow> engine \<Rightarrow> u64 \<Rightarrow> int \<Rightarrow> bool" where
  "test_list_all_with_options x en port utc_now = with_store en (config_test_default port) (\<lambda>s.
     two_premints x s (\<lambda>premint_v2 premint_simple s2.
       list_all_with_options x (st_db s2) (query_options_default\<lparr>qo_chain_id := Some 0,
         qo_kind := Some ''zora_premint_v2'', qo_collection_address := Some 0\<rparr>) = Ok [premint_v2] \<and>
       map_option length (ok (list_all_premints x (st_db s2))) = Some 2 \<and>
       list_all_with_options x (st_db s2) (query_options_default\<lparr>qo_chain_id := Some 0\<rparr>) =
         Ok [premint_v2, premint_simple] \<and>
       list_all_with_options x (st_db s2) (query_options_default\<lparr>qo_kind := Some ''simple''\<rparr>) = Ok [premint_simple] \<and>
       list_all_with_options x (st_db s2) (query_options_default\<lparr>qo_kind := Some ''simple'',
         qo_from := Some (utc_now - 10), qo_to := Some utc_now\<rparr>) = Ok [premint_simple]))"

definition test_get_one :: "ext \<Rightarrow> engine \<Rightarrow> u64 \<Rightarrow> int \<Rightarrow> bool" where
  "test_get_one x en port utc_now = with_store en (config_test_default port) (\<lambda>s.
     two_premints x s (\<lambda>premint_v2 premint_simple s2.
       map_option length (ok (list_all_premints x (st_db s2))) = Some 2 \<and>
       get_one x (st_db s2) (query_options_default\<lparr>qo_chain_id := Some 0, qo_kind := Some ''simple'',
         qo_to := Some utc_now\<rparr>) = Ok premint_simple))"

text \<open>Two tests mark a V2 premint of the Zora chain as minted, beside a simple one.\<close>

definition minted_premint :: v2 where
  "minted_premint = v2_default\<lparr>zp_premint := (zp_premint v2_default)\<lparr>ca_uid := 1\<rparr>, zp_chain_id := 7777777\<rparr>"

definition minted_claim :: "ext \<Rightarrow> inclusion_claim" where
  "minted_claim x = \<lparr>cl_premint_id = md_id (metadata x (ZoraV2 minted_premint)), cl_chain_id = 7777777,
     cl_tx_hash = 0, cl_log_index = 0, cl_kind = ''zora_premint_v2''\<rparr>"

definition marked_beside_simple :: "ext \<Rightarrow> premint_storage \<Rightarrow> (premint_storage \<Rightarrow> bool) \<Rightarrow> bool" where
  "marked_beside_simple x s test =
     (let (r1, s1) = store x s (ZoraV2 minted_premint);
          (r2, s2) = store x s1 (Simple simple_premint_default);
          (r3, s3) = mark_seen_on_chain x s2 (minted_claim x)
      in is_ok r1 \<and> is_ok r2 \<and> map_option length (ok (list_all_premints x (st_db s2))) = Some 2 \<and> is_ok r3 \<and> test s3)"

definition test_mark_seen_on_chain :: "ext \<Rightarrow> engine \<Rightarrow> u64 \<Rightarrow> bool" where
  "test_mark_seen_on_chain x en port =
     with_store en ((config_test_default port)\<lparr>cfg_prune_minted_premints := True\<rparr>) (\<lambda>s.
       marked_beside_simple x s (\<lambda>s3. map_option length (ok (list_all_premints x (st_db s3))) = Some 1))"

definition test_prune_false_keeps_seen_premints :: "ext \<Rightarrow> engine \<Rightarrow> u64 \<Rightarrow> bool" where
  "test_prune_false_keeps_seen_premints x en port =
     with_store en ((config_test_default port)\<lparr>cfg_prune_minted_premints := False\<rparr>) (\<lambda>s.
       marked_beside_simple x s (\<lambda>s3.
         sql_count (st_db s3) (\<lambda>_. True) = Ok 2 \<and> sql_count (st_db s3) r_seen_on_chain = Ok 1 \<and>
         sql_count (st_db s3) (\<lambda>r. \<not> r_seen_on_chain r) = Ok 1))"

section \<open>Rules (\<open>src/rules.rs\<close>)\<close>

text \<open>The macro \<open>rule!\<close>.\<close>

definition plain_rule ::
  "string \<Rightarrow> (premint_types \<Rightarrow> 's rule_context \<Rightarrow> (evaluation, report) result) \<Rightarrow> 's rule" where
  "plain_rule name f = \<lparr>rl_name = name, rl_check = f\<rparr>"

definition context_test_default :: "premint_storage \<Rightarrow> premint_storage rule_context" where
  "context_test_default s = \<lparr>ctx_storage = s, ctx_existing = None, ctx_rpc = None\<rparr>"

definition simple_rule :: "premint_types \<Rightarrow> 's rule_context \<Rightarrow> (evaluation, report) result" where
  "simple_rule item ctx = Ok Accept"

definition conditional_rule :: "ext \<Rightarrow> premint_types \<Rightarrow> 's rule_context \<Rightarrow> (evaluation, report) result" where
  "conditional_rule x item ctx =
     (case item of
        Simple s \<Rightarrow>
          (if md_chain_id (metadata x (Simple s)) = 0 then Ok Accept else Ok (Reject ''Chain ID is not default''))
      | _ \<Rightarrow> Ok Accept)"

definition simple_typed_rule :: "simple_premint \<Rightarrow> 's rule_context \<Rightarrow> (evaluation, report) result" where
  "simple_typed_rule item ctx = Ok Accept"

definition simple_typed_zora_rule :: "v2 \<Rightarrow> 's rule_context \<Rightarrow> (evaluation, report) result" where
  "simple_typed_zora_rule item ctx = Ok Accept"

fun as_simple :: "premint_types \<Rightarrow> simple_premint option" where
  "as_simple (Simple p) = Some p"
| "as_simple _ = None"

definition test_simple_rule :: "engine \<Rightarrow> u64 \<Rightarrow> bool" where
  "test_simple_rule en port = with_store en (config_test_default port) (\<lambda>s.
     rl_check (plain_rule ''simple_rule'' simple_rule) (Simple simple_premint_default) (context_test_default s) = Ok Accept)"

definition test_simple_rules_engine :: "ext \<Rightarrow> engine \<Rightarrow> u64 \<Rightarrow> bool" where
  "test_simple_rules_engine x en port = with_store en (config_test_default port) (\<lambda>s.
     let engine = rules_engine_new (config_test_default port);
         engine = add_rule engine (plain_rule ''simple_rule'' simple_rule);
         engine = add_rule engine (plain_rule ''conditional_rule'' (conditional_rule x))
     in case evaluate x (storage_reader x) engine Map.empty (Simple simple_premint_default) (storage_clone s) of
          (Inl e, _) \<Rightarrow> False | (Inr result, _) \<Rightarrow> is_accept result)"

definition test_typed_rules_engine :: "ext \<Rightarrow> engine \<Rightarrow> u64 \<Rightarrow> bool" where
  "test_typed_rules_engine x en port = with_store en (config_test_default port) (\<lambda>s.
     let rule1 = typed_rule ''PremintTypes::Simple'' as_simple ''simple_typed_rule'' simple_typed_rule;
         rule2 = typed_rule ''PremintTypes::ZoraV2'' as_zora_v2 ''simple_typed_zora_rule'' simple_typed_zora_rule;
         engine = add_rule (add_rule (rules_engine_new (config_test_default port)) rule1) rule2
     in rl_name rule1 = ''PremintTypes::Simple::simple_typed_rule'' \<and>
        rl_name rule2 = ''PremintTypes::ZoraV2::simple_typed_zora_rule'' \<and>
        (case evaluate x (storage_reader x) engine Map.empty (Simple simple_premint_default) s of
           (Inl e, _) \<Rightarrow> False | (Inr result, _) \<Rightarrow> is_accept result))"

text \<open>\<open>SimplePremint::new\<close>, which only this test uses.\<close>

definition simple_premint_new :: "u64 \<Rightarrow> u64 \<Rightarrow> address \<Rightarrow> u64 \<Rightarrow> string \<Rightarrow> simple_premint" where
  "simple_premint_new version chain_id sender token_id media =
     \<lparr>sp_version = version, sp_chain_id = chain_id, sp_sender = sender, sp_token_id = token_id, sp_media = media\<rparr>"

definition test_token_uri_exists_rule :: "ext \<Rightarrow> engine \<Rightarrow> u64 \<Rightarrow> bool" where
  "test_token_uri_exists_rule x en port = with_store en (config_test_default port) (\<lambda>s.
     let premint = Simple simple_premint_default;
         check = (\<lambda>p s. existing_token_uri x (storage_reader x) (metadata x p) (context_test_default s));
         (r, s1) = store x s premint;
         premint2 = Simple (simple_premint_new 1 0 0 10 (md_uri (metadata x premint)))
     in check premint s = Ok Accept \<and> is_ok r \<and> check premint s1 = Ok Accept \<and>
        (\<exists>m. check premint2 s1 = Ok (Reject m)))"

section \<open>Synchronisation tree (\<open>src/sync.rs\<close>)\<close>

definition insert_all :: "'a elem_ops \<Rightarrow> ('a list \<times> 'a::linorder) list \<Rightarrow> 'a tree_set" where
  "insert_all ops ps = fold (\<lambda>(path, value). tree_insert ops path value) ps (tree_new ops)"

definition diff_sets :: "string elem_ops \<Rightarrow> string tree_set \<times> string tree_set" where
  "diff_sets ops =
     (let set1 = insert_all ops [([''a'', ''b'', ''c''], ''1''), ([''a'', ''b'', ''d''], ''2''),
            ([''a'', ''b'', ''e''], ''3''), ([''a'', ''b'', ''f''], ''4''), ([''a'', ''b'', ''g''], ''5'')];
          set1 = tree_insert_with_hash ops [''a'', ''b'', ''i''] ''6'' 10 set1;
          set2 = insert_all ops [([''a'', ''b'', ''c''], ''1''), ([''a'', ''b'', ''d''], ''2''),
            ([''a'', ''b'', ''e''], ''3''), ([''a'', ''b'', ''f''], ''4''), ([''a'', ''b'', ''h''], ''5'')];
          set2 = tree_insert_with_hash ops [''a'', ''b'', ''i''] ''6'' 5 set2
      in (tree_rehash ops set1, tree_rehash ops set2))"

definition test_tree_diff :: "string elem_ops \<Rightarrow> bool" where
  "test_tree_diff ops =
     (let (set1, set2) = diff_sets ops
      in length (tree_diff set1 set1) = 0 \<and> length (tree_diff set2 set2) = 0 \<and>
         tree_diff set1 set2 =
           [MissingOther [''a'', ''b'', ''g''], MissingSelf [''a'', ''b'', ''h''],
            HashMismatch [''a'', ''b'', ''i'', ''6'']])"

definition test_tree_leafs :: "string elem_ops \<Rightarrow> bool" where
  "test_tree_leafs ops =
     (let set1 = insert_all ops [([''a'', ''b'', ''c''], ''1''), ([''a'', ''b'', ''d''], ''2''),
            ([''a'', ''b'', ''e''], ''3''), ([''a'', ''b'', ''f''], ''4''), ([''a'', ''b'', ''g''], ''5'')]
      in leafs [] set1 = [''1'', ''2'', ''3'', ''4'', ''5''])"

section \<open>Premint types (\<open>src/types.rs\<close>)\<close>

text \<open>The test asserts no more than that nothing panics.\<close>

definition test_premint_serde :: "ext \<Rightarrow> bool" where
  "test_premint_serde x =
     list_all (\<lambda>premint. case to_json x premint of Inl e \<Rightarrow> False | Inr json \<Rightarrow> is_ok (from_json x json))
       [Simple \<lparr>sp_version = 1, sp_chain_id = 1, sp_sender = 0x66f9664f97F2b50F62D13eA064982f936dE76657,
          sp_token_id = 1, sp_media = ''https://ipfs.io/ipfs/Qm''\<rparr>,
        ZoraV2 v2_default]"

definition premint_log :: chain_log where
  "premint_log =
     \<lparr>log_address = PREMINT_FACTORY_ADDR,
      log_topics = [0xd7f3736994092942aacd1d75026379ceeaf4e28b6183b15f2decc9237334429b,
        0x65aae9d752ecac4965015664d0a6d0951e28d757, 1, 1],
      log_data = replicate 31 0 @ [1] @ replicate 12 0 @
        [0xed, 0xb8, 0x1a, 0xfa, 0xec, 0xc2, 0x37, 0x96, 0x35, 0xb2,
         0x5a, 0x75, 0x2b, 0x78, 0x7f, 0x82, 0x1a, 0x46, 0x64, 0x4c] @ replicate 31 0 @ [1],
      log_block_number = None,
      log_transaction_hash = Some 0xb28c6c91fc5c79490c0bf2e8b26ec7ea5ca66065e14436bf5798a9feaad6e617,
      log_log_index = Some 28\<rparr>"

definition expected_claim :: inclusion_claim where
  "expected_claim =
     \<lparr>cl_premint_id = ''7777777:0x65aae9d752ecac4965015664d0a6d0951e28d757:1'', cl_chain_id = 7777777,
      cl_tx_hash = 0xb28c6c91fc5c79490c0bf2e8b26ec7ea5ca66065e14436bf5798a9feaad6e617,
      cl_log_index = 28, cl_kind = ''zora_premint_v2''\<rparr>"

definition test_map_premintv2_claim :: "ext \<Rightarrow> bool" where
  "test_map_premintv2_claim x \<longleftrightarrow> zora_map_claim ns_v2 x 7777777 premint_log = Ok expected_claim"

definition test_verify_premintv2_claim :: "ext \<Rightarrow> bool" where
  "test_verify_premintv2_claim x =
     (let tx = \<lparr>rc_transaction_hash = 0xb28c6c91fc5c79490c0bf2e8b26ec7ea5ca66065e14436bf5798a9feaad6e617,
            rc_logs = []\<rparr>
      in case decode_event_v2 x (log_topics premint_log) (log_data premint_log) of
           Inl e \<Rightarrow> False
         | Inr event \<Rightarrow>
             (case zora_map_claim ns_v2 x 7777777 premint_log of
                Inl e \<Rightarrow> False
              | Inr claim \<Rightarrow>
                  (let premint = v2_default\<lparr>zp_premint := (zp_premint v2_default)\<lparr>ca_uid := ev_uid event, ca_version := 1\<rparr>,
                         zp_collection_address := ev_contractAddress event\<rparr>
                   in verify_claim x (ZoraV2 premint) 7777777 tx premint_log claim = Returns True)))"

section \<open>Configuration and chain list (\<open>src/config.rs\<close>, \<open>src/chain_list.rs\<close>)\<close>

definition test_init :: "ext \<Rightarrow> bool" where
  "test_init x =
     (case init (x\<lparr>env_var := (env_var x)(''SECRET'' \<mapsto> ''0x01'')\<rparr>) of Panic \<Rightarrow> False | Returns c \<Rightarrow> True)"

definition test_premint_names :: "u64 \<Rightarrow> bool" where
  "test_premint_names port =
     (let config = (config_test_default port)\<lparr>cfg_supported_premint_types := ''simple,zora_premint_v2''\<rparr>;
          names = premint_names config;
          config2 = (config_test_default port)\<lparr>cfg_supported_premint_types := ''zora_premint_v2''\<rparr>;
          names2 = premint_names config2
      in length names = 2 \<and> name_of (names ! 0) = ''simple'' \<and> name_of (names ! 1) = ''zora_premint_v2'' \<and>
         length names2 = 1 \<and> name_of (names2 ! 0) = ''zora_premint_v2'')"

definition test_parse_bootnodes :: bool where
  "test_parse_bootnodes \<longleftrightarrow>
     boot_nodes_from_str ''chain'' = Ok BootChain \<and>
     boot_nodes_from_str ''/peer/123'' = Ok (BootCustom [''/peer/123'']) \<and>
     boot_nodes_from_str ''/peer/123,/peer/456'' = Ok (BootCustom [''/peer/123'', ''/peer/456''])"

definition test_get_chain_by_id :: bool where
  "test_get_chain_by_id \<longleftrightarrow> map_option ch_name (get_chain_by_id 7777777) = Some ''Zora''"

definition test_chain_connect_variable :: "ext \<Rightarrow> bool" where
  "test_chain_connect_variable x \<longleftrightarrow>
     fst (connect x Map.empty ''https://mainnet.infura.io/v3/${INFURA_API_KEY}'') =
       Err (Eyre ''URL contains variables'')"

section \<open>Tickers (\<open>src/multi_ticker.rs\<close>)\<close>

text \<open>
  A ticker as the test uses it, in milliseconds: it is due one interval after it was made, and an
  interval after the time it was due for. Blocking on the next item sleeps until a ticker is due.
\<close>

datatype ticker_id = TickerA | TickerB | TickerC

definition ticker_new :: "nat \<Rightarrow> nat \<times> nat" where
  "ticker_new interval = (interval, interval)"

definition ticker_poll :: "nat \<Rightarrow> nat \<times> nat \<Rightarrow> nat poll \<times> nat \<times> nat" where
  "ticker_poll now ticker =
     (case ticker of (due, interval) \<Rightarrow>
        if due \<le> now then (Ready (Some now), due + interval, interval) else (Pending, due, interval))"

definition wake_up :: "'k list \<Rightarrow> ('k, nat \<times> nat) multi_ticker \<Rightarrow> nat" where
  "wake_up order m = Min (set (map (\<lambda>k. fst (the (m k))) order))"

fun first_ticks :: "nat \<Rightarrow> 'k list \<Rightarrow> ('k, nat \<times> nat) multi_ticker \<Rightarrow> ('k \<times> nat) list" where
  "first_ticks 0 order m = []"
| "first_ticks (Suc n) order m =
     (case multi_poll (ticker_poll (wake_up order m)) False order m of
        (Ready (Some tick), m') \<Rightarrow> tick # first_ticks n order m'
      | _ \<Rightarrow> [])"

definition test_multi_ticker :: "ticker_id list \<Rightarrow> bool" where
  "test_multi_ticker order =
     (let tickers = multi_ticker_new [(TickerA, ticker_new 1000), (TickerB, ticker_new 2100), (TickerC, ticker_new 3200)]
      in map fst (first_ticks 5 order tickers) = [TickerA, TickerA, TickerB, TickerA, TickerC])"

section \<open>The model passes the tests\<close>

lemma fresh_engineE:
  assumes "fresh_engine en now" "cfg_persist_state cfg = False"
  obtains "storage_new en cfg = Returns \<lparr>st_db = \<lparr>db_rows = [], db_fault = None, db_clock = now,
    db_scan = (\<lambda>rs. rs)\<rparr>, st_prune_minted_premints = cfg_prune_minted_premints cfg\<rparr>"
  using assms by (auto simp: fresh_engine_def storage_new_def init_db_def expect_def)

lemma config_test_sel [simp]:
  "cfg_persist_state (config_test_default port) = False"
  "cfg_prune_minted_premints (config_test_default port) = False"
  "cfg_enable_rpc (config_test_default port) = True"
  by (simp_all add: config_test_default_def)

lemma stored_json:
  assumes "serde_ok x"
  obtains json where "to_json x p = Ok json" "from_json x json = Ok p"
  using json_round_trip [OF assms, of p] by blast

text \<open>The store of the tests, by the rows of its table.\<close>

definition test_store :: "row list \<Rightarrow> string \<Rightarrow> bool \<Rightarrow> premint_storage" where
  "test_store rs now prune = \<lparr>st_db = \<lparr>db_rows = rs, db_fault = None, db_clock = now, db_scan = (\<lambda>rs. rs)\<rparr>,
     st_prune_minted_premints = prune\<rparr>"

lemma test_store_new:
  assumes "fresh_engine en now" "cfg_persist_state cfg = False"
  shows "storage_new en cfg = Returns (test_store [] now (cfg_prune_minted_premints cfg))"
  using fresh_engineE [OF assms] by (simp add: test_store_def)

lemma test_store_sel [simp]:
  "db_rows (st_db (test_store rs now b)) = rs" "db_fault (st_db (test_store rs now b)) = None"
  "db_clock (st_db (test_store rs now b)) = now" "db_scan (st_db (test_store rs now b)) = (\<lambda>rs. rs)"
  "st_prune_minted_premints (test_store rs now b) = b"
  by (simp_all add: test_store_def)

lemma test_store_put:
  assumes "to_json x p = Ok json" "sql_upsert (premint_row x p json now) rs = (n, rs')"
  shows "store x (test_store rs now b) p =
    (if n = 0 then Err (Eyre ''Cannot store premint with lower version than existing'') else Ok (),
     test_store rs' now b)"
  using assms by (simp add: store_def db_execute_def test_store_def)

lemma test_store_mark:
  "mark_seen_on_chain x (test_store rs now b) claim =
    (Ok (), test_store (snd ((if b then sql_delete else sql_mark_seen)
      (claim_matches (cl_premint_id claim) (as_i64 (cl_chain_id claim)) (cl_kind claim)) rs)) now b)"
  by (simp add: mark_seen_on_chain_def db_execute_def test_store_def Let_def split_beta)

lemmas test_store_read = get_for_id_and_kind_def get_for_token_uri_def fetch_premint_def db_fetch_one_def
  db_fetch_all_def decode_row_def list_all_premints_def list_all_with_options_def get_one_def decode_rows_def
  map_filter_simps sql_count_def

lemma premint_row_columns [simp]:
  "r_id (premint_row x p json now) = md_id (metadata x p)"
  "r_kind (premint_row x p json now) = name_of (md_kind (metadata x p))"
  "r_token_uri (premint_row x p json now) = md_uri (metadata x p)"
  "r_chain_id (premint_row x p json now) = as_i64 (md_chain_id (metadata x p))"
  "r_collection_address (premint_row x p json now) = addr_checksum x (md_collection_address (metadata x p))"
  "\<not> r_seen_on_chain (premint_row x p json now)"
  "r_created_at (premint_row x p json now) = now"
  by (simp_all add: premint_row_def Let_def)

lemma insert_and_get_passes:
  assumes "serde_ok x" "fresh_engine en now"
  shows "test_insert_and_get x en port"
proof -
  obtain json where j: "to_json x (ZoraV2 v2_default) = Ok json" "from_json x json = Ok (ZoraV2 v2_default)"
    by (rule stored_json [OF assms(1)])
  show ?thesis
    unfolding test_insert_and_get_def with_store_def
      test_store_new [OF assms(2) config_test_sel(1)]
    by (simp add: test_store_put [OF j(1)] test_store_read j del: metadata.simps)
qed

lemma update_passes:
  assumes "serde_ok x" "fresh_engine en now"
  shows "test_update x en port"
proof -
  let ?newer = "v2_default\<lparr>zp_premint := (zp_premint v2_default)\<lparr>ca_version := 2\<rparr>\<rparr>"
  obtain json json' where j: "to_json x (ZoraV2 v2_default) = Ok json" "to_json x (ZoraV2 ?newer) = Ok json'"
    "from_json x json' = Ok (ZoraV2 ?newer)"
    by (metis stored_json [OF assms(1)])
  have k: "premint_key x (ZoraV2 ?newer) = premint_key x (ZoraV2 v2_default)"
    "version_of x (ZoraV2 v2_default) = 0" "version_of x (ZoraV2 ?newer) = 2"
    by (simp_all add: premint_key_def version_of_def zora_metadata_def default_defs as_i64_def u32_as_u64_def)
  then have m: "md_id (metadata x (ZoraV2 ?newer)) = md_id (metadata x (ZoraV2 v2_default))"
    "md_kind (metadata x (ZoraV2 ?newer)) = md_kind (metadata x (ZoraV2 v2_default))"
    by (auto simp: premint_key_def zora_metadata_def)
  show ?thesis
    unfolding test_update_def with_store_def test_store_new [OF assms(2) config_test_sel(1)]
    by (simp add: test_store_put [OF j(1)] test_store_put [OF j(2)] test_store_read j k m del: metadata.simps)
qed

text \<open>The two premints of the other tests, as rows.\<close>

lemma two_premints_passes:
  assumes "serde_ok x"
    and "\<And>j k. from_json x j = Ok (ZoraV2 v2_default) \<Longrightarrow> from_json x k = Ok (Simple simple_premint_default) \<Longrightarrow>
      test (ZoraV2 v2_default) (Simple simple_premint_default)
        (test_store [premint_row x (ZoraV2 v2_default) j now, premint_row x (Simple simple_premint_default) k now] now b)"
  shows "two_premints x (test_store [] now b) test"
proof -
  obtain j where j: "to_json x (ZoraV2 v2_default) = Ok j" "from_json x j = Ok (ZoraV2 v2_default)"
    by (rule stored_json [OF assms(1)])
  obtain k where k: "to_json x (Simple simple_premint_default) = Ok k"
    "from_json x k = Ok (Simple simple_premint_default)" by (rule stored_json [OF assms(1)])
  have "premint_key x (ZoraV2 v2_default) \<noteq> premint_key x (Simple simple_premint_default)"
    by (simp add: premint_key_def zora_metadata_def simple_metadata_def ns_v2_def)
  with assms(2) [OF j(2) k(2)] show ?thesis
    by (simp add: two_premints_def test_store_put [OF j(1)] test_store_put [OF k(1)] del: metadata.simps)
qed

lemma default_columns [simp]:
  "md_kind (metadata x (ZoraV2 v2_default)) = PremintName ''zora_premint_v2''"
  "md_chain_id (metadata x (ZoraV2 v2_default)) = 0"
  "md_collection_address (metadata x (ZoraV2 v2_default)) = 0"
  "md_kind (metadata x (Simple simple_premint_default)) = PremintName ''simple''"
  "md_chain_id (metadata x (Simple simple_premint_default)) = 0"
  by (simp_all add: zora_metadata_def simple_metadata_def ns_v2_def default_defs)

lemma list_all_passes:
  assumes "serde_ok x" "fresh_engine en now"
  shows "test_list_all x en port"
  unfolding test_list_all_def with_store_def test_store_new [OF assms(2) config_test_sel(1)] outcome.case
  by (rule two_premints_passes [OF assms(1)]) (simp add: test_store_read del: metadata.simps)

lemmas query_run = build_query_def push_cond_def query_selects_def query_options_default_def Let_def

lemma list_all_with_options_passes:
  assumes "serde_ok x" "fresh_engine en now" "time_text x (utc_now - 10) \<le> now" "now \<le> time_text x utc_now"
  shows "test_list_all_with_options x en port utc_now"
  unfolding test_list_all_with_options_def with_store_def test_store_new [OF assms(2) config_test_sel(1)]
    outcome.case
  by (rule two_premints_passes [OF assms(1)])
    (simp add: test_store_read query_run assms(3,4) del: metadata.simps)

lemma get_one_passes:
  assumes "serde_ok x" "fresh_engine en now" "now \<le> time_text x utc_now"
  shows "test_get_one x en port utc_now"
  unfolding test_get_one_def with_store_def test_store_new [OF assms(2) config_test_sel(1)] outcome.case
  by (rule two_premints_passes [OF assms(1)])
    (simp add: test_store_read query_run assms(3) del: metadata.simps)

lemma marked_beside_simple_passes:
  assumes "serde_ok x"
    and "\<And>j k. from_json x k = Ok (Simple simple_premint_default) \<Longrightarrow>
      test (test_store (snd ((if b then sql_delete else sql_mark_seen)
        (claim_matches (md_id (metadata x (ZoraV2 minted_premint))) 7777777 ''zora_premint_v2'')
        [premint_row x (ZoraV2 minted_premint) j now, premint_row x (Simple simple_premint_default) k now])) now b)"
  shows "marked_beside_simple x (test_store [] now b) test"
proof -
  obtain j where j: "to_json x (ZoraV2 minted_premint) = Ok j" "from_json x j = Ok (ZoraV2 minted_premint)"
    by (rule stored_json [OF assms(1)])
  obtain k where k: "to_json x (Simple simple_premint_default) = Ok k"
    "from_json x k = Ok (Simple simple_premint_default)" by (rule stored_json [OF assms(1)])
  have "premint_key x (ZoraV2 minted_premint) \<noteq> premint_key x (Simple simple_premint_default)"
    by (simp add: premint_key_def zora_metadata_def simple_metadata_def ns_v2_def)
  moreover have "as_i64 7777777 = 7777777" by (simp add: as_i64_def)
  ultimately show ?thesis using assms(2) [OF k(2), of j]
    by (simp add: marked_beside_simple_def test_store_put [OF j(1)] test_store_put [OF k(1)] j(2) k(2)
        test_store_read test_store_mark minted_claim_def del: metadata.simps)
qed

lemma minted_columns [simp]:
  "md_kind (metadata x (ZoraV2 minted_premint)) = PremintName ''zora_premint_v2''"
  "md_chain_id (metadata x (ZoraV2 minted_premint)) = 7777777"
  "as_i64 7777777 = 7777777"
  by (simp_all add: zora_metadata_def ns_v2_def minted_premint_def default_defs as_i64_def)

lemma marking_passes:
  assumes "serde_ok x" "fresh_engine en now"
  shows "test_mark_seen_on_chain x en port" "test_prune_false_keeps_seen_premints x en port"
proof -
  have p: "cfg_persist_state ((config_test_default port)\<lparr>cfg_prune_minted_premints := v\<rparr>) = False" for v by simp
  show "test_mark_seen_on_chain x en port"
    unfolding test_mark_seen_on_chain_def with_store_def test_store_new [OF assms(2) p] outcome.case
    by (rule marked_beside_simple_passes [OF assms(1)])
      (simp add: test_store_read sql_delete_def claim_matches_def del: metadata.simps)
  show "test_prune_false_keeps_seen_premints x en port"
    unfolding test_prune_false_keeps_seen_premints_def with_store_def test_store_new [OF assms(2) p] outcome.case
    by (rule marked_beside_simple_passes [OF assms(1)])
      (simp add: test_store_read sql_mark_seen_def claim_matches_def del: metadata.simps)
qed

lemma rules_pass:
  assumes "serde_ok x" "fresh_engine en now"
  shows "test_simple_rule en port" "test_simple_rules_engine x en port" "test_typed_rules_engine x en port"
proof -
  have none: "lookup_existing x (storage_reader x) p (test_store [] now b) = Ok None" for p b
    by (simp add: lookup_existing_def storage_reader_def test_store_read Let_def)
  have clone: "storage_clone (test_store [] now b) = test_store [] now False" for b
    by (simp add: storage_clone_def test_store_def)
  show "test_simple_rule en port"
    by (simp add: test_simple_rule_def with_store_def test_store_new [OF assms(2)] plain_rule_def simple_rule_def)
  show "test_simple_rules_engine x en port"
    by (simp add: test_simple_rules_engine_def with_store_def test_store_new [OF assms(2)] evaluate_def clone none
        run_rules_def rules_engine_new_def add_rule_def rules_rpc_off check_rule_def plain_rule_def simple_rule_def
        conditional_rule_def is_accept_iff Let_def del: metadata.simps)
  show "test_typed_rules_engine x en port"
    by (simp add: test_typed_rules_engine_def with_store_def test_store_new [OF assms(2)] evaluate_def none
        run_rules_def rules_engine_new_def add_rule_def rules_rpc_off check_rule_def typed_rule_def
        simple_typed_rule_def is_accept_iff Let_def del: metadata.simps)
qed

text \<open>The two premints of the test of the token URI have identifiers of their own.\<close>

lemma token_uri_exists_rule_passes:
  assumes "addr_text_ok x" "serde_ok x" "fresh_engine en now"
  shows "test_token_uri_exists_rule x en port"
proof -
  let ?p = "Simple simple_premint_default"
  obtain j where j: "to_json x ?p = Ok j" "from_json x j = Ok ?p" by (rule stored_json [OF assms(2)])
  have "md_id (metadata x ?p) \<noteq> md_id (metadata x (Simple (simple_premint_new 1 0 0 10 u)))" for u
    by (simp add: simple_metadata_def simple_premint_new_def default_defs append_sep_inject)
  moreover have "md_uri (metadata x (Simple (simple_premint_new 1 0 0 10 u))) = u" for u
    by (simp add: simple_metadata_def simple_premint_new_def)
  ultimately show ?thesis
    by (simp add: test_token_uri_exists_rule_def with_store_def test_store_new [OF assms(3)] existing_token_uri_def
        storage_reader_def context_test_default_def test_store_read test_store_put [OF j(1)] j(2) Let_def
        del: metadata.simps)
qed

lemma serde_passes:
  assumes "serde_ok x"
  shows "test_premint_serde x"
proof -
  have "case to_json x p of Inl e \<Rightarrow> False | Inr json \<Rightarrow> is_ok (from_json x json)" for p
    using json_round_trip [OF assms, of p] by auto
  then show ?thesis by (simp add: test_premint_serde_def)
qed

text \<open>What the library decodes the log of the tests to, and how it writes the contract.\<close>

definition decodes_log :: "ext \<Rightarrow> bool" where
  "decodes_log x \<longleftrightarrow>
     decode_event_v2 x (log_topics premint_log) (log_data premint_log) =
       Ok \<lparr>ev_contractAddress = 0x65aae9d752ecac4965015664d0a6d0951e28d757, ev_uid = 1\<rparr> \<and>
     addr_debug x 0x65aae9d752ecac4965015664d0a6d0951e28d757 = ''0x65aae9d752ecac4965015664d0a6d0951e28d757''"

lemma claims_pass:
  assumes "decodes_log x"
  shows "test_map_premintv2_claim x" "test_verify_premintv2_claim x"
proof -
  have "show_u64 7777777 = ''7777777''" "show_u32 1 = ''1''"
    by (simp_all add: show_u64_def show_u32_def dec_digits.simps digit_char_def)
  then show m: "test_map_premintv2_claim x"
    using assms by (simp add: test_map_premintv2_claim_def zora_map_claim_def ns_v2_def decodes_log_def event_to_guid_def
        guid_def expected_claim_def premint_log_def)
  have log: "log_address premint_log = PREMINT_FACTORY_ADDR" "log_transaction_hash premint_log =
      Some 0xb28c6c91fc5c79490c0bf2e8b26ec7ea5ca66065e14436bf5798a9feaad6e617"
    by (simp_all add: premint_log_def)
  have claim: "zora_map_claim ns_v2 x 7777777 premint_log = Ok expected_claim"
    using m by (simp add: test_map_premintv2_claim_def)
  have ns: "ns_decode ns_v2 x = decode_event_v2 x" by (simp add: ns_v2_def)
  from assms show "test_verify_premintv2_claim x"
    by (simp add: test_verify_premintv2_claim_def decodes_log_def claim v2.check_iff [OF claim] Let_def
        zora_mint_of_def log ns)
qed

lemma config_passes:
  assumes "env_var x = Map.empty"
  shows "test_init x" "test_premint_names port" test_parse_bootnodes
proof -
  have env: "[''SECRET'' \<mapsto> ''0x01''] = env_of None" by (auto simp: env_of_def fun_eq_iff)
  show "test_init x"
    using env_of_init [of "x\<lparr>env_var := (env_var x)(''SECRET'' \<mapsto> ''0x01'')\<rparr>" None Verify]
    by (auto simp: test_init_def env mode_from_str_def to_lowercase_def lower_char_def assms)
qed (simp_all add: test_premint_names_def premint_names_def test_parse_bootnodes_def boot_nodes_from_str_def
  to_lowercase_def lower_char_def Let_def)

lemma chain_list_passes: test_get_chain_by_id "test_chain_connect_variable x"
  by (simp_all add: test_get_chain_by_id_def get_chain_by_id_def CHAINS_JSON_def test_chain_connect_variable_def
      connect_def starts_with_def)

lemma letter_less [simp]:
  "[c] < [d] \<longleftrightarrow> (of_char c :: nat) < of_char d"
  by (simp add: less_char_def)

lemmas insert_run = insert_all_def tree_insert_def tree_insert_with_hash_def tree_new_def node_default_def
  node_insert.simps get_or_create_child_def binary_search_def search_between.simps insert_at_def place_value_def

lemma tree_leafs_passes: "test_tree_leafs ops"
  by (simp add: test_tree_leafs_def insert_run leafs_def tree_visit_def prefix_match_def)

text \<open>In whatever order the tickers are polled.\<close>

definition polls_each :: "ticker_id list \<Rightarrow> bool" where
  "polls_each order \<longleftrightarrow> distinct order \<and> set order = {TickerA, TickerB, TickerC}"

lemma polls_each_cases:
  assumes "polls_each order"
  shows "order \<in> {[TickerA, TickerB, TickerC], [TickerA, TickerC, TickerB], [TickerB, TickerA, TickerC],
    [TickerB, TickerC, TickerA], [TickerC, TickerA, TickerB], [TickerC, TickerB, TickerA]}"
proof -
  have "length order = 3" using assms distinct_card [of order] by (auto simp: polls_each_def)
  then obtain a b c where "order = [a, b, c]"
    by (auto simp: length_Suc_conv eval_nat_numeral)
  with assms show ?thesis by (cases a; cases b; cases c) (auto simp: polls_each_def)
qed

lemma five_ticks: "first_ticks 5 order m = first_ticks (Suc (Suc (Suc (Suc (Suc 0))))) order m"
  by (simp only: eval_nat_numeral BitM.simps)

lemma multi_ticker_passes: "polls_each order \<Longrightarrow> test_multi_ticker order"
  by (drule polls_each_cases)
    (auto simp: test_multi_ticker_def five_ticks multi_ticker_new_def ticker_new_def ticker_poll_def
      wake_up_def keyed_poll_def)

text \<open>The hasher tells the two sets apart along the path to their last leaf.\<close>

definition hasher_separates :: "string elem_ops \<Rightarrow> bool" where
  "hasher_separates ops \<longleftrightarrow>
     (let (set1, set2) = diff_sets ops; a1 = hd (nd_children (ts_root set1)); a2 = hd (nd_children (ts_root set2));
          b1 = hd (nd_children a1); b2 = hd (nd_children a2)
      in nd_hash a1 \<noteq> nd_hash a2 \<and> nd_hash b1 \<noteq> nd_hash b2 \<and>
         nd_hash (last (nd_children b1)) \<noteq> nd_hash (last (nd_children b2)))"

lemma tree_diff_passes: "hasher_separates ops \<Longrightarrow> test_tree_diff ops"
  by (simp add: hasher_separates_def test_tree_diff_def diff_sets_def insert_run tree_rehash_def update_hash.simps
      tree_diff_def Let_def)

end
