(* ===== verification/SyncTasks.thy ===== *)
theory SyncTasks
  imports ControllerProps
begin

text \<open>
  What the tasks of a sync response make of each premint, whatever schedule interleaves them: a
  task reads the stored premint at one of its turns, runs the rules at a later one and stores at
  a third, and other tasks store in between.
\<close>

section \<open>The run of a response\<close>

definition after_turns ::
  "ext \<Rightarrow> nat list \<Rightarrow> premint_types list \<Rightarrow> controller \<Rightarrow> nat \<Rightarrow> sync_task list \<times> controller" where
  "after_turns x turns ps c n = fold (advance x) (take n turns) (map Queued ps, c)"

abbreviation controller_at :: "ext \<Rightarrow> nat list \<Rightarrow> premint_types list \<Rightarrow> controller \<Rightarrow> nat \<Rightarrow> controller" where
  "controller_at x turns ps c n \<equiv> snd (after_turns x turns ps c n)"

lemma after_turns_Suc:
  "n < length turns \<Longrightarrow> after_turns x turns ps c (Suc n) = advance x (turns ! n) (after_turns x turns ps c n)"
  by (simp add: after_turns_def take_Suc_conv_app_nth)

lemma after_turns_0 [simp]: "after_turns x turns ps c 0 = (map Queued ps, c)"
  by (simp add: after_turns_def)

lemma after_turns_length [simp]: "length (fst (after_turns x turns ps c n)) = length ps"
  by (simp add: after_turns_def)

text \<open>The rules on a premint with what an earlier controller had stored for it, at a later one.\<close>

definition judged :: "ext \<Rightarrow> controller \<Rightarrow> controller \<Rightarrow> premint_types \<Rightarrow> results" where
  "judged x read now p =
     fst (run_rules x (ct_rules now x) (ct_chains now) p (storage_clone (ct_store now))
       (existing_in x (view x (ct_store read)) p))"

abbreviation task_at :: "ext \<Rightarrow> nat list \<Rightarrow> premint_types list \<Rightarrow> controller \<Rightarrow> nat \<Rightarrow> nat \<Rightarrow> sync_task" where
  "task_at x turns ps c n i \<equiv> fst (after_turns x turns ps c n) ! i"

text \<open>At turn \<open>j\<close> the task that waited for its permit read what the store has for its premint.\<close>

definition reads_at :: "ext \<Rightarrow> nat list \<Rightarrow> premint_types list \<Rightarrow> controller \<Rightarrow> nat \<Rightarrow> nat \<Rightarrow> bool" where
  "reads_at x turns ps c i j \<longleftrightarrow> task_at x turns ps c j i = Queued (ps ! i) \<and>
     task_at x turns ps c (Suc j) i =
       Found (ps ! i) (Ok (existing_in x (view x (ct_store (controller_at x turns ps c j))) (ps ! i)))"

text \<open>The task that read at turn \<open>j\<close> ran the rules at the later turn \<open>k\<close>.\<close>

definition judges_at :: "ext \<Rightarrow> nat list \<Rightarrow> premint_types list \<Rightarrow> controller \<Rightarrow> nat \<Rightarrow> nat \<Rightarrow> nat \<Rightarrow> bool" where
  "judges_at x turns ps c i j k \<longleftrightarrow> reads_at x turns ps c i j \<and> j < k \<and>
     (\<exists>r. task_at x turns ps c k i = Found (ps ! i) r) \<and>
     task_at x turns ps c (Suc k) i =
       Evaluated (ps ! i) (judged x (controller_at x turns ps c j) (controller_at x turns ps c k) (ps ! i))"

text \<open>The rules did not accept when the task ran them.\<close>

definition refused_in_turn :: "ext \<Rightarrow> nat list \<Rightarrow> premint_types list \<Rightarrow> controller \<Rightarrow> nat \<Rightarrow> bool" where
  "refused_in_turn x turns ps c i \<longleftrightarrow>
     (\<exists>j k. k < length turns \<and> judges_at x turns ps c i j k \<and>
        \<not> is_accept (judged x (controller_at x turns ps c j) (controller_at x turns ps c k) (ps ! i)))"

definition has_version :: "ext \<Rightarrow> controller \<Rightarrow> premint_types \<Rightarrow> bool" where
  "has_version x c p \<longleftrightarrow>
     (\<exists>e. view x (ct_store c) (premint_key x p) = Some e \<and> version_of x p \<le> version_of x (en_premint e))"

section \<open>One turn\<close>

definition working_store :: "ext \<Rightarrow> controller \<Rightarrow> bool" where
  "working_store x c \<longleftrightarrow> good_store x (ct_store c) \<and> db_up (ct_store c)"

lemma advance_store:
  "ct_store (snd (advance_task x w t c)) = ct_store c \<or>
   (\<exists>p. ct_store (snd (advance_task x w t c)) = snd (store x (ct_store c) p))"
  by (cases "(x, w, t, c)" rule: advance_task.cases) (auto split: prod.split)

lemma advance_working:
  assumes "working_store x c"
  shows "working_store x (snd (advance_task x w t c))"
    and "has_version x c p \<Longrightarrow> has_version x (snd (advance_task x w t c)) p"
proof -
  have g: "good_store x (ct_store c)" "db_up (ct_store c)" using assms by (simp_all add: working_store_def)
  show "working_store x (snd (advance_task x w t c))"
    using advance_store [of x w t c] g db.put_good db.put_up by (auto simp: working_store_def)
  show "has_version x (snd (advance_task x w t c)) p" if "has_version x c p"
  proof -
    obtain e where e: "view x (ct_store c) (premint_key x p) = Some e" "version_of x p \<le> version_of x (en_premint e)"
      using \<open>has_version x c p\<close> by (auto simp: has_version_def)
    from advance_store [of x w t c] show ?thesis
    proof (elim disjE exE)
      fix q assume q: "ct_store (snd (advance_task x w t c)) = snd (store x (ct_store c) q)"
      obtain e' where "view x (snd (store x (ct_store c) q)) (premint_key x p) = Some e'"
        "version_of x (en_premint e) \<le> version_of x (en_premint e')"
        using db.put_mono [OF g(1) e(1), of q] by blast
      with e(2) q show ?thesis by (auto simp: has_version_def)
    qed (use that in \<open>simp add: has_version_def\<close>)
  qed
qed

lemma stored_has_version:
  assumes "working_store x c" "ct_store d = snd (store x (ct_store c) p)"
  shows "has_version x d p"
proof -
  have "view x (snd (store x (ct_store c) p)) =
      (if spec_accepts x (view x (ct_store c)) p then spec_put x p (view x (ct_store c)) else view x (ct_store c))"
    using assms(1) by (intro store_view) (simp_all add: good_store_def working_store_def)
  then show ?thesis
    by (auto simp: has_version_def assms(2) spec_accepts_def spec_put_def split: option.splits)
qed

section \<open>What a task knows\<close>

text \<open>
  How far the task of the premint has come after \<open>n\<close> turns, and what it found out at which of
  them.
\<close>

fun task_sound :: "ext \<Rightarrow> nat list \<Rightarrow> premint_types list \<Rightarrow> controller \<Rightarrow> nat \<Rightarrow> nat \<Rightarrow> sync_task \<Rightarrow> bool" where
  "task_sound x turns ps c n i (Queued p) \<longleftrightarrow> p = ps ! i"
| "task_sound x turns ps c n i (Found p r) \<longleftrightarrow> p = ps ! i \<and>
     (\<exists>j<n. reads_at x turns ps c i j \<and> r = Ok (existing_in x (view x (ct_store (controller_at x turns ps c j))) p))"
| "task_sound x turns ps c n i (Evaluated p rs) \<longleftrightarrow> p = ps ! i \<and>
     (\<exists>j k. k < n \<and> judges_at x turns ps c i j k \<and>
        rs = judged x (controller_at x turns ps c j) (controller_at x turns ps c k) p)"
| "task_sound x turns ps c n i Finished \<longleftrightarrow>
     has_version x (controller_at x turns ps c n) (ps ! i) \<or>
     (\<exists>j k. k < n \<and> judges_at x turns ps c i j k \<and>
        \<not> is_accept (judged x (controller_at x turns ps c j) (controller_at x turns ps c k) (ps ! i)))"

lemma task_sound_later:
  assumes "task_sound x turns ps c n i t"
    "\<And>p. has_version x (controller_at x turns ps c n) p \<Longrightarrow> has_version x (controller_at x turns ps c (Suc n)) p"
  shows "task_sound x turns ps c (Suc n) i t"
proof (cases t)
  case (Queued p)
  show ?thesis using assms(1) unfolding Queued task_sound.simps .
next
  case (Found p r)
  show ?thesis using assms(1) less_SucI unfolding Found task_sound.simps by blast
next
  case (Evaluated p rs)
  show ?thesis using assms(1) less_SucI unfolding Evaluated task_sound.simps by blast
next
  case Finished
  show ?thesis using assms less_SucI unfolding Finished task_sound.simps by blast
qed

lemma task_sound_turn:
  fixes x :: ext and turns :: "nat list" and ps :: "premint_types list" and c :: controller and n i w :: nat
  defines "t \<equiv> task_at x turns ps c n i" and "e \<equiv> controller_at x turns ps c n"
  assumes "working_store x e" "task_sound x turns ps c n i t"
    and d: "controller_at x turns ps c (Suc n) = snd (advance_task x w t e)"
    and u: "task_at x turns ps c (Suc n) i = fst (advance_task x w t e)"
  shows "task_sound x turns ps c (Suc n) i (task_at x turns ps c (Suc n) i)"
proof -
  have g: "good_store x (ct_store e)" "db_up (ct_store e)" using assms(3) by (simp_all add: working_store_def)
  have mono: "has_version x e p \<Longrightarrow> has_version x (controller_at x turns ps c (Suc n)) p" for p
    unfolding d by (rule advance_working(2) [OF assms(3)])
  note later = task_sound_later [OF assms(4), OF mono [unfolded e_def]]
  show ?thesis
  proof (cases t)
    case (Queued p)
    have p: "p = ps ! i" using assms(4) unfolding Queued task_sound.simps .
    show ?thesis
    proof (cases "w < 10")
      case True
      then have f: "task_at x turns ps c (Suc n) i = Found p (Ok (existing_in x (view x (ct_store e)) p))"
        unfolding u Queued advance_task.simps lookup_clone [OF g] by simp
      moreover have "reads_at x turns ps c i n"
        using Queued f unfolding reads_at_def p t_def e_def by blast
      ultimately show ?thesis unfolding f task_sound.simps using p
        by (intro conjI exI [of _ n]) (simp_all add: e_def)
    next
      case False
      then have "task_at x turns ps c (Suc n) i = t" unfolding u Queued by simp
      with later show ?thesis by simp
    qed
  next
    case (Found p r)
    have "task_sound x turns ps c n i (Found p r)" using assms(4) unfolding Found .
    then obtain j where j: "j < n" "reads_at x turns ps c i j"
      "r = Ok (existing_in x (view x (ct_store (controller_at x turns ps c j))) p)" "p = ps ! i"
      unfolding task_sound.simps by blast
    have f: "task_at x turns ps c (Suc n) i = Evaluated p (judged x (controller_at x turns ps c j) e p)"
      unfolding u Found j(3) by (simp add: judged_def split: prod.split)
    then have "judges_at x turns ps c i j n"
      using j(1,2) Found unfolding judges_at_def j(4) t_def e_def by blast
    with j(4) show ?thesis unfolding f task_sound.simps e_def by blast
  next
    case (Evaluated p rs)
    have "task_sound x turns ps c n i (Evaluated p rs)" using assms(4) unfolding Evaluated .
    then obtain j k where k: "k < n" "judges_at x turns ps c i j k"
      "rs = judged x (controller_at x turns ps c j) (controller_at x turns ps c k) p" "p = ps ! i"
      unfolding task_sound.simps by blast
    have f: "task_at x turns ps c (Suc n) i = Finished" unfolding u Evaluated by simp
    show ?thesis
    proof (cases "is_accept rs")
      case True
      then have "ct_store (controller_at x turns ps c (Suc n)) = snd (store x (ct_store e) p)"
        unfolding d Evaluated by simp
      then have "has_version x (controller_at x turns ps c (Suc n)) (ps ! i)"
        unfolding k(4) [symmetric] by (rule stored_has_version [OF assms(3)])
      then show ?thesis unfolding f task_sound.simps by (rule disjI1)
    next
      case False
      then have "\<not> is_accept (judged x (controller_at x turns ps c j) (controller_at x turns ps c k) (ps ! i))"
        unfolding k(3) k(4) [symmetric] .
      with k(2) less_SucI [OF k(1)] show ?thesis unfolding f task_sound.simps
        by (intro disjI2 exI [of _ j] exI [of _ k] conjI)
    qed
  next
    case Finished
    have "task_at x turns ps c (Suc n) i = t" unfolding u Finished by simp
    with later show ?thesis by simp
  qed
qed

lemma tasks_sound:
  assumes "working_store x c"
  shows "n \<le> length turns \<Longrightarrow> working_store x (controller_at x turns ps c n) \<and>
    (\<forall>i<length ps. task_sound x turns ps c n i (fst (after_turns x turns ps c n) ! i))"
proof (induction n)
  case (Suc n)
  let ?st = "after_turns x turns ps c n" and ?i = "turns ! n"
  have n: "n < length turns" using Suc.prems by simp
  have IH: "working_store x (snd ?st)" "task_sound x turns ps c n i (fst ?st ! i)" if "i < length ps" for i
    using Suc that by simp_all
  have IH1: "working_store x (snd ?st)" using Suc by simp
  note step = after_turns_Suc [OF n, of x ps c]
  show ?case
  proof (cases "?i < length ps")
    case False
    then have same: "after_turns x turns ps c (Suc n) = ?st"
      by (cases ?st) (simp add: step advance_def, metis after_turns_length fst_conv)
    have "task_sound x turns ps c (Suc n) i (fst ?st ! i)" if "i < length ps" for i
      by (rule task_sound_later [OF IH(2) [OF that]]) (simp add: same)
    with IH1 same show ?thesis by simp
  next
    case True
    let ?w = "length (filter holds_permit (fst ?st))"
    have d: "snd (after_turns x turns ps c (Suc n)) = snd (advance_task x ?w (fst ?st ! ?i) (snd ?st))"
      using True advance_simps(1) [of x ?i "fst ?st" "snd ?st"] by (simp add: step)
    have t: "fst (after_turns x turns ps c (Suc n)) ! ?i = fst (advance_task x ?w (fst ?st ! ?i) (snd ?st))"
      using True by (simp add: step advance_at)
    have "working_store x (snd (after_turns x turns ps c (Suc n)))"
      unfolding d by (rule advance_working(1) [OF IH1])
    moreover have "task_sound x turns ps c (Suc n) i (fst (after_turns x turns ps c (Suc n)) ! i)" if "i < length ps" for i
    proof (cases "i = ?i")
      case True
      show ?thesis unfolding True
        by (rule task_sound_turn [OF IH1 IH(2) d t]) (use that True in simp)
    next
      case False
      have "has_version x (snd ?st) p \<Longrightarrow> has_version x (snd (after_turns x turns ps c (Suc n))) p" for p
        unfolding d by (rule advance_working(2) [OF IH1])
      from task_sound_later [OF IH(2) [OF that] this] False show ?thesis by (simp add: step advance_other)
    qed
    ultimately show ?thesis by blast
  qed
qed (simp add: assms)

text \<open>Every premint of a response ends up in the store in at least its version, or was refused.\<close>

lemma response_stored_or_refused:
  assumes "good_store x (ct_store c)" "db_up (ct_store c)" "i < length ps"
  shows "has_version x (snd (run_sync x schedule ps c)) (ps ! i) \<or>
    refused_in_turn x (schedule @ remaining_turns (length ps)) ps c i"
proof -
  let ?turns = "schedule @ remaining_turns (length ps)"
  have r: "run_sync x schedule ps c = after_turns x ?turns ps c (length ?turns)"
    by (simp add: run_sync_def after_turns_def)
  have "task_sound x ?turns ps c (length ?turns) i (fst (run_sync x schedule ps c) ! i)"
    unfolding r using assms tasks_sound [of x c "length ?turns" ?turns ps] by (simp add: working_store_def)
  then have "task_sound x ?turns ps c (length ?turns) i Finished"
    by (simp only: each_task_finishes [OF assms(3)])
  then show ?thesis unfolding task_sound.simps refused_in_turn_def r by blast
qed

text \<open>A response of one premint has one task, which judges it as the controller was before.\<close>

lemma lone_task_judges:
  assumes "refused_in_turn x (remaining_turns 1) [p] c 0"
  shows "\<not> is_accept (judged x c c p)"
proof -
  define turns where "turns = remaining_turns 1"
  have l: "length turns = 6" "\<And>n. n < 6 \<Longrightarrow> turns ! n = 0"
    by (simp_all add: turns_def remaining_turns_def nth_Cons' Let_def)
  have one: "after_turns x turns [p] c (Suc 0) =
      ([Found p (lookup_existing x (storage_reader x) p (storage_clone (ct_store c)))], c)"
    by (simp add: after_turns_Suc l advance_def)
  have step: "task_at x turns [p] c (Suc n) 0 = fst (advance_task x w (task_at x turns [p] c n 0) (controller_at x turns [p] c n))"
    if "n < 6" "w = length (filter holds_permit (fst (after_turns x turns [p] c n)))" for n w
    using that by (simp add: after_turns_Suc l advance_at)
  have past: "n \<le> 4 \<Longrightarrow> \<exists>q rs. task_at x turns [p] c (Suc (Suc n)) 0 \<in> {Evaluated q rs, Finished}" for n
  proof (induction n)
    case 0
    show ?case using step [of "Suc 0", OF _ refl]
      by (cases "lookup_existing x (storage_reader x) p (storage_clone (ct_store c))") (auto simp: one split: prod.split)
  next
    case (Suc n)
    then obtain q rs where "task_at x turns [p] c (Suc (Suc n)) 0 \<in> {Evaluated q rs, Finished}" by auto
    with step [of "Suc (Suc n)", OF _ refl] Suc.prems show ?case by (auto split: if_splits)
  qed
  obtain j k where jk: "k < 6" "judges_at x turns [p] c 0 j k"
    "\<not> is_accept (judged x (controller_at x turns [p] c j) (controller_at x turns [p] c k) p)"
    using assms unfolding refused_in_turn_def turns_def [symmetric] l by auto
  have "k = Suc 0"
  proof (rule ccontr)
    assume "k \<noteq> Suc 0"
    moreover have "j < k" using jk(2) by (simp add: judges_at_def)
    ultimately have "k = Suc (Suc (k - 2))" by simp
    then obtain n where n: "k = Suc (Suc n)" by blast
    then show False using past [of n] jk(1,2) by (auto simp: judges_at_def)
  qed
  moreover from this jk(2) have "j = 0" by (simp add: judges_at_def)
  ultimately show ?thesis using jk(3) by (simp add: one)
qed

end
