(* ===== verification/Spec2Isabelle.thy ===== *)
theory Spec2Isabelle
  imports Delivery Evidence ExamplesProps UnitTests Ticker SyncTasks
begin

text \<open>
  A model of mintpool (\<open>src/src\<close>): a peer to peer node that collects premints, signed offers of
  creators to have a token minted, checks them by rules, stores them in SQLite, passes them on
  over gossip, and forgets them when they are minted on chain.

  The parts and how they meet. The controller task (\<open>controller.rs\<close>) is the hub: commands reach
  it from the HTTP API, the console, the chain watchers and its own ticker, events from the
  swarm task (\<open>p2p.rs\<close>), which owns the libp2p swarm. The controller evaluates the rules engine
  (\<open>rules.rs\<close>) over the store (\<open>storage.rs\<close>), which rules read through a trait, and sends commands
  to the swarm. Rules and claims about mints go to the chain (\<open>chain.rs\<close>) by the connections of
  \<open>chain_list.rs\<close>. \<open>run.rs\<close> wires the tasks together. The tree of \<open>sync.rs\<close> compares the premints of
  two nodes; the node does not use it yet.

  Theories, in the order of the code they model:
  \<^item> \<open>Prelude\<close>: results, outcomes (\<open>Panic\<close>), machine words, strings; \<open>Utf8\<close>: lossy decoding.
  \<^item> \<open>Data\<close>, \<open>External\<close>, \<open>Premint\<close>: \<open>types.rs\<close> and \<open>premints/zora_premint\<close>. What the macros expand for
    V2 and ERC20V1 is modelled once, over a namespace record (\<open>ns_v2\<close>, \<open>ns_erc20v1\<close>).
  \<^item> \<open>Storage\<close>: the table as a list of rows and the SQL statements as functions on it;
    \<open>StorageSpec\<close>, \<open>StoreContract\<close>, \<open>StoreProps\<close>: the store as a map from kind and identifier to entries,
    the locales \<open>reader_contract\<close> and \<open>writer_contract\<close> that the rules engine and the controller
    rely on, with their interpretation on \<open>PremintStorage\<close>, and the properties of the store.
  \<^item> \<open>ChainList\<close>, \<open>Config\<close>, \<open>Chain\<close>: \<open>chain_list.rs\<close>, \<open>config.rs\<close>, \<open>chain.rs\<close>.
  \<^item> \<open>Rules\<close>, \<open>ZoraRules\<close>: the engine and general rules, the rules of the Zora premints.
  \<^item> \<open>Controller\<close>, \<open>ControllerProps\<close>, \<open>ControllerRuns\<close>: \<open>controller.rs\<close>, its properties, their witnesses;
    \<open>SyncTasks\<close>: what the interleaved tasks of a sync response make of each premint.
  \<^item> \<open>P2P\<close>, \<open>P2PProps\<close>, \<open>P2PRuns\<close>: \<open>p2p.rs\<close> and \<open>multiaddr_ext.rs\<close> in the same way.
  \<^item> \<open>Api\<close>: \<open>api\<close>, \<open>stdin.rs\<close> and the controller's interface; \<open>Run\<close>: \<open>run.rs\<close> and \<open>main.rs\<close>.
  \<^item> \<open>System\<close>, \<open>SystemProps\<close>, \<open>SystemRuns\<close>: the two tasks of a node joined by bounded channels;
    \<open>Progress\<close>: what such a node can still do from a state it is in; \<open>Writes\<close> and \<open>Evidence\<close>: what the
    store of a running node may have come from, and why a premint of it is taken for minted.
  \<^item> \<open>Network\<close>: any number of such nodes that pass on what one of them published or sent;
    \<open>Delivery\<close>: such nodes when gossip goes only to subscribers, from neighbour to neighbour and once
    for each message id, and how an accepted premint comes to all of them.
  \<^item> \<open>SyncTree\<close>, \<open>SyncTreeProps\<close>: \<open>sync.rs\<close>; \<open>Ticker\<close>: \<open>multi_ticker.rs\<close>.
  \<^item> \<open>Examples\<close>, \<open>ExamplesProps\<close>: the three programs under \<open>src/examples\<close>; \<open>UnitTests\<close>: unit tests of the
    modules, as statements about the definitions above.
  \<^item> This theory: the properties that span components and nodes. \<open>Samples\<close> holds a concrete world
    in which the hypotheses hold; the witnesses are evaluated there.

  Conventions. A struct is a record, an enum a datatype, \<open>u64\<close> and its like are words, which
  wrap; \<open>Result\<close> is a sum with \<open>Err\<close> for \<open>Inl\<close> and \<open>Ok\<close> for \<open>Inr\<close>, and code that can panic returns an
  \<open>outcome\<close>. A handler takes and returns the state of its component. Third party code is an
  argument: \<open>ext\<close> (alloy, serde, chrono, the RPC provider, the process environment), \<open>net\<close> (libp2p,
  multiaddr, the digest of message ids), \<open>web\<close>, \<open>engine\<close> and \<open>keys\<close> (responses, SQLite, the key
  library). What a property needs of it is a named hypothesis: \<open>addr_text_ok\<close>, \<open>checksum_ok\<close>,
  \<open>serde_ok\<close>, \<open>json_text_ok\<close>, \<open>claim_wire_ok\<close>, \<open>connect_ok\<close>, \<open>scan_ok\<close>. SQLite is modelled as far as the
  statements use it; a connection may fail at any time and a result comes in any order.

  What the lemmas show. Of the store: the invariant of the table, the refinement of the map, and
  queries. Of the rules: what acceptance by the default rules guarantees, and where it does not.
  Of the controller: what one premint, one claim and one sync response do, over every
  interleaving of the tasks of a response, and an invariant of every run of the loop. Of the
  swarm task: which calls it makes over every run, and that what one node publishes another
  receives. Of a node: order and completeness of its channels, that the premints it
  publishes were submitted to it, accepted by its rules and held by its store, that sync requests
  are answered, when its tasks wait for each other and that they come to rest otherwise, and that
  it takes no premint for minted without evidence. Of two nodes: a mint seen by one is marked by
  the other if its transaction is the first of its block with logs, and a sync transfers what was
  stored and is not refused, whatever the order of its tasks. Of a network: every stored premint
  was submitted to some node whose rules accepted it and whose store held it, and an accepted
  premint can reach every subscriber that is linked up and has not seen its identifier. Of the
  tree: which paths an insertion adds, hashes kept on the way against hashes computed afterwards,
  and exactly what a comparison reports. Of the examples: that added rules only restrict, that the
  client's premint is accepted and posted, and what the bot does whatever the other rules say. Of
  the unit tests: for each of those modelled a lemma that the model passes it.

  Bounds. A sync response is run by a schedule of task turns, completed by \<open>remaining_turns\<close>: two
  rounds of three turns for each task, proved enough to finish whatever a schedule left. A chain
  watcher runs over a list of worlds, one for each turn of its endless loop. Loops of the tasks are
  step relations (\<open>controller_step\<close>, \<open>running\<close>, \<open>system_step\<close>) over runs of any length. The channels
  hold 1024 messages, as in \<open>run.rs\<close>. Arithmetic of \<open>request_sync\<close> wraps, as in a release build.

  Not modelled. Logging and metrics (\<open>metrics.rs\<close>), clocks (a tick may come at any time), the layers
  of the HTTP stack, and what the libraries make of the settings they are given. The
  rules of an evaluation run concurrently; they have no effects, and the model runs them in
  order. The reply to a broadcast is recorded with the controller's turn, though the code gives
  it after the command is in the channel. Of the unit tests, those that \<open>UnitTests\<close> lists, and the
  tests under \<open>src/tests\<close>, which start whole nodes.
  A network has no forgers: what a dishonest peer can do is only seen at one node, whose handlers
  take any message. Messages may be lost: that a premint reaches everyone is that it can, by a
  run of the network in which they are delivered. Gossipsub's mesh is a fixed relation of
  neighbours there, and its memory of message ids does not expire.
\<close>

section \<open>Mints\<close>

lemma controller_view:
  assumes "good_store x s" "get_for_id_and_kind x (st_db s) i (PremintName k) = Ok p"
  shows "premint_key x p = (k, i)"
  using db.get_key [OF assms(1)] assms(2) by (fastforce simp: storage_reader_def)

lemma claimed_chain:
  assumes "addr_text_ok x" "zora_map_claim ns_v2 x chain log = Ok claim" "zora_mint_of ns_v2 x p tx log"
    "premint_key x (ZoraV2 p) = (k, cl_premint_id claim)"
  shows "zp_chain_id p = cl_chain_id claim"
  using assms
  by (auto simp: zora_map_claim_def zora_mint_of_def premint_key_def zora_metadata_def event_to_guid_def
      guid_inject split: sum.splits)

lemma claim_event:
  assumes "cfg_chain_inclusion_mode (ct_config c) \<noteq> Trust"
    and "get_for_id_and_kind x (st_db (ct_store c)) (cl_premint_id (pc_claim pc))
      (PremintName (cl_kind (pc_claim pc))) = Ok q"
    and "inclusion_claim_correct x (ct_chains c) q (pc_claim pc) = (Returns res, cache)"
  shows "handle_event x schedule (EvMintSeenOnchain pc) c =
    (Returns (), if res = Ok True
       then c\<lparr>ct_chains := cache, ct_store := snd (mark_seen_on_chain x (ct_store c) (pc_claim pc))\<rparr>
       else c\<lparr>ct_chains := cache\<rparr>)"
  using assms
  by (cases "cfg_chain_inclusion_mode (ct_config c)"; cases res)
    (auto simp: handle_event_onchain_claim_def Let_def split_beta split: bool.split)

lemma sent_claim:
  assumes "handle_command x now (CcResolveOnchainMint claim) a = (r, a')" "ct_swarm_open a"
    "cfg_chain_inclusion_mode (ct_config a) = Check"
  shows "last (ct_swarm a') = ScSendOnchainMintFound claim"
  using assms by (auto simp: send_swarm_def Let_def)

text \<open>
  C5. A mint travels from the chain to the peers: when a node in mode \<open>check\<close> sees the log of a
  mint, its claim is published, reaches a peer that is configured for the type and holds the
  premint, and is checked there against the receipt of the transaction. What comes of it depends
  on the number \<open>base\<close> of logs that the block has before this transaction. If there is none, the
  claim passes and takes the premint out of what the peer lists, whatever the peer otherwise
  holds: the peer's store is exactly the one before with the claimed entry marked. If there are
  some, the peer does not confirm the mint and its store stays as it was.
\<close>

theorem mint_reaches_peers:
  assumes "zora_map_claim ns_v2 x chain (rc_logs tx ! k) = Ok claim" "k < length (rc_logs tx)"
    and "cfg_chain_inclusion_mode (ct_config a) = Check" "ct_swarm_open a"
    and "handle_command x now (CcResolveOnchainMint claim) a = (r, a')"
    and "claim_wire_ok net x"
    and "sc_calls (handle_swarm_command net x pick (last (ct_swarm a')) sa) = sc_calls sa @ [(Publish t d, v)]"
    and "sc_events_open sb" "PremintName ''zora_premint_v2'' \<in> set (sc_premint_names sb)"
    and "handle_swarm_event net x answer
      (SeGossipsub (GsMessage \<lparr>gm_topic = t, gm_data = d, gm_propagated_by = peer\<rparr>)) sb = sb'"
    and "good_store x (ct_store b)" "db_up (ct_store b)" "cfg_chain_inclusion_mode (ct_config b) \<noteq> Trust"
    and "get_for_id_and_kind x (st_db (ct_store b)) (cl_premint_id claim) (PremintName (cl_kind claim)) = Ok (ZoraV2 p)"
    and "get_rpc x (ct_chains b) chain = (Ok rpc, cache')" "receipt_of x rpc (cl_tx_hash claim) = Ok (Some tx)"
    and "\<forall>i<length (rc_logs tx). log_log_index (rc_logs tx ! i) = Some (base + of_nat i)" "length (rc_logs tx) < 2 ^ 64"
    and "zora_mint_of ns_v2 x p tx (rc_logs tx ! k)"
    and "handle_event x schedule (last (sc_events sb')) b = (r', b')"
  shows "r' = Returns () \<and>
    (if base = 0
     then view x (ct_store b') = spec_mark x (st_prune_minted_premints (ct_store b)) claim (view x (ct_store b)) \<and>
       (\<exists>ps. list_all_premints x (st_db (ct_store b')) = Ok ps \<and> ZoraV2 p \<notin> set ps)
     else ct_store b' = ct_store b)"
proof -
  have c: "cl_chain_id claim = chain" "cl_kind claim = ''zora_premint_v2''"
    using zora_map_claim_sel [OF assms(1)] by (simp_all add: ns_v2_def)
  have sent: "last (ct_swarm a') = ScSendOnchainMintFound claim" by (rule sent_claim [OF assms(5,4,3)])
  from published_claim [OF assms(6) assms(7) [unfolded sent]]
  have ev: "last (sc_events sb') = EvMintSeenOnchain \<lparr>pc_claim = claim, pc_from_peer_id = peer\<rparr>"
    using assms(8-10) c(2) by (auto simp: send_event_def)
  have check: "\<exists>res. inclusion_claim_correct x (ct_chains b) (ZoraV2 p) claim = (Returns res, cache') \<and>
      (res = Ok True \<longleftrightarrow> base = 0)"
    using block_offset_check [OF assms(1,2,15,16,17,18), of p] assms(19) by simp
  then have out: "r' = Returns ()"
    "ct_store b' = (if base = 0 then snd (mark_seen_on_chain x (ct_store b) claim) else ct_store b)"
    using claim_event [of b x "\<lparr>pc_claim = claim, pc_from_peer_id = peer\<rparr>", OF assms(13)]
      assms(14,20) ev by auto
  show ?thesis
  proof (cases "base = 0")
    case True
    with out have b': "ct_store b' = snd (mark_seen_on_chain x (ct_store b) claim)" by simp
    have key: "premint_key x (ZoraV2 p) = (cl_kind claim, cl_premint_id claim)"
      by (rule controller_view [OF assms(11,14)])
    have chain: "md_chain_id (metadata x (ZoraV2 p)) = cl_chain_id claim"
      using claimed_chain [OF _ assms(1,19) key] assms(11) by (simp add: good_store_def zora_metadata_def)
    obtain ps where ps: "list_all_premints x (st_db (ct_store b')) = Ok ps"
      using db.list_law [OF db.mark_good [OF assms(11)], of claim] assms(12) db.mark_up' b'
      by (auto simp: storage_reader_def)
    from db.mark_hides [OF assms(11,12), of claim ps "ZoraV2 p"] ps key chain b'
    have "ZoraV2 p \<notin> set ps" by (auto simp: storage_reader_def)
    with True ps b' out(1) db.mark_law [OF assms(11,12), of claim] show ?thesis by auto
  qed (use out in simp)
qed

text \<open>
  C9. In mode \<open>trust\<close> a node believes what a trusted peer passes on, not only what the peer saw: a
  claim that any node published marks the premint, without a look at the chain, as soon as it
  comes by way of a trusted peer.
\<close>

theorem trusted_peer_vouches_for_others:
  assumes "claim_wire_ok net x" "sc_events_open sb" "PremintName (cl_kind claim) \<in> set (sc_premint_names sb)"
    and "sc_calls (handle_swarm_command net x pick (ScSendOnchainMintFound claim) sa) = sc_calls sa @ [(Publish t d, v)]"
    and "cfg_chain_inclusion_mode (ct_config b) = Trust" "peer \<in> set (trusted_peers x (ct_config b))"
  shows "handle_event x schedule (last (sc_events (handle_swarm_event net x answer
      (SeGossipsub (GsMessage \<lparr>gm_topic = t, gm_data = d, gm_propagated_by = peer\<rparr>)) sb))) b =
    (Returns (), b\<lparr>ct_store := snd (mark_seen_on_chain x (ct_store b) claim)\<rparr>)"
  using published_claim [OF assms(1,4)] assms(2,3,5,6)
  by (auto simp: send_event_def handle_event_onchain_claim_def Let_def split: prod.split)

section \<open>Synchronisation\<close>

text \<open>
  C8. A round of synchronisation brings a node up to date with the peer it asked: the request
  carries the configured bound on the age, the peer's controller answers it from its store, and
  after the response has been processed, in whatever order its tasks were scheduled, the asking
  node has every premint of the answer in at least that version, except those that its rules
  refused: the premint's task read what was stored at one of its turns, ran the rules at a later
  one, and they did not accept.
\<close>

theorem sync_transfers_premints:
  assumes "good_store x (ct_store a)" "db_up (ct_store a)" "ct_swarm_open a"
    and "loop_turn x now InTick a = (Returns (), a1)"
    and "sc_calls (handle_swarm_command net x pick (last (ct_swarm a1)) sa) = sc_calls sa @ [(SendRequest peer q, v)]"
    and "good_store x (ct_store b)" "db_up (ct_store b)"
    and "handle_event x unused (EvSyncRequest q \<lparr>rp_id = i, rp_open = True\<rparr>) b = (r, b1)"
    and "ct_replies b1 = ct_replies b @ [(i, ReplyPremints ans)]"
    and "sc_events_open sb"
    and "sc_calls (handle_swarm_event net x (Some ans) (SeRequestResponse (RrRequest i q ch)) sb) =
      sc_calls sb @ [(SendResponse ch resp, v')]"
    and "sc_events_open sa1"
    and "handle_swarm_event net x answer (SeRequestResponse (RrResponse j resp)) sa1 = sa2"
    and "handle_event x schedule (last (sc_events sa2)) a1 = (r', a2)"
  shows "qo_from q = Some (now - uint (60 * 60 * cfg_sync_lookback_hours (ct_config a))) \<and>
    (\<exists>ps. list_all_with_options x (st_db (ct_store b)) q = Ok ps \<and>
       (\<forall>k<length ps. has_version x a2 (ps ! k) \<or>
          refused_in_turn x (schedule @ remaining_turns (length ps)) ps a1 k))"
proof -
  have a1: "ct_store a1 = ct_store a"
    and l: "last (ct_swarm a1) = ScSync (query_options_default
      \<lparr>qo_from := Some (now - uint (60 * 60 * cfg_sync_lookback_hours (ct_config a)))\<rparr>)"
    using assms(3,4) by (auto simp: request_sync_def send_swarm_def Let_def split: if_splits)
  have q: "q = query_options_default
      \<lparr>qo_from := Some (now - uint (60 * 60 * cfg_sync_lookback_hours (ct_config a)))\<rparr>"
    using assms(5) by (auto simp: l do_sync_def published_call split: list.splits)
  have ans: "ans = list_all_with_options x (st_db (ct_store b)) q"
    using assms(8,9) by (auto simp: send_reply_def)
  obtain ps where ps: "list_all_with_options x (st_db (ct_store b)) q = Ok ps"
    using assms(7) by (cases "list_all_with_options x (st_db (ct_store b)) q")
      (auto simp: list_all_with_options_def db_fetch_all_def db_up_def split: option.splits)
  have "resp = SrPremints ps"
    using assms(10,11) ans ps
    by (auto simp: make_sync_response_def make_sync_response_query_def send_event_def do_call_def Let_def)
  with assms(12,13) have "last (sc_events sa2) = EvSyncResponse ps" by (auto simp: send_event_def)
  with assms(14) have a2: "a2 = snd (run_sync x schedule ps a1)" by auto
  have "has_version x a2 (ps ! k) \<or> refused_in_turn x (schedule @ remaining_turns (length ps)) ps a1 k"
    if "k < length ps" for k
    unfolding a2 by (rule response_stored_or_refused) (use that assms(1,2) a1 in simp_all)
  with q ps show ?thesis by auto
qed

section \<open>The API and the controller\<close>

text \<open>
  C24. Submitting a premint over HTTP reports what became of it. The premint is in the store
  afterwards, in place of what was there, exactly if the rules accept it and it is new or of a
  higher version, and then the command to broadcast it is handed to the swarm, if the swarm is
  still there; otherwise the store and the commands are as before. The response is a success
  exactly if the premint was stored and handed over, and when the rules rejected it the response
  is a bad request that lists the result of every rule.
\<close>

theorem submit_reports_outcome:
  assumes "good_store x (ct_store c)" "db_up (ct_store c)"
    and "handle_command x now (submit_command m \<lparr>rp_id = i, rp_open = True\<rparr>) c = (out, c')"
    and "fst (run_rules x (ct_rules c x) (ct_chains c) m (storage_clone (ct_store c))
       (existing_in x (view x (ct_store c)) m)) = rs"
    and "stored \<longleftrightarrow> is_accept rs \<and> spec_accepts x (view x (ct_store c)) m"
  shows "view x (ct_store c') = (if stored then spec_put x m (view x (ct_store c)) else view x (ct_store c)) \<and>
    ct_swarm c' = ct_swarm c @ (if stored \<and> ct_swarm_open c then [ScBroadcast m] else []) \<and>
    (\<exists>r. ct_replies c' = ct_replies c @ [(i, ReplyDone r)] \<and>
      (fst (submit_premint x (Ok ()) (Some r)) = OK_STATUS \<longleftrightarrow> stored \<and> ct_swarm_open c) \<and>
      (\<not> is_accept rs \<longrightarrow>
         submit_premint x (Ok ()) (Some r) = (BAD_REQUEST, RulesError (map (rule_result_clone x) rs))))"
proof -
  have st: "is_ok (fst (store x (ct_store c) m)) \<longleftrightarrow> spec_accepts x (view x (ct_store c)) m"
    using db.put_law [OF assms(1,2), of m] by (auto simp: is_ok_iff)
  note v = validate_store [OF assms(1,2) assms(4) [symmetric]]
  have ok: "is_ok (fst (validate_and_insert x m c)) \<longleftrightarrow> stored"
    using st unfolding v(1) assms(5) by (cases "fst (store x (ct_store c) m)") auto
  have put: "view x (snd (store x (ct_store c) m)) =
      (if spec_accepts x (view x (ct_store c)) m then spec_put x m (view x (ct_store c)) else view x (ct_store c))"
    using assms(1,2) by (intro store_view) (simp_all add: good_store_def)
  obtain r1 c1 where p: "validate_and_insert x m c = (r1, c1)" by (cases "validate_and_insert x m c")
  then have c1: "c1 = snd (validate_and_insert x m c)" by simp
  then have frame: "ct_swarm_open c1 = ct_swarm_open c" "ct_replies c1 = ct_replies c" by simp_all
  have "ct_store c' = ct_store c1"
    using assms(3) p by (auto simp: submit_command_def reply_or_fail_def send_swarm_def send_reply_def
        split: sum.splits if_splits)
  then have "view x (ct_store c') = (if stored then spec_put x m (view x (ct_store c)) else view x (ct_store c))"
    using v(2) put by (simp add: c1 assms(5))
  moreover have "ct_swarm c' = ct_swarm c @ (if stored \<and> ct_swarm_open c then [ScBroadcast m] else [])"
    using broadcast_only_if_stored [OF assms(1), of now m _ out c'] assms(3) ok by (auto simp: submit_command_def)
  moreover have "\<exists>r. ct_replies c' = ct_replies c @ [(i, ReplyDone r)] \<and>
      (fst (submit_premint x (Ok ()) (Some r)) = OK_STATUS \<longleftrightarrow> stored \<and> ct_swarm_open c) \<and>
      (\<not> is_accept rs \<longrightarrow>
         submit_premint x (Ok ()) (Some r) = (BAD_REQUEST, RulesError (map (rule_result_clone x) rs)))"
  proof (cases r1)
    case (Inl e)
    then have "\<not> stored" using ok p by simp
    moreover have "e = Context ''Premint failed validation'' (Validation rs)" if "\<not> is_accept rs"
    proof -
      have "fst (validate_and_insert x m c) = Err e" using p Inl by simp
      with that v(1) show ?thesis by simp
    qed
    moreover have "ct_replies c' = ct_replies c @ [(i, ReplyDone (Err e))]"
      using assms(3) p Inl frame by (auto simp: submit_command_def reply_or_fail_def send_reply_def)
    ultimately show ?thesis
      by (intro exI [of _ "Err e"]) (auto simp: submit_premint_def split: option.split)
  next
    case (Inr ev)
    then have "stored" using ok p by simp
    with assms(3,5) p Inr frame show ?thesis
      by (auto simp: submit_command_def reply_or_fail_def send_reply_def submit_premint_def send_swarm_def
          split: if_splits)
  qed
  ultimately show ?thesis by blast
qed

text \<open>
  The summary counts the store: all entries, and those not yet seen on chain.
\<close>

lemma summary_counts_entries:
  assumes "store_ok x s" "db_up s" "length (db_rows (st_db s)) < 2 ^ 64"
    and "as_db state = st_db s"
  shows "\<exists>r. summary w net state (Ok ()) (Some info) = Ok r \<and>
    unat (sr_total_premint_count r) = card (dom (view x s)) \<and>
    unat (sr_active_premint_count r) = card {k. \<exists>e. view x s k = Some e \<and> \<not> en_seen e}"
proof -
  let ?rs = "db_rows (st_db s)"
  have d: "distinct (map row_key ?rs)" and f: "db_fault (st_db s) = None"
    using assms(1,2) by (simp_all add: store_ok_def db_ok_def db_up_def)
  have count: "card (row_key ` set (filter P ?rs)) = length (filter P ?rs)" for P
    using d by (metis distinct_card distinct_map_filter length_map set_map)
  have row: "find_row ?rs k = Some r \<longleftrightarrow> r \<in> set ?rs \<and> row_key r = k" for k r
    using d find_row_Some find_row_unique by metis
  have "dom (view x s) = row_key ` set (filter (\<lambda>_. True) ?rs)"
    by (auto simp: view_def dom_def row intro: rev_image_eqI)
  moreover have "{k. \<exists>e. view x s k = Some e \<and> \<not> en_seen e} = row_key ` set (filter (\<lambda>r. \<not> r_seen_on_chain r) ?rs)"
  proof (intro equalityI subsetI)
    fix k assume "k \<in> row_key ` set (filter (\<lambda>r. \<not> r_seen_on_chain r) ?rs)"
    then obtain r where "r \<in> set ?rs" "row_key r = k" "\<not> r_seen_on_chain r" by auto
    then have "view x s k = Some (row_entry x r)" "\<not> en_seen (row_entry x r)"
      using view_row [OF assms(1)] by (auto simp: row_entry_def)
    then show "k \<in> {k. \<exists>e. view x s k = Some e \<and> \<not> en_seen e}" by blast
  qed (auto simp: view_def row_entry_def row intro: rev_image_eqI)
  moreover have u: "unat (of_int (int (length (filter P ?rs))) :: u64) = length (filter P ?rs)" for P
    using le_less_trans [OF length_filter_le [of P ?rs] assms(3)] by (simp add: unat_of_nat)
  ultimately show ?thesis
    using u [of "\<lambda>_. True"] count [of "\<lambda>_. True"] count [of "\<lambda>r. \<not> r_seen_on_chain r"] f assms(4)
    by (simp add: summary_def sql_count_def)
qed

text \<open>
  C25. Adding peers, starting a synchronisation and submitting without the rate limit are for the
  operator: such a request reaches its handler only if a secret is configured and the request
  carries it, or carries an unreadable header and the secret is empty. Routes that a program adds
  under other paths change nothing.
\<close>

theorem admin_needs_secret:
  assumes "starts_with path ''/admin/''" "\<forall>(p, m, e)\<in>set added. \<not> starts_with p ''/admin/''"
  shows "with_admin_routes w state (router_with_defaults @ added) path m authorization = Some (Next e) \<longleftrightarrow>
    find_route admin_routes path m = Some e \<and>
    (\<exists>secret header. as_api_secret state = Some secret \<and> authorization = Some header \<and>
      (header_to_str w header = Some secret \<or> header_to_str w header = None \<and> secret = []))"
proof -
  have "path = ''/admin/'' @ drop (length ''/admin/'') path"
    using assms unfolding starts_with_def by (metis append_take_drop_id)
  then obtain rest where "path = ''/admin/'' @ rest" by blast
  then have "\<forall>(p, m', e)\<in>set router_with_defaults. p \<noteq> path" by (simp add: router_with_defaults_def)
  moreover have "\<forall>(p, m', e)\<in>set added. p \<noteq> path" using assms by auto
  ultimately have "find_route (router_with_defaults @ added) path m = None"
    by (auto simp: find_route_def find_None_iff)
  then show ?thesis
    by (auto simp: with_admin_routes_def auth_middleware_def split: option.splits if_splits)
qed

section \<open>Starting\<close>

lemma watch_each_Returns:
  "\<forall>i\<in>set ids. \<exists>u. get_rpc_url x i = Ok u \<Longrightarrow>
     \<exists>ws. watch_each x ids = Returns ws \<and> map fst ws = ids \<and> (\<forall>(i, u)\<in>set ws. get_rpc_url x i = Ok u)"
  by (induction ids) fastforce+

text \<open>
  A node with a valid configuration gets its watchers started without panic: in mode
  \<open>check\<close> one for each supported chain, in order, with the url of that chain, and none otherwise.
\<close>

lemma watchers_start:
  assumes "init x = Returns cfg"
  shows "\<exists>ws ids. start_watch_chain x cfg = Returns ws \<and> supported_chains cfg = Returns ids \<and>
    map fst ws = (if cfg_chain_inclusion_mode cfg = Check then ids else []) \<and>
    (\<forall>(i, u)\<in>set ws. get_rpc_url x i = Ok u)"
proof -
  obtain ids where ids: "supported_chains cfg = Returns ids"
    "\<forall>i\<in>set ids. \<exists>ch. get_chain_by_id i = Some ch" using assms by (rule init_Returns)
  then have "\<forall>i\<in>set ids. \<exists>u. get_rpc_url x i = Ok u" using known_chain_url [of _ _ x] by blast
  from watch_each_Returns [OF this] ids(1) show ?thesis by (auto simp: start_watch_chain_def)
qed

section \<open>Concrete nodes\<close>

theorem mint_reaches_peers_witness:
  "\<exists>a' t d v b'.
     handle_command sample_ext 0 (CcResolveOnchainMint sample_claim)
       (sample_controller Check (sample_store True)) = (Returns (Ok ()), a') \<and>
     sc_calls (handle_swarm_command sample_net sample_ext 0 (last (ct_swarm a')) (sample_swarm ''alice'' [])) =
       [(Publish t d, v)] \<and>
     handle_event sample_ext [] (last (sc_events (handle_swarm_event sample_net sample_ext None
       (SeGossipsub (GsMessage \<lparr>gm_topic = t, gm_data = d, gm_propagated_by = ''alice''\<rparr>)) (sample_swarm ''bob'' []))))
       (sample_controller Verify one_v2) = (Returns (), b') \<and>
     (\<exists>ps. list_all_premints sample_ext (st_db (ct_store b')) = Ok ps \<and> ZoraV2 sample_v2 \<notin> set ps)"
proof -
  let ?a = "sample_controller Check (sample_store True)" and ?b = "sample_controller Verify one_v2"
  obtain r a' where a: "handle_command sample_ext 0 (CcResolveOnchainMint sample_claim) ?a = (r, a')"
    by fastforce
  have sent: "last (ct_swarm a') = ScSendOnchainMintFound sample_claim" by (rule sent_claim [OF a]) simp_all
  obtain t d where c: "sc_calls (handle_swarm_command sample_net sample_ext 0 (last (ct_swarm a'))
      (sample_swarm ''alice'' [])) = sc_calls (sample_swarm ''alice'' []) @ [(Publish t d, sample_view ''alice'' [])]"
    using sample_claim_published [of sample_claim "[]"] unfolding sent by blast
  obtain sb' where sb: "handle_swarm_event sample_net sample_ext None
      (SeGossipsub (GsMessage \<lparr>gm_topic = t, gm_data = d, gm_propagated_by = ''alice''\<rparr>)) (sample_swarm ''bob'' []) = sb'"
    by blast
  obtain r' b' where b: "handle_event sample_ext [] (last (sc_events sb')) ?b = (r', b')" by fastforce
  have rpc: "get_rpc sample_ext (ct_chains ?b) 7777777 = (Ok (WsProvider ''wss://rpc.zora.energy''), zora_cache)"
    using sample_rpc_cached by simp
  have tx: "receipt_of sample_ext (WsProvider ''wss://rpc.zora.energy'') (cl_tx_hash sample_claim) = Ok (Some sample_receipt)"
    by (simp add: sample_claim_def sample_receipt_of)
  have g: "good_store sample_ext (ct_store ?b)" "db_up (ct_store ?b)" "cfg_chain_inclusion_mode (ct_config ?b) \<noteq> Trust"
    "get_for_id_and_kind sample_ext (st_db (ct_store ?b)) (cl_premint_id sample_claim)
       (PremintName (cl_kind sample_claim)) = Ok (ZoraV2 sample_v2)"
    using one_v2_get by simp_all
  have l: "rc_logs sample_receipt ! 0 = sample_log" "0 < length (rc_logs sample_receipt)"
    "\<forall>i<length (rc_logs sample_receipt). log_log_index (rc_logs sample_receipt ! i) = Some (0 + of_nat i)"
    "length (rc_logs sample_receipt) < 2 ^ 64"
    by (simp_all add: sample_receipt_def sample_log_def)
  have m: "zora_map_claim ns_v2 sample_ext 7777777 (rc_logs sample_receipt ! 0) = Ok sample_claim"
    "zora_mint_of ns_v2 sample_ext sample_v2 sample_receipt (rc_logs sample_receipt ! 0)"
    unfolding l(1) by (rule sample_map_claim sample_mint_of)+
  have "r = Returns (Ok ())" using a by auto
  with mint_reaches_peers [OF m(1) l(2) _ _ a sample_claim_wire_ok c _ _ sb g rpc tx l(3,4) m(2) b]
    a c b sb sample_names
  show ?thesis by (auto simp: config_test_default_def sample_controller_def sample_config_def controller_new_def)
qed

definition trusting_controller :: controller where
  "trusting_controller = (sample_controller Trust one_v2)
     \<lparr>ct_config := (sample_config Trust)\<lparr>cfg_trusted_peers := Some ''bob''\<rparr>\<rparr>"

theorem trusted_peer_vouches_for_others_witness:
  "\<exists>t d v. sc_calls (handle_swarm_command sample_net sample_ext 0 (ScSendOnchainMintFound sample_mint_claim)
       (sample_swarm ''mallory'' [])) = [(Publish t d, v)] \<and>
     handle_event sample_ext [] (last (sc_events (handle_swarm_event sample_net
       sample_ext None (SeGossipsub (GsMessage \<lparr>gm_topic = t, gm_data = d, gm_propagated_by = ''bob''\<rparr>))
       (sample_swarm ''alice'' [])))) trusting_controller =
     (Returns (), trusting_controller
       \<lparr>ct_store := snd (mark_seen_on_chain sample_ext (ct_store trusting_controller) sample_mint_claim)\<rparr>)"
proof -
  obtain t d where c: "sc_calls (handle_swarm_command sample_net sample_ext 0 (ScSendOnchainMintFound sample_mint_claim)
      (sample_swarm ''mallory'' [])) = sc_calls (sample_swarm ''mallory'' []) @ [(Publish t d, sample_view ''mallory'' [])]"
    by (simp add: broadcast_claim_def sample_claim_json)
  have t: "cfg_chain_inclusion_mode (ct_config trusting_controller) = Trust"
    "''bob'' \<in> set (trusted_peers sample_ext (ct_config trusting_controller))"
    by (simp_all add: trusting_controller_def sample_config_def trusted_peers_def sample_ext_def
        map_filter_simps)
  from trusted_peer_vouches_for_others [OF sample_claim_wire_ok _ _ c t, of "sample_swarm ''alice'' []" "[]" None]
    c sample_names
  show ?thesis by (auto simp: sample_mint_claim_def)
qed

theorem submit_reports_outcome_witness:
  "\<exists>out c' r. handle_command sample_ext 0 (submit_command (ZoraV2 signed_v2) \<lparr>rp_id = 4, rp_open = True\<rparr>)
      (sample_controller Check (sample_store True)) = (out, c') \<and>
    view sample_ext (ct_store c') = spec_put sample_ext (ZoraV2 signed_v2) Map.empty \<and>
    ct_swarm c' = [ScBroadcast (ZoraV2 signed_v2)] \<and>
    ct_replies c' = [(4, ReplyDone r)] \<and> fst (submit_premint sample_ext (Ok ()) (Some r)) = OK_STATUS"
proof -
  let ?c = "sample_controller Check (sample_store True)"
  obtain rs where rs: "fst (run_rules sample_ext (ct_rules ?c sample_ext) (ct_chains ?c) (ZoraV2 signed_v2)
      (storage_clone (ct_store ?c)) (existing_in sample_ext (view sample_ext (ct_store ?c)) (ZoraV2 signed_v2))) = rs"
    "is_accept rs" by (rule signed_as_run)
  obtain out c' where h: "handle_command sample_ext 0
      (submit_command (ZoraV2 signed_v2) \<lparr>rp_id = 4, rp_open = True\<rparr>) ?c = (out, c')" by fastforce
  have "True \<longleftrightarrow> is_accept rs \<and> spec_accepts sample_ext (view sample_ext (ct_store ?c)) (ZoraV2 signed_v2)"
    using rs(2) by (simp add: spec_accepts_def)
  from submit_reports_outcome [OF _ _ h rs(1) this] h show ?thesis by auto
qed

definition sample_web :: web where
  "sample_web = \<lparr>git_commit_hash_short = None, pkg_version = ''0.2.0'', encode_hex = (\<lambda>s. ''ff''),
     header_to_str = Some\<rparr>"

theorem summary_counts_entries_witness:
  "\<exists>r. summary sample_web sample_net \<lparr>as_db = st_db (sample_one False), as_api_secret = None\<rparr> (Ok ())
      (Some (make_network_state sample_net (sample_swarm ''alice'' []))) = Ok r \<and>
    unat (sr_total_premint_count r) = 1"
proof -
  have "length (db_rows (st_db (sample_one False))) = 1"
    using sample_one_stored [of False]
    by (auto simp: sample_one_def store_def sample_store_def sample_pool_def db_execute_def split: sum.splits if_splits)
  moreover have "store_ok sample_ext (sample_one False)" using sample_one_good(1) [of False] by (simp add: good_store_def)
  ultimately show ?thesis
    using summary_counts_entries [of sample_ext "sample_one False"
        "\<lparr>as_db = st_db (sample_one False), as_api_secret = None\<rparr>" sample_web sample_net
        "make_network_state sample_net (sample_swarm ''alice'' [])"] by auto
qed

theorem admin_needs_secret_witness:
  "with_admin_routes sample_web \<lparr>as_db = st_db (sample_one False), as_api_secret = Some ''s3''\<rparr>
     router_with_defaults ''/admin/sync'' POST (Some ''s3'') = Some (Next RtSync) \<and>
   with_admin_routes sample_web \<lparr>as_db = st_db (sample_one False), as_api_secret = Some ''s3''\<rparr>
     router_with_defaults ''/admin/sync'' POST (Some ''s4'') \<noteq> Some (Next RtSync)"
  using admin_needs_secret [of "''/admin/sync''" "[]" sample_web
      "\<lparr>as_db = st_db (sample_one False), as_api_secret = Some ''s3''\<rparr>" POST _ RtSync]
  by (simp add: starts_with_def find_route_def admin_routes_def sample_web_def)

theorem watchers_start_witness:
  "\<exists>cfg ws. init (env_with (Some ''check'')) = Returns cfg \<and>
     start_watch_chain (env_with (Some ''check'')) cfg = Returns ws \<and> map fst ws = [7777777, 8453]"
proof -
  have "mode_from_str ''check'' = Ok Check"
    by (simp add: mode_from_str_def to_lowercase_def lower_char_def)
  then obtain cfg where cfg: "init (env_with (Some ''check'')) = Returns cfg"
    "supported_chains cfg = Returns [7777777, 8453]" "cfg_chain_inclusion_mode cfg = Check"
    using env_with_init [of "Some ''check''" Check] by auto
  from watchers_start [OF cfg(1)] cfg show ?thesis by auto
qed

definition one_signed :: premint_storage where
  "one_signed = snd (store sample_ext (sample_store False) (ZoraV2 signed_v2))"

lemma one_signed_good: "good_store sample_ext one_signed" "db_up one_signed"
  by (simp_all only: one_signed_def db.put_good sample_good db.put_up sample_up)

lemma one_signed_listed:
  "list_all_with_options sample_ext (st_db one_signed) (query_options_default\<lparr>qo_from := Some t\<rparr>) =
     Ok (if time_text sample_ext t \<le> ''2024-06-01 12:00:00'' then [ZoraV2 signed_v2] else [])"
proof -
  obtain j where j: "to_json sample_ext (ZoraV2 signed_v2) = Ok j" "from_json sample_ext j = Ok (ZoraV2 signed_v2)"
    using json_round_trip [OF sample_serde_ok] by blast
  then have "st_db one_signed = sample_pool\<lparr>db_rows := [premint_row sample_ext (ZoraV2 signed_v2) j ''2024-06-01 12:00:00'']\<rparr>"
    by (simp add: one_signed_def store_def sample_store_def db_execute_def sample_pool_def)
  with j(2) show ?thesis
    by (simp add: list_all_with_options_def db_fetch_all_def sample_pool_def query_selects_def build_query_def
        push_cond_def query_options_default_def premint_row_def decode_rows_def decode_row_def
        Let_def map_filter_simps)
qed

theorem sync_transfers_premints_witness:
  "has_version sample_ext (snd (handle_event sample_ext [] (EvSyncResponse [ZoraV2 signed_v2])
     (snd (loop_turn sample_ext 21612 InTick (sample_controller Verify (sample_store True)))))) (ZoraV2 signed_v2)"
proof -
  let ?p = "ZoraV2 signed_v2" and ?bob = "sample_swarm ''bob'' []" and ?alice = "sample_swarm ''alice'' [''bob'']"
  let ?a = "sample_controller Verify (sample_store True)" and ?b = "sample_controller Verify one_signed"
  let ?q = "query_options_default\<lparr>qo_from := Some 12\<rparr>"
  define a1 where "a1 = ?a\<lparr>ct_swarm := [ScSync ?q]\<rparr>"
  have t: "loop_turn sample_ext 21612 InTick ?a = (Returns (), a1)"
    by (simp add: a1_def request_sync_def send_swarm_def Let_def)
      (simp add: sample_controller_def sample_config_def controller_new_def config_test_default_def sample_ext_def)
  have l: "list_all_with_options sample_ext (st_db one_signed) ?q = Ok [?p]"
  proof -
    have "time_text sample_ext 12 = ''12''" by (simp add: sample_ext_def dec_digits.simps digit_char_def)
    then show ?thesis using one_signed_listed [of 12] by simp
  qed
  have s: "sc_calls (handle_swarm_command sample_net sample_ext 0 (last (ct_swarm a1)) ?alice) =
      sc_calls ?alice @ [(SendRequest ''bob'' ?q, sample_view ''alice'' [''bob''])]"
    by (simp add: a1_def do_sync_def make_network_state_def sample_view_def)
  have h: "handle_event sample_ext [] (EvSyncRequest ?q \<lparr>rp_id = 1, rp_open = True\<rparr>) ?b =
      (Returns (), ?b\<lparr>ct_replies := [(1, ReplyPremints (Ok [?p]))]\<rparr>)"
    by (simp add: l send_reply_def)
  have c: "sc_calls (handle_swarm_event sample_net sample_ext (Some (Ok [?p]))
      (SeRequestResponse (RrRequest 1 ?q 2)) ?bob) = sc_calls ?bob @ [(SendResponse 2 (SrPremints [?p]), sample_view ''bob'' [])]"
    by (simp add: make_sync_response_def make_sync_response_query_def send_event_def)
  obtain sa2 where sa: "handle_swarm_event sample_net sample_ext None
      (SeRequestResponse (RrResponse 1 (SrPremints [?p]))) ?alice = sa2" by blast
  then have e: "last (sc_events sa2) = EvSyncResponse [?p]" by (auto simp: send_event_def)
  obtain r' a2 where a2: "handle_event sample_ext [] (last (sc_events sa2)) a1 = (r', a2)" by fastforce
  have "is_accept (judged sample_ext a1 a1 ?p)"
    using signed_as_accepted [of Map.empty "CHR ''A''" 0] by (auto simp: judged_def a1_def existing_in_def)
  then have "\<not> refused_in_turn sample_ext ([] @ remaining_turns (length [?p])) [?p] a1 0"
    using lone_task_judges [of sample_ext ?p a1] by auto
  with sync_transfers_premints [OF _ _ _ t s _ _ h _ _ c _ sa a2] one_signed_good l
  have "has_version sample_ext a2 ?p" by (simp add: a1_def)
  with a2 e t show ?thesis by simp
qed

end
